(* ===== verification/Bull_Prelude.thy ===== *)
theory Bull_Prelude
  imports Main "HOL-Library.AList" "HOL-Library.Sublist" "HOL-Library.Char_ord"
    "HOL-Library.List_Lexorder"
begin

text \<open>
  Shared vocabulary of the development.

  \<^item> \<open>exn\<close> and \<open>'a res\<close>: a Python exception is a value, its class and its message; a
    function that may raise returns \<open>'a res\<close>, \<open>Inl\<close> being the exception.
  \<^item> \<open>'v dict\<close>: a Python dictionary keeps insertion order, so it is an association list;
    \<open>AList.update\<close> overwrites in place and appends a new key, as Python does.
  \<^item> \<open>run_steps\<close>, \<open>run_ops\<close>: iteration of a machine that stops at its first exception, and
    of a stateful object whose operations return a result and a new state.
  \<^item> four locales, the contracts that several components share: \<open>guarded_machine\<close> (every
    accepted step keeps an invariant), \<open>bounded_machine\<close> (every accepted step also spends a
    budget, so accepted runs are short), \<open>stateful_object\<close> (every operation, failing ones
    included, keeps an invariant and moves the state up a preorder) and \<open>guarded_object\<close> (the
    same for operations with a side condition).
\<close>

named_theorems bull_defs \<open>definitions that the component proofs unfold\<close>
named_theorems bull_intros \<open>preservation facts of the components\<close>

section \<open>Exceptions as values\<close>

datatype exn_class =
    ActionCanonicalizationError
  | SecurityDomainError
  | AuditIntegrityError
  | AnchorError
  | ApprovalError
  | ApprovalRequired
  | BrokerGrantError
  | DispatchDenied
  | EgressDenied
  | EgressError
  | PolicyBundleError
  | SecretBrokerError
  | SnapshotViolation
  | TraceViolation
  | ValueError
  | KeyError
  | TypeError
  | AttributeError
  | RuntimeError
  | MalwareScannerError
  | FilesystemManifestViolation
  | WorkspaceLimitViolation
  | IntegrityViolation
  | ProductionGateFailure
  | DeliveryError
  | HoneyTokenLeak
  | RemoteSessionError
  | AssertionError
  | OSError
  | SeccompError
  | SandboxUnavailable
  | SecurePathViolation
  | MicroVMError
  | AssuranceError
  | MalwareScannerUnavailable
  | IndexError
  | OtherError

type_synonym exn = "exn_class \<times> string"

type_synonym 'a res = "exn + 'a"

abbreviation raise :: "exn_class \<Rightarrow> string \<Rightarrow> 'a res" where
  "raise c m \<equiv> Inl (c, m)"

definition returns :: "'a res \<Rightarrow> bool" where
  "returns r = (case r of Inl _ \<Rightarrow> False | Inr _ \<Rightarrow> True)"

lemma returns_simps [simp]: "returns (Inr x)" "\<not> returns (Inl e)"
  by (simp_all add: returns_def)

lemma returns_iff: "returns r \<longleftrightarrow> (\<exists>x. r = Inr x)"
  by (cases r) simp_all

lemma sum_case_Inr_iff:
  "(case r of Inl e \<Rightarrow> Inl (f e) | Inr x \<Rightarrow> g x) = Inr y \<longleftrightarrow> (\<exists>x. r = Inr x \<and> g x = Inr y)"
  by (cases r) auto

text \<open>\<open>result_sat r P\<close>: the call returned, and its value satisfies \<open>P\<close>.\<close>

definition result_sat :: "'a res \<Rightarrow> ('a \<Rightarrow> bool) \<Rightarrow> bool" where
  "result_sat r P = (case r of Inl _ \<Rightarrow> False | Inr x \<Rightarrow> P x)"

lemma result_sat_simps [simp]: "result_sat (Inr x) P = P x" "\<not> result_sat (Inl e) P"
  by (simp_all add: result_sat_def)

lemma result_satE:
  assumes "result_sat r P"
  obtains x where "r = Inr x" and "P x"
  using assms by (cases r) auto

section \<open>Dictionaries\<close>

type_synonym 'v dict = "(string \<times> 'v) list"

abbreviation dict_get :: "('k \<times> 'v) list \<Rightarrow> 'k \<Rightarrow> 'v option" where
  "dict_get \<equiv> map_of"

abbreviation dict_set :: "'k \<Rightarrow> 'v \<Rightarrow> ('k \<times> 'v) list \<Rightarrow> ('k \<times> 'v) list" where
  "dict_set \<equiv> AList.update"

abbreviation dict_pop :: "'k \<Rightarrow> ('k \<times> 'v) list \<Rightarrow> ('k \<times> 'v) list" where
  "dict_pop \<equiv> AList.delete"

lemma dict_get_set [simp]: "dict_get (dict_set k v d) k' = (if k' = k then Some v else dict_get d k')"
  by (simp add: update_conv)

lemma dict_get_pop [simp]: "dict_get (dict_pop k d) k' = (if k' = k then None else dict_get d k')"
  by (simp add: delete_conv)

lemma dict_keys_set [simp]: "fst ` set (dict_set k v d) = insert k (fst ` set d)"
  by (induction d) auto

lemma distinct_dict_set [simp]: "distinct (map fst d) \<Longrightarrow> distinct (map fst (dict_set k v d))"
  by (rule distinct_update)

lemma dict_set_fresh: "dict_get d k = None \<Longrightarrow> dict_set k v d = d @ [(k, v)]"
  by (induction d) (auto split: if_splits)

lemma set_dict_set_distinct:
  "distinct (map fst d) \<Longrightarrow> set (dict_set k v d) = insert (k, v) {p \<in> set d. fst p \<noteq> k}"
  by (induction d) (auto simp: image_iff split: if_splits)

lemma dict_get_map_values:
  "dict_get (map (\<lambda>(k, v). (k, f v)) d) k = map_option f (dict_get d k)"
  by (induction d) auto

section \<open>Decimal numerals\<close>

definition digit_char :: "nat \<Rightarrow> char" where
  "digit_char n = char_of (48 + n)"

fun nat_str :: "nat \<Rightarrow> string" where
  "nat_str n = (if n < 10 then [digit_char n] else nat_str (n div 10) @ [digit_char (n mod 10)])"

declare nat_str.simps [simp del]

definition int_str :: "int \<Rightarrow> string" where
  "int_str i = (if i < 0 then ''-'' @ nat_str (nat (- i)) else nat_str (nat i))"

lemma nat_str_digits: "c \<in> set (nat_str n) \<Longrightarrow> \<exists>d < 10. c = digit_char d"
proof (induction n rule: nat_str.induct)
  case (1 n)
  show ?case
  proof (cases "c = digit_char (n mod 10)")
    case True
    then show ?thesis by (intro exI [of _ "n mod 10"]) simp
  next
    case False
    with 1 show ?thesis by (subst (asm) (2) nat_str.simps) (auto split: if_split_asm)
  qed
qed

lemma digit_char_code: "d < 10 \<Longrightarrow> of_char (digit_char d) = (48 + d :: nat)"
  by (simp add: digit_char_def)

definition digits_value :: "string \<Rightarrow> nat" where
  "digits_value s = foldl (\<lambda>a c. 10 * a + (of_char c - 48)) 0 s"

lemma digits_value_nat_str: "digits_value (nat_str n) = n"
proof (induction n rule: nat_str.induct)
  case (1 n)
  show ?case
  proof (cases "n < 10")
    case True
    then show ?thesis by (simp add: nat_str.simps digits_value_def digit_char_code)
  next
    case False
    with 1 have "digits_value (nat_str (n div 10)) = n div 10" by simp
    with False show ?thesis
      by (subst nat_str.simps) (simp add: digits_value_def digit_char_code)
  qed
qed

lemma nat_str_inj: "nat_str n = nat_str m \<longleftrightarrow> n = m"
  by (metis digits_value_nat_str)

lemma nat_str_comma:
  assumes "nat_str n @ CHR '','' # x = nat_str m @ CHR '','' # y"
  shows "n = m"
proof -
  have "digit_char d \<noteq> CHR '',''" if "d < 10" for d
    using digit_char_code [OF that] by auto
  note dig = this
  have no: "c \<noteq> CHR '',''" if "c \<in> set (nat_str k)" for c k
  proof -
    from nat_str_digits [OF that] obtain d where "d < 10" "c = digit_char d" by blast
    with dig [of d] show ?thesis by simp
  qed
  have "takeWhile (\<lambda>c. c \<noteq> CHR '','') (nat_str k @ CHR '','' # z) = nat_str k" for k z
  proof -
    have "takeWhile (\<lambda>c. c \<noteq> CHR '','') (nat_str k @ CHR '','' # z)
        = nat_str k @ takeWhile (\<lambda>c. c \<noteq> CHR '','') (CHR '','' # z)"
      by (rule takeWhile_append2) (rule no)
    then show ?thesis by simp
  qed
  with assms have "nat_str n = nat_str m" by metis
  then show ?thesis by (simp add: nat_str_inj)
qed

lemma int_str_nat [simp]: "int_str (int n) = nat_str n"
  by (simp add: int_str_def)

section \<open>Machines that stop at the first exception\<close>

fun run_steps :: "('s \<Rightarrow> 'e \<Rightarrow> 's res) \<Rightarrow> 's \<Rightarrow> 'e list \<Rightarrow> 's res" where
  "run_steps f s [] = Inr s"
| "run_steps f s (e # es) = (case f s e of Inl x \<Rightarrow> Inl x | Inr s' \<Rightarrow> run_steps f s' es)"

lemma run_steps_Cons_Inr:
  "run_steps f s (e # es) = Inr t \<longleftrightarrow> (\<exists>s'. f s e = Inr s' \<and> run_steps f s' es = Inr t)"
  by (simp split: sum.splits)

lemma run_steps_append:
  "run_steps f s (xs @ ys) = (case run_steps f s xs of Inl x \<Rightarrow> Inl x | Inr s' \<Rightarrow> run_steps f s' ys)"
  by (induction xs arbitrary: s) (auto split: sum.splits)

locale guarded_machine =
  fixes step :: "'s \<Rightarrow> 'e \<Rightarrow> 's res"
    and inv :: "'s \<Rightarrow> bool"
  assumes step_inv: "inv s \<Longrightarrow> step s e = Inr s' \<Longrightarrow> inv s'"
begin

lemma run_inv: "inv s \<Longrightarrow> run_steps step s es = Inr t \<Longrightarrow> inv t"
  by (induction es arbitrary: s) (auto simp: run_steps_Cons_Inr simp del: run_steps.simps(2)
      intro: step_inv)

lemma run_prefix_inv:
  assumes "inv s" and "run_steps step s (xs @ ys) = Inr t"
  shows "\<exists>u. run_steps step s xs = Inr u \<and> inv u \<and> run_steps step u ys = Inr t"
proof -
  from assms(2) obtain u where u: "run_steps step s xs = Inr u" "run_steps step u ys = Inr t"
    by (auto simp: run_steps_append split: sum.splits)
  with assms(1) show ?thesis by (blast intro: run_inv)
qed

end

locale bounded_machine = guarded_machine step inv
  for step :: "'s \<Rightarrow> 'e \<Rightarrow> 's res" and inv :: "'s \<Rightarrow> bool" +
  fixes rank :: "'s \<Rightarrow> nat"
  assumes step_rank: "inv s \<Longrightarrow> step s e = Inr s' \<Longrightarrow> rank s' < rank s"
begin

lemma run_length: "inv s \<Longrightarrow> run_steps step s es = Inr t \<Longrightarrow> length es + rank t \<le> rank s"
proof (induction es arbitrary: s)
  case Nil
  then show ?case by simp
next
  case (Cons e es)
  then obtain s' where s': "step s e = Inr s'" "run_steps step s' es = Inr t"
    by (auto simp: run_steps_Cons_Inr simp del: run_steps.simps(2))
  with Cons.prems have "length es + rank t \<le> rank s'" by (blast intro: Cons.IH step_inv)
  moreover have "rank s' < rank s" using Cons.prems(1) s'(1) by (rule step_rank)
  ultimately show ?case by simp
qed

end

section \<open>Objects whose operations return a result and a new state\<close>

fun run_ops :: "('o \<Rightarrow> 's \<Rightarrow> 'r \<times> 's) \<Rightarrow> 'o list \<Rightarrow> 's \<Rightarrow> 'r list \<times> 's" where
  "run_ops f [] s = ([], s)"
| "run_ops f (x # xs) s =
     (let (r, s') = f x s; (rs, t) = run_ops f xs s' in (r # rs, t))"

lemma run_ops_Cons_simps [simp]:
  "fst (run_ops f (x # xs) s) = fst (f x s) # fst (run_ops f xs (snd (f x s)))"
  "snd (run_ops f (x # xs) s) = snd (run_ops f xs (snd (f x s)))"
  by (simp_all add: Let_def case_prod_beta)

declare run_ops.simps(2) [simp del]

lemma run_ops_append:
  "run_ops f (xs @ ys) s =
     (fst (run_ops f xs s) @ fst (run_ops f ys (snd (run_ops f xs s))),
      snd (run_ops f ys (snd (run_ops f xs s))))"
  by (induction xs arbitrary: s) (simp_all add: prod_eq_iff)

lemma length_run_ops [simp]: "length (fst (run_ops f xs s)) = length xs"
  by (induction xs arbitrary: s) simp_all

locale stateful_object =
  fixes step :: "'o \<Rightarrow> 's \<Rightarrow> 'r \<times> 's"
    and inv :: "'s \<Rightarrow> bool"
    and below :: "'s \<Rightarrow> 's \<Rightarrow> bool"
  assumes step_inv: "inv s \<Longrightarrow> inv (snd (step x s))"
    and step_below: "inv s \<Longrightarrow> below s (snd (step x s))"
    and below_refl: "below s s"
    and below_trans: "below s t \<Longrightarrow> below t u \<Longrightarrow> below s u"
begin

lemma run_inv: "inv s \<Longrightarrow> inv (snd (run_ops step xs s))"
proof (induction xs arbitrary: s)
  case Nil
  then show ?case by simp
next
  case (Cons x xs)
  from Cons.IH [OF step_inv [OF Cons.prems, of x]] show ?case by simp
qed

lemma run_below: "inv s \<Longrightarrow> below s (snd (run_ops step xs s))"
proof (induction xs arbitrary: s)
  case Nil
  then show ?case by (simp add: below_refl)
next
  case (Cons x xs)
  have "below s (snd (step x s))" using Cons.prems by (rule step_below)
  moreover have "below (snd (step x s)) (snd (run_ops step xs (snd (step x s))))"
    by (rule Cons.IH [OF step_inv [OF Cons.prems]])
  ultimately have "below s (snd (run_ops step xs (snd (step x s))))" by (rule below_trans)
  then show ?case by simp
qed

end

text \<open>
  The same contract when operations carry a side condition (a fresh identifier, say): it holds along
  every run whose operations all satisfy their condition when they are issued.
\<close>

fun run_ok :: "('o \<Rightarrow> 's \<Rightarrow> bool) \<Rightarrow> ('o \<Rightarrow> 's \<Rightarrow> 'r \<times> 's) \<Rightarrow> 'o list \<Rightarrow> 's \<Rightarrow> bool" where
  "run_ok ok f [] s = True"
| "run_ok ok f (x # xs) s = (ok x s \<and> run_ok ok f xs (snd (f x s)))"

lemma run_ok_append: "run_ok ok f (xs @ ys) s \<longleftrightarrow> run_ok ok f xs s \<and> run_ok ok f ys (snd (run_ops f xs s))"
  by (induction xs arbitrary: s) simp_all

lemma run_ok_True [simp]: "run_ok (\<lambda>_ _. True) f xs s"
  by (induction xs arbitrary: s) simp_all

text \<open>A result that needs an unused state and uses it up occurs at most once in a run.\<close>

lemma run_ops_count:
  assumes "run_ok ok f xs s"
    and step: "\<And>x s r s'. ok x s \<Longrightarrow> f x s = (r, s') \<Longrightarrow> used s \<Longrightarrow> used s'"
    and hit: "\<And>x s r s'. ok x s \<Longrightarrow> f x s = (r, s') \<Longrightarrow> P r \<Longrightarrow> \<not> used s \<and> used s'"
  shows "length (filter P (fst (run_ops f xs s))) \<le> (if used s then 0 else 1)"
  using assms(1)
proof (induction xs arbitrary: s)
  case Nil
  then show ?case by simp
next
  case (Cons x xs)
  obtain r s' where f: "f x s = (r, s')" by fastforce
  with Cons.prems have x: "ok x s" and xs: "run_ok ok f xs s'" by simp_all
  show ?case using Cons.IH [OF xs] step [OF x f] hit [OF x f] by (auto simp: f split: if_split_asm)
qed

locale guarded_object =
  fixes step :: "'o \<Rightarrow> 's \<Rightarrow> 'r \<times> 's"
    and ok :: "'o \<Rightarrow> 's \<Rightarrow> bool"
    and inv :: "'s \<Rightarrow> bool"
    and below :: "'s \<Rightarrow> 's \<Rightarrow> bool"
  assumes step_inv: "inv s \<Longrightarrow> ok x s \<Longrightarrow> inv (snd (step x s))"
    and step_below: "inv s \<Longrightarrow> ok x s \<Longrightarrow> below s (snd (step x s))"
    and below_refl: "below s s"
    and below_trans: "below s t \<Longrightarrow> below t u \<Longrightarrow> below s u"
begin

lemma run_inv: "inv s \<Longrightarrow> run_ok ok step xs s \<Longrightarrow> inv (snd (run_ops step xs s))"
proof (induction xs arbitrary: s)
  case Nil
  then show ?case by simp
next
  case (Cons x xs)
  then have "inv (snd (step x s))" "run_ok ok step xs (snd (step x s))" by (simp_all add: step_inv)
  from Cons.IH [OF this] show ?case by simp
qed

lemma run_below: "inv s \<Longrightarrow> run_ok ok step xs s \<Longrightarrow> below s (snd (run_ops step xs s))"
proof (induction xs arbitrary: s)
  case Nil
  then show ?case by (simp add: below_refl)
next
  case (Cons x xs)
  then have x: "ok x s" "run_ok ok step xs (snd (step x s))" by simp_all
  have "below (snd (step x s)) (snd (run_ops step xs (snd (step x s))))"
    by (rule Cons.IH [OF step_inv [OF Cons.prems(1) x(1)] x(2)])
  with step_below [OF Cons.prems(1) x(1)] have "below s (snd (run_ops step xs (snd (step x s))))"
    by (rule below_trans)
  then show ?case by simp
qed

end

sublocale stateful_object \<subseteq> unguarded: guarded_object step "\<lambda>x s. True" inv below
  by unfold_locales (blast intro: step_inv step_below below_refl below_trans)+

end
