(* ===== verification/Trace_Model.thy ===== *)
theory Trace_Model
  imports Bull_Prelude
begin

text \<open>
  The executable transition model of \<^verbatim>\<open>src/bulldog/trace_model.py\<close> and its online verifier
  \<^verbatim>\<open>src/bulldog/trace_runtime.py\<close>.

  \<open>bull_trace_state\<close> is the frozen dataclass, \<open>validate_invariants\<close> its checks in source
  order, one definition per branch of \<open>apply_transition\<close>, and \<open>verify_trace\<close> the offline
  replay. \<open>trace_verifier\<close> with \<open>emit\<close>, \<open>snapshot\<close> and \<open>reset\<close> is the online object.

  The lemmas show that accepted traces keep the safety invariant, that acceptance spends a
  budget of at most eight steps, that the guards alone imply every runtime check except the
  sandbox attributes of an \<open>Execute\<close> event, and that the interpreter implements a step
  relation with one rule per transition.
\<close>

section \<open>State and events\<close>

text \<open>The values an event's data dictionary carries; the code reads \<open>str(...)\<close> of one entry
  and \<open>bool(...)\<close> of two.\<close>

datatype ev_value = EvStr string | EvBool bool | EvInt int | EvNone

fun ev_truthy :: "ev_value \<Rightarrow> bool" where
  "ev_truthy (EvStr s) = (s \<noteq> [])"
| "ev_truthy (EvBool b) = b"
| "ev_truthy (EvInt i) = (i \<noteq> 0)"
| "ev_truthy EvNone = False"

fun ev_str :: "ev_value \<Rightarrow> string" where
  "ev_str (EvStr s) = s"
| "ev_str (EvBool b) = (if b then ''True'' else ''False'')"
| "ev_str (EvInt i) = int_str i"
| "ev_str EvNone = ''None''"

record bull_trace_state =
  phase :: string
  decision :: string
  scanned :: bool
  malware_clean :: bool
  executed :: bool
  sandboxed :: bool
  seccomp :: bool
  review_required :: bool
  parent_has_capability :: bool
  child_has_capability :: bool
  secret_granted :: bool
  secret_returned :: bool
  broker_granted :: bool
  egress_occurred :: bool
  direct_network :: bool

definition initial_trace_state :: bull_trace_state where
  "initial_trace_state = \<lparr>phase = ''start'', decision = ''PENDING'', scanned = False,
     malware_clean = False, executed = False, sandboxed = False, seccomp = False,
     review_required = False, parent_has_capability = False, child_has_capability = False,
     secret_granted = False, secret_returned = False, broker_granted = False,
     egress_occurred = False, direct_network = False\<rparr>"

record trace_event =
  transition :: string
  ev_data :: "ev_value dict"

definition DECISIONS :: "string list" where
  "DECISIONS = [''PENDING'', ''ALLOW'', ''SANDBOX'', ''ESCALATE'', ''DENY'']"

definition PHASES :: "string list" where
  "PHASES = [''start'', ''evaluated'', ''scanned'', ''blocked'', ''review'', ''executed'']"

definition EXECUTABLE_DECISIONS :: "string list" where
  "EXECUTABLE_DECISIONS = [''ALLOW'', ''SANDBOX'']"

definition TRANSITIONS :: "string list" where
  "TRANSITIONS = [''Evaluate'', ''ScanClean'', ''ScanMalware'', ''BlockMalware'', ''Execute'',
     ''ResolveDeny'', ''ResolveEscalate'', ''GrantChildCapability'', ''GrantSecret'',
     ''ReturnSecret'', ''GrantBroker'', ''BrokerEgress'']"

lemmas trace_tables = DECISIONS_def PHASES_def EXECUTABLE_DECISIONS_def TRANSITIONS_def

section \<open>Invariant validation\<close>

definition validate_invariants :: "bull_trace_state \<Rightarrow> unit res" where
  "validate_invariants s =
     (if phase s \<notin> set PHASES then raise TraceViolation (''invalid phase: '' @ phase s)
      else if decision s \<notin> set DECISIONS
        then raise TraceViolation (''invalid decision: '' @ decision s)
      else if decision s = ''DENY'' \<and> executed s then raise TraceViolation ''DENY state executed''
      else if decision s = ''ESCALATE'' \<and> executed s
        then raise TraceViolation ''ESCALATE state executed''
      else if executed s \<and> decision s \<notin> set EXECUTABLE_DECISIONS
        then raise TraceViolation ''execution occurred without ALLOW/SANDBOX''
      else if executed s \<and> \<not> (scanned s \<and> malware_clean s)
        then raise TraceViolation ''execution occurred without clean malware scan''
      else if executed s \<and> \<not> sandboxed s
        then raise TraceViolation ''executed workload was not sandboxed''
      else if executed s \<and> \<not> seccomp s
        then raise TraceViolation ''executed workload lacked seccomp''
      else if scanned s \<and> \<not> malware_clean s \<and> executed s
        then raise TraceViolation ''malware-detected workload executed''
      else if child_has_capability s \<and> \<not> parent_has_capability s
        then raise TraceViolation ''child authority exceeded parent authority''
      else if secret_returned s \<and> \<not> secret_granted s
        then raise TraceViolation ''secret returned without grant''
      else if egress_occurred s \<and> \<not> broker_granted s
        then raise TraceViolation ''egress occurred without broker grant''
      else if direct_network s then raise TraceViolation ''direct network became enabled''
      else if phase s = ''review'' \<and> \<not> (decision s = ''ESCALATE'' \<and> review_required s)
        then raise TraceViolation ''review phase does not correspond to ESCALATE''
      else Inr ())"

section \<open>Transitions\<close>

definition t_Evaluate :: "bull_trace_state \<Rightarrow> ev_value dict \<Rightarrow> bull_trace_state res" where
  "t_Evaluate s d =
     (if phase s \<noteq> ''start'' then raise TraceViolation ''Evaluate requires start phase''
      else let dec = (case dict_get d ''decision'' of None \<Rightarrow> '''' | Some v \<Rightarrow> ev_str v)
        in if dec \<notin> set [''ALLOW'', ''SANDBOX'', ''ESCALATE'', ''DENY'']
           then raise TraceViolation (''invalid Evaluate decision: '' @ dec)
           else Inr (s\<lparr>phase := ''evaluated'', decision := dec\<rparr>))"

definition t_ScanClean :: "bull_trace_state \<Rightarrow> bull_trace_state res" where
  "t_ScanClean s =
     (if \<not> (phase s = ''evaluated'' \<and> decision s \<in> set EXECUTABLE_DECISIONS)
      then raise TraceViolation ''ScanClean illegal from current state''
      else Inr (s\<lparr>phase := ''scanned'', scanned := True, malware_clean := True\<rparr>))"

definition t_ScanMalware :: "bull_trace_state \<Rightarrow> bull_trace_state res" where
  "t_ScanMalware s =
     (if \<not> (phase s = ''evaluated'' \<and> decision s \<in> set EXECUTABLE_DECISIONS)
      then raise TraceViolation ''ScanMalware illegal from current state''
      else Inr (s\<lparr>phase := ''scanned'', scanned := True, malware_clean := False\<rparr>))"

definition t_BlockMalware :: "bull_trace_state \<Rightarrow> bull_trace_state res" where
  "t_BlockMalware s =
     (if \<not> (phase s = ''scanned'' \<and> scanned s \<and> \<not> malware_clean s)
      then raise TraceViolation ''BlockMalware illegal from current state''
      else Inr (s\<lparr>phase := ''blocked''\<rparr>))"

definition data_flag :: "ev_value dict \<Rightarrow> string \<Rightarrow> bool" where
  "data_flag d k = (case dict_get d k of None \<Rightarrow> False | Some v \<Rightarrow> ev_truthy v)"

definition t_Execute :: "bull_trace_state \<Rightarrow> ev_value dict \<Rightarrow> bull_trace_state res" where
  "t_Execute s d =
     (if \<not> (phase s = ''scanned'' \<and> decision s \<in> set EXECUTABLE_DECISIONS \<and> scanned s
            \<and> malware_clean s \<and> \<not> executed s)
      then raise TraceViolation ''Execute illegal from current state''
      else Inr (s\<lparr>phase := ''executed'', executed := True,
             sandboxed := data_flag d ''sandboxed'', seccomp := data_flag d ''seccomp''\<rparr>))"

definition t_ResolveDeny :: "bull_trace_state \<Rightarrow> bull_trace_state res" where
  "t_ResolveDeny s =
     (if \<not> (phase s = ''evaluated'' \<and> decision s = ''DENY'')
      then raise TraceViolation ''ResolveDeny illegal from current state''
      else Inr (s\<lparr>phase := ''blocked''\<rparr>))"

definition t_ResolveEscalate :: "bull_trace_state \<Rightarrow> bull_trace_state res" where
  "t_ResolveEscalate s =
     (if \<not> (phase s = ''evaluated'' \<and> decision s = ''ESCALATE'')
      then raise TraceViolation ''ResolveEscalate illegal from current state''
      else Inr (s\<lparr>phase := ''review'', review_required := True\<rparr>))"

definition t_GrantChildCapability :: "bull_trace_state \<Rightarrow> bull_trace_state res" where
  "t_GrantChildCapability s =
     (if \<not> (parent_has_capability s \<and> \<not> child_has_capability s)
      then raise TraceViolation ''child capability grant exceeds parent authority''
      else Inr (s\<lparr>child_has_capability := True\<rparr>))"

definition t_GrantSecret :: "bull_trace_state \<Rightarrow> bull_trace_state res" where
  "t_GrantSecret s =
     (if secret_granted s then raise TraceViolation ''secret grant already exists''
      else Inr (s\<lparr>secret_granted := True\<rparr>))"

definition t_ReturnSecret :: "bull_trace_state \<Rightarrow> bull_trace_state res" where
  "t_ReturnSecret s =
     (if \<not> (secret_granted s \<and> \<not> secret_returned s)
      then raise TraceViolation ''ReturnSecret requires active grant''
      else Inr (s\<lparr>secret_returned := True\<rparr>))"

definition t_GrantBroker :: "bull_trace_state \<Rightarrow> bull_trace_state res" where
  "t_GrantBroker s =
     (if broker_granted s then raise TraceViolation ''broker grant already exists''
      else Inr (s\<lparr>broker_granted := True\<rparr>))"

definition t_BrokerEgress :: "bull_trace_state \<Rightarrow> bull_trace_state res" where
  "t_BrokerEgress s =
     (if \<not> (broker_granted s \<and> \<not> egress_occurred s)
      then raise TraceViolation ''BrokerEgress requires broker grant''
      else Inr (s\<lparr>egress_occurred := True\<rparr>))"

lemmas transition_defs [bull_defs] = t_Evaluate_def t_ScanClean_def t_ScanMalware_def
  t_BlockMalware_def t_Execute_def t_ResolveDeny_def t_ResolveEscalate_def
  t_GrantChildCapability_def t_GrantSecret_def t_ReturnSecret_def t_GrantBroker_def
  t_BrokerEgress_def

text \<open>The guards and the update of one event, before the final validation.\<close>

definition guarded_update :: "bull_trace_state \<Rightarrow> trace_event \<Rightarrow> bull_trace_state res" where
  "guarded_update s ev =
     (let name = transition ev; d = ev_data ev in
      if name \<notin> set TRANSITIONS then raise TraceViolation (''unknown transition: '' @ name)
      else if name = ''Evaluate'' then t_Evaluate s d
      else if name = ''ScanClean'' then t_ScanClean s
      else if name = ''ScanMalware'' then t_ScanMalware s
      else if name = ''BlockMalware'' then t_BlockMalware s
      else if name = ''Execute'' then t_Execute s d
      else if name = ''ResolveDeny'' then t_ResolveDeny s
      else if name = ''ResolveEscalate'' then t_ResolveEscalate s
      else if name = ''GrantChildCapability'' then t_GrantChildCapability s
      else if name = ''GrantSecret'' then t_GrantSecret s
      else if name = ''ReturnSecret'' then t_ReturnSecret s
      else if name = ''GrantBroker'' then t_GrantBroker s
      else t_BrokerEgress s)"

definition apply_transition :: "bull_trace_state \<Rightarrow> trace_event \<Rightarrow> bull_trace_state res" where
  "apply_transition s ev =
     (case guarded_update s ev of
        Inl e \<Rightarrow> Inl e
      | Inr t \<Rightarrow> (case validate_invariants t of Inl e \<Rightarrow> Inl e | Inr _ \<Rightarrow> Inr t))"

fun verify_events :: "nat \<Rightarrow> bull_trace_state \<Rightarrow> trace_event list \<Rightarrow> bull_trace_state res" where
  "verify_events i s [] = Inr s"
| "verify_events i s (ev # evs) =
     (case apply_transition s ev of
        Inl e \<Rightarrow> raise TraceViolation (''trace event '' @ nat_str i @ '' ('' @ transition ev
            @ '') violated model: '' @ snd e)
      | Inr t \<Rightarrow> verify_events (Suc i) t evs)"

definition verify_trace :: "bull_trace_state \<Rightarrow> trace_event list \<Rightarrow> bull_trace_state res" where
  "verify_trace s evs =
     (case validate_invariants s of Inl e \<Rightarrow> Inl e | Inr _ \<Rightarrow> verify_events 0 s evs)"

section \<open>The online verifier\<close>

record trace_verifier =
  tv_state :: bull_trace_state
  tv_events :: "trace_event list"

definition new_verifier :: trace_verifier where
  "new_verifier = \<lparr>tv_state = initial_trace_state, tv_events = []\<rparr>"

definition emit :: "trace_event \<Rightarrow> trace_verifier \<Rightarrow> bull_trace_state res \<times> trace_verifier" where
  "emit ev v =
     (case apply_transition (tv_state v) ev of
        Inl e \<Rightarrow> (Inl e, v)
      | Inr t \<Rightarrow> (Inr t, v\<lparr>tv_events := tv_events v @ [ev], tv_state := t\<rparr>))"

definition snapshot :: "trace_verifier \<Rightarrow> bull_trace_state" where
  "snapshot v = tv_state v"

definition reset :: "bool \<Rightarrow> trace_verifier \<Rightarrow> trace_verifier" where
  "reset parent_has v =
     v\<lparr>tv_state := initial_trace_state\<lparr>parent_has_capability := parent_has\<rparr>, tv_events := []\<rparr>"

section \<open>The safety invariant\<close>

lemma validate_invariants_iff:
  "validate_invariants s = Inr () \<longleftrightarrow>
     phase s \<in> set PHASES \<and> decision s \<in> set DECISIONS
     \<and> (executed s \<longrightarrow> decision s \<in> set EXECUTABLE_DECISIONS \<and> scanned s \<and> malware_clean s
          \<and> sandboxed s \<and> seccomp s)
     \<and> (child_has_capability s \<longrightarrow> parent_has_capability s)
     \<and> (secret_returned s \<longrightarrow> secret_granted s)
     \<and> (egress_occurred s \<longrightarrow> broker_granted s)
     \<and> \<not> direct_network s
     \<and> (phase s = ''review'' \<longrightarrow> decision s = ''ESCALATE'' \<and> review_required s)"
  by (auto simp: validate_invariants_def EXECUTABLE_DECISIONS_def)

lemma validate_unit: "validate_invariants s = Inr u \<longleftrightarrow> validate_invariants s = Inr ()"
  by simp

lemma apply_transition_Inr:
  "apply_transition s ev = Inr t \<longleftrightarrow> guarded_update s ev = Inr t \<and> validate_invariants t = Inr ()"
  by (auto simp: apply_transition_def split: sum.splits)

text \<open>What the guards keep true between the phase and the other fields.\<close>

definition phase_consistent :: "bull_trace_state \<Rightarrow> bool" where
  "phase_consistent s \<longleftrightarrow>
     (phase s = ''start'' \<longrightarrow> decision s = ''PENDING'')
     \<and> (phase s \<in> {''start'', ''evaluated''} \<longrightarrow> \<not> scanned s)
     \<and> (phase s = ''scanned'' \<longrightarrow> scanned s \<and> decision s \<in> set EXECUTABLE_DECISIONS)
     \<and> (phase s = ''blocked'' \<longrightarrow> decision s = ''DENY'' \<or> scanned s \<and> \<not> malware_clean s)
     \<and> (executed s \<longleftrightarrow> phase s = ''executed'')"

definition trace_inv :: "bull_trace_state \<Rightarrow> bool" where
  "trace_inv s \<longleftrightarrow> validate_invariants s = Inr () \<and> phase_consistent s"

lemma trace_inv_initial: "trace_inv (initial_trace_state\<lparr>parent_has_capability := b\<rparr>)"
  by (simp add: trace_inv_def validate_invariants_iff phase_consistent_def initial_trace_state_def
      trace_tables)

lemma trace_inv_initial' [simp]: "trace_inv initial_trace_state"
  by (simp add: trace_inv_def validate_invariants_iff phase_consistent_def initial_trace_state_def
      trace_tables)

text \<open>Inversion of one accepted event: the transition that was taken.\<close>

lemma guarded_update_cases:
  assumes "guarded_update s ev = Inr t"
  obtains
    (Evaluate) d where "transition ev = ''Evaluate''" "phase s = ''start''"
      "d \<in> {''ALLOW'', ''SANDBOX'', ''ESCALATE'', ''DENY''}"
      "t = s\<lparr>phase := ''evaluated'', decision := d\<rparr>"
  | (ScanClean) "transition ev = ''ScanClean''" "phase s = ''evaluated''"
      "decision s \<in> set EXECUTABLE_DECISIONS"
      "t = s\<lparr>phase := ''scanned'', scanned := True, malware_clean := True\<rparr>"
  | (ScanMalware) "transition ev = ''ScanMalware''" "phase s = ''evaluated''"
      "decision s \<in> set EXECUTABLE_DECISIONS"
      "t = s\<lparr>phase := ''scanned'', scanned := True, malware_clean := False\<rparr>"
  | (BlockMalware) "transition ev = ''BlockMalware''" "phase s = ''scanned''" "scanned s"
      "\<not> malware_clean s" "t = s\<lparr>phase := ''blocked''\<rparr>"
  | (Execute) "transition ev = ''Execute''" "phase s = ''scanned''"
      "decision s \<in> set EXECUTABLE_DECISIONS" "scanned s" "malware_clean s" "\<not> executed s"
      "t = s\<lparr>phase := ''executed'', executed := True,
         sandboxed := data_flag (ev_data ev) ''sandboxed'',
         seccomp := data_flag (ev_data ev) ''seccomp''\<rparr>"
  | (ResolveDeny) "transition ev = ''ResolveDeny''" "phase s = ''evaluated''"
      "decision s = ''DENY''" "t = s\<lparr>phase := ''blocked''\<rparr>"
  | (ResolveEscalate) "transition ev = ''ResolveEscalate''" "phase s = ''evaluated''"
      "decision s = ''ESCALATE''" "t = s\<lparr>phase := ''review'', review_required := True\<rparr>"
  | (GrantChild) "transition ev = ''GrantChildCapability''" "parent_has_capability s"
      "\<not> child_has_capability s" "t = s\<lparr>child_has_capability := True\<rparr>"
  | (GrantSecret) "transition ev = ''GrantSecret''" "\<not> secret_granted s"
      "t = s\<lparr>secret_granted := True\<rparr>"
  | (ReturnSecret) "transition ev = ''ReturnSecret''" "secret_granted s" "\<not> secret_returned s"
      "t = s\<lparr>secret_returned := True\<rparr>"
  | (GrantBroker) "transition ev = ''GrantBroker''" "\<not> broker_granted s"
      "t = s\<lparr>broker_granted := True\<rparr>"
  | (BrokerEgress) "transition ev = ''BrokerEgress''" "broker_granted s" "\<not> egress_occurred s"
      "t = s\<lparr>egress_occurred := True\<rparr>"
proof -
  have "transition ev \<in> set TRANSITIONS"
    using assms by (simp add: guarded_update_def Let_def split: if_splits)
  then consider (1) "transition ev = ''Evaluate''"
    | (2) "transition ev = ''ScanClean''"
    | (3) "transition ev = ''ScanMalware''"
    | (4) "transition ev = ''BlockMalware''"
    | (5) "transition ev = ''Execute''"
    | (6) "transition ev = ''ResolveDeny''"
    | (7) "transition ev = ''ResolveEscalate''"
    | (8) "transition ev = ''GrantChildCapability''"
    | (9) "transition ev = ''GrantSecret''"
    | (10) "transition ev = ''ReturnSecret''"
    | (11) "transition ev = ''GrantBroker''"
    | (12) "transition ev = ''BrokerEgress''"
    by (auto simp: TRANSITIONS_def)
  then show thesis
  proof cases
    case 1
    with assms have "t_Evaluate s (ev_data ev) = Inr t" by (simp add: guarded_update_def TRANSITIONS_def)
    then show thesis using that(1) 1 by (auto simp: t_Evaluate_def Let_def split: if_splits)
  next
    case 2
    with assms have "t_ScanClean s = Inr t" by (simp add: guarded_update_def TRANSITIONS_def)
    then show thesis using that(2) 2 by (auto simp: t_ScanClean_def Let_def split: if_splits)
  next
    case 3
    with assms have "t_ScanMalware s = Inr t" by (simp add: guarded_update_def TRANSITIONS_def)
    then show thesis using that(3) 3 by (auto simp: t_ScanMalware_def Let_def split: if_splits)
  next
    case 4
    with assms have "t_BlockMalware s = Inr t" by (simp add: guarded_update_def TRANSITIONS_def)
    then show thesis using that(4) 4 by (auto simp: t_BlockMalware_def Let_def split: if_splits)
  next
    case 5
    with assms have "t_Execute s (ev_data ev) = Inr t" by (simp add: guarded_update_def TRANSITIONS_def)
    then show thesis using that(5) 5 by (auto simp: t_Execute_def Let_def split: if_splits)
  next
    case 6
    with assms have "t_ResolveDeny s = Inr t" by (simp add: guarded_update_def TRANSITIONS_def)
    then show thesis using that(6) 6 by (auto simp: t_ResolveDeny_def Let_def split: if_splits)
  next
    case 7
    with assms have "t_ResolveEscalate s = Inr t" by (simp add: guarded_update_def TRANSITIONS_def)
    then show thesis using that(7) 7 by (auto simp: t_ResolveEscalate_def Let_def split: if_splits)
  next
    case 8
    with assms have "t_GrantChildCapability s = Inr t" by (simp add: guarded_update_def TRANSITIONS_def)
    then show thesis using that(8) 8 by (auto simp: t_GrantChildCapability_def Let_def split: if_splits)
  next
    case 9
    with assms have "t_GrantSecret s = Inr t" by (simp add: guarded_update_def TRANSITIONS_def)
    then show thesis using that(9) 9 by (auto simp: t_GrantSecret_def Let_def split: if_splits)
  next
    case 10
    with assms have "t_ReturnSecret s = Inr t" by (simp add: guarded_update_def TRANSITIONS_def)
    then show thesis using that(10) 10 by (auto simp: t_ReturnSecret_def Let_def split: if_splits)
  next
    case 11
    with assms have "t_GrantBroker s = Inr t" by (simp add: guarded_update_def TRANSITIONS_def)
    then show thesis using that(11) 11 by (auto simp: t_GrantBroker_def Let_def split: if_splits)
  next
    case 12
    with assms have "t_BrokerEgress s = Inr t" by (simp add: guarded_update_def TRANSITIONS_def)
    then show thesis using that(12) 12 by (auto simp: t_BrokerEgress_def Let_def split: if_splits)
  qed
qed

lemma guarded_update_phase_consistent:
  assumes "guarded_update s ev = Inr t" and "phase_consistent s"
  shows "phase_consistent t"
  using assms(1)
  by (cases rule: guarded_update_cases)
    (use assms(2) in \<open>auto simp: phase_consistent_def EXECUTABLE_DECISIONS_def\<close>)

text \<open>Each accepted event spends one unit of this budget: the phases only move forward and
  every grant flag is set once.\<close>

definition trace_rank :: "bull_trace_state \<Rightarrow> nat" where
  "trace_rank s =
     (if phase s = ''start'' then 3 else if phase s = ''evaluated'' then 2
      else if phase s = ''scanned'' then 1 else 0)
     + (if child_has_capability s then 0 else 1) + (if secret_granted s then 0 else 1)
     + (if secret_returned s then 0 else 1) + (if broker_granted s then 0 else 1)
     + (if egress_occurred s then 0 else 1)"

lemma guarded_update_rank: "guarded_update s ev = Inr t \<Longrightarrow> trace_rank t < trace_rank s"
  by (erule guarded_update_cases) (simp_all add: trace_rank_def)

interpretation trace: bounded_machine apply_transition trace_inv trace_rank
proof unfold_locales
  fix s ev t
  assume "trace_inv s" "apply_transition s ev = Inr t"
  then show "trace_inv t"
    by (auto simp: trace_inv_def apply_transition_Inr intro: guarded_update_phase_consistent)
next
  fix s ev t
  assume "apply_transition s ev = Inr t"
  then show "trace_rank t < trace_rank s"
    by (auto simp: apply_transition_Inr intro: guarded_update_rank)
qed

lemma verify_events_Inr: "verify_events i s evs = Inr t \<longleftrightarrow> run_steps apply_transition s evs = Inr t"
  by (induction evs arbitrary: i s) (auto split: sum.splits)

lemma verify_trace_Inr:
  "verify_trace s evs = Inr t \<longleftrightarrow>
     validate_invariants s = Inr () \<and> run_steps apply_transition s evs = Inr t"
  by (auto simp: verify_trace_def verify_events_Inr split: sum.splits)

section \<open>What an accepted run has gone through\<close>

lemma subseq_snoc: "subseq xs ys \<Longrightarrow> subseq (xs @ [x]) (ys @ [x])"
  by (rule list_emb_append_mono) simp_all

lemma subseq_extend: "subseq xs ys \<Longrightarrow> subseq xs (ys @ zs)"
  by (rule subseq_rev_drop_many)

definition history_of :: "bull_trace_state \<Rightarrow> string list \<Rightarrow> bool" where
  "history_of s names \<longleftrightarrow>
     (phase s \<noteq> ''start'' \<longrightarrow> subseq [''Evaluate''] names)
     \<and> (scanned s \<and> malware_clean s \<longrightarrow> subseq [''Evaluate'', ''ScanClean''] names)
     \<and> (executed s \<longrightarrow> subseq [''Evaluate'', ''ScanClean'', ''Execute''] names)
     \<and> count_list names ''Execute'' = (if executed s then 1 else 0)"

lemma history_of_step:
  assumes "guarded_update s ev = Inr t" and h: "history_of s names" and c: "phase_consistent s"
  shows "history_of t (names @ [transition ev])"
proof -
  let ?E = "''Evaluate''" and ?C = "''ScanClean''" and ?X = "''Execute''"
  have ext: "subseq xs names \<Longrightarrow> subseq xs (names @ [n])" for xs n by (rule subseq_extend)
  have cnt: "count_list (names @ [n]) ?X = count_list names ?X + (if n = ?X then 1 else 0)" for n
    by simp
  show ?thesis
    using assms(1)
  proof (cases rule: guarded_update_cases)
    case (Evaluate d)
    have "subseq [?E] (names @ [?E])" using subseq_snoc [of "[]" names ?E] by simp
    with Evaluate h c show ?thesis
      by (simp add: history_of_def phase_consistent_def)
  next
    case ScanClean
    with h have "subseq [?E] names" by (simp add: history_of_def)
    from subseq_snoc [OF this, of ?C] ext [OF this, of ?C] ScanClean h c show ?thesis
      by (simp add: history_of_def phase_consistent_def)
  next
    case Execute
    with h have hs: "subseq [?E] names" "subseq [?E, ?C] names" by (simp_all add: history_of_def)
    from subseq_snoc [OF hs(2), of ?X] ext [OF hs(1), of ?X] ext [OF hs(2), of ?X] Execute h c
    show ?thesis by (simp add: history_of_def phase_consistent_def)
  qed (use h c ext cnt in \<open>simp_all add: history_of_def phase_consistent_def split: if_splits\<close>)
qed

lemma run_history:
  "run_steps apply_transition (initial_trace_state\<lparr>parent_has_capability := b\<rparr>) evs = Inr s \<Longrightarrow>
   trace_inv s \<and> history_of s (map transition evs)"
proof (induction evs arbitrary: s rule: rev_induct)
  case Nil
  then show ?case
    by (auto simp: trace_inv_initial history_of_def) (simp_all add: initial_trace_state_def)
next
  case (snoc ev evs)
  then obtain u where u: "run_steps apply_transition (initial_trace_state\<lparr>parent_has_capability := b\<rparr>) evs = Inr u"
      and "apply_transition u ev = Inr s"
    by (auto simp: run_steps_append split: sum.splits)
  with snoc.IH [OF u] show ?case
    by (auto simp: apply_transition_Inr trace_inv_def intro: history_of_step guarded_update_phase_consistent)
qed

lemma parent_has_step: "apply_transition s ev = Inr t \<Longrightarrow> parent_has_capability t = parent_has_capability s"
  by (auto simp: apply_transition_Inr elim: guarded_update_cases)

lemma parent_has_run:
  "run_steps apply_transition s evs = Inr t \<Longrightarrow> parent_has_capability t = parent_has_capability s"
  by (induction evs arbitrary: s) (auto simp: parent_has_step split: sum.splits)

text \<open>States from which no continuation executes.\<close>

definition refused :: "bull_trace_state \<Rightarrow> bool" where
  "refused s \<longleftrightarrow> decision s \<in> {''DENY'', ''ESCALATE''} \<or> scanned s \<and> \<not> malware_clean s"

lemma refused_step:
  assumes "trace_inv s" and "refused s" and "apply_transition s ev = Inr t"
  shows "refused t"
proof -
  from assms(3) have "guarded_update s ev = Inr t" by (simp add: apply_transition_Inr)
  then show ?thesis
    by (cases rule: guarded_update_cases)
      (use assms(1,2) in \<open>simp_all add: refused_def trace_inv_def phase_consistent_def
         EXECUTABLE_DECISIONS_def, fastforce?\<close>)
qed

lemma refused_run:
  "trace_inv s \<Longrightarrow> refused s \<Longrightarrow> run_steps apply_transition s evs = Inr t \<Longrightarrow> refused t \<and> trace_inv t"
proof (induction evs arbitrary: s)
  case Nil
  then show ?case by simp
next
  case (Cons ev evs)
  then obtain u where u: "apply_transition s ev = Inr u" "run_steps apply_transition u evs = Inr t"
    by (auto simp: run_steps_Cons_Inr simp del: run_steps.simps(2))
  show ?case
    by (rule Cons.IH [OF _ _ u(2)])
      (use Cons.prems u(1) in \<open>blast intro: trace.step_inv refused_step\<close>)+
qed

section \<open>The specification machine\<close>

text \<open>The next-state relation of \<^verbatim>\<open>formal/tla/BullRuntime.tla\<close>, one rule per action; \<open>Execute\<close>
  always sets the two sandbox attributes there.\<close>

inductive bull_next :: "bull_trace_state \<Rightarrow> bull_trace_state \<Rightarrow> bool" where
  Evaluate: "phase s = ''start'' \<Longrightarrow> d \<in> {''ALLOW'', ''SANDBOX'', ''ESCALATE'', ''DENY''} \<Longrightarrow>
     bull_next s (s\<lparr>phase := ''evaluated'', decision := d\<rparr>)"
| ScanClean: "phase s = ''evaluated'' \<Longrightarrow> decision s \<in> set EXECUTABLE_DECISIONS \<Longrightarrow>
     bull_next s (s\<lparr>phase := ''scanned'', scanned := True, malware_clean := True\<rparr>)"
| ScanMalware: "phase s = ''evaluated'' \<Longrightarrow> decision s \<in> set EXECUTABLE_DECISIONS \<Longrightarrow>
     bull_next s (s\<lparr>phase := ''scanned'', scanned := True, malware_clean := False\<rparr>)"
| BlockMalware: "phase s = ''scanned'' \<Longrightarrow> scanned s \<Longrightarrow> \<not> malware_clean s \<Longrightarrow>
     bull_next s (s\<lparr>phase := ''blocked''\<rparr>)"
| Execute: "phase s = ''scanned'' \<Longrightarrow> decision s \<in> set EXECUTABLE_DECISIONS \<Longrightarrow> scanned s \<Longrightarrow>
     malware_clean s \<Longrightarrow> \<not> executed s \<Longrightarrow>
     bull_next s (s\<lparr>phase := ''executed'', executed := True, sandboxed := True, seccomp := True\<rparr>)"
| ResolveDeny: "phase s = ''evaluated'' \<Longrightarrow> decision s = ''DENY'' \<Longrightarrow>
     bull_next s (s\<lparr>phase := ''blocked''\<rparr>)"
| ResolveEscalate: "phase s = ''evaluated'' \<Longrightarrow> decision s = ''ESCALATE'' \<Longrightarrow>
     bull_next s (s\<lparr>phase := ''review'', review_required := True\<rparr>)"
| GrantChild: "parent_has_capability s \<Longrightarrow> \<not> child_has_capability s \<Longrightarrow>
     bull_next s (s\<lparr>child_has_capability := True\<rparr>)"
| GrantSecret: "\<not> secret_granted s \<Longrightarrow> bull_next s (s\<lparr>secret_granted := True\<rparr>)"
| ReturnSecret: "secret_granted s \<Longrightarrow> \<not> secret_returned s \<Longrightarrow>
     bull_next s (s\<lparr>secret_returned := True\<rparr>)"
| GrantBroker: "\<not> broker_granted s \<Longrightarrow> bull_next s (s\<lparr>broker_granted := True\<rparr>)"
| BrokerEgress: "broker_granted s \<Longrightarrow> \<not> egress_occurred s \<Longrightarrow>
     bull_next s (s\<lparr>egress_occurred := True\<rparr>)"

lemma apply_transition_bull_next:
  assumes "apply_transition s ev = Inr t"
  shows "bull_next s t"
proof -
  from assms have g: "guarded_update s ev = Inr t" and v: "validate_invariants t = Inr ()"
    by (simp_all add: apply_transition_Inr)
  from g show ?thesis
  proof (cases rule: guarded_update_cases)
    case Execute
    with v have "data_flag (ev_data ev) ''sandboxed''" "data_flag (ev_data ev) ''seccomp''"
      by (auto simp: validate_invariants_iff)
    with Execute show ?thesis using bull_next.Execute [of s] by simp
  qed (auto intro: bull_next.intros)
qed

text \<open>The guards already imply the runtime validation, except for the sandbox attributes that
  an \<open>Execute\<close> event reports.\<close>

lemma guards_imply_validation:
  assumes "trace_inv s" and "guarded_update s ev = Inr t"
    and "transition ev = ''Execute'' \<Longrightarrow>
      data_flag (ev_data ev) ''sandboxed'' \<and> data_flag (ev_data ev) ''seccomp''"
  shows "validate_invariants t = Inr ()"
  using assms(2)
  by (cases rule: guarded_update_cases)
    (use assms(1,3) in \<open>auto simp: trace_inv_def validate_invariants_iff phase_consistent_def trace_tables\<close>)

definition event_of :: "string \<Rightarrow> ev_value dict \<Rightarrow> trace_event" where
  "event_of n d = \<lparr>transition = n, ev_data = d\<rparr>"

lemma event_of_simps [simp]: "transition (event_of n d) = n" "ev_data (event_of n d) = d"
  by (simp_all add: event_of_def)

lemma guarded_update_bull_next:
  assumes "bull_next s t"
  shows "\<exists>ev. guarded_update s ev = Inr t \<and> (transition ev = ''Execute'' \<longrightarrow>
     data_flag (ev_data ev) ''sandboxed'' \<and> data_flag (ev_data ev) ''seccomp'')"
  using assms
proof cases
  case (Evaluate d)
  then show ?thesis
    by (intro exI [of _ "event_of ''Evaluate'' [(''decision'', EvStr d)]"])
      (auto simp: guarded_update_def TRANSITIONS_def t_Evaluate_def)
next
  case Execute
  then show ?thesis
    by (intro exI [of _ "event_of ''Execute'' [(''sandboxed'', EvBool True), (''seccomp'', EvBool True)]"])
      (auto simp: guarded_update_def TRANSITIONS_def t_Execute_def data_flag_def)
next
  case ScanClean
  then show ?thesis
    by (intro exI [of _ "event_of ''ScanClean'' []"])
      (auto simp: guarded_update_def TRANSITIONS_def t_ScanClean_def)
next
  case ScanMalware
  then show ?thesis
    by (intro exI [of _ "event_of ''ScanMalware'' []"])
      (auto simp: guarded_update_def TRANSITIONS_def t_ScanMalware_def)
next
  case BlockMalware
  then show ?thesis
    by (intro exI [of _ "event_of ''BlockMalware'' []"])
      (auto simp: guarded_update_def TRANSITIONS_def t_BlockMalware_def)
next
  case ResolveDeny
  then show ?thesis
    by (intro exI [of _ "event_of ''ResolveDeny'' []"])
      (auto simp: guarded_update_def TRANSITIONS_def t_ResolveDeny_def)
next
  case ResolveEscalate
  then show ?thesis
    by (intro exI [of _ "event_of ''ResolveEscalate'' []"])
      (auto simp: guarded_update_def TRANSITIONS_def t_ResolveEscalate_def)
next
  case GrantChild
  then show ?thesis
    by (intro exI [of _ "event_of ''GrantChildCapability'' []"])
      (auto simp: guarded_update_def TRANSITIONS_def t_GrantChildCapability_def)
next
  case GrantSecret
  then show ?thesis
    by (intro exI [of _ "event_of ''GrantSecret'' []"])
      (auto simp: guarded_update_def TRANSITIONS_def t_GrantSecret_def)
next
  case ReturnSecret
  then show ?thesis
    by (intro exI [of _ "event_of ''ReturnSecret'' []"])
      (auto simp: guarded_update_def TRANSITIONS_def t_ReturnSecret_def)
next
  case GrantBroker
  then show ?thesis
    by (intro exI [of _ "event_of ''GrantBroker'' []"])
      (auto simp: guarded_update_def TRANSITIONS_def t_GrantBroker_def)
next
  case BrokerEgress
  then show ?thesis
    by (intro exI [of _ "event_of ''BrokerEgress'' []"])
      (auto simp: guarded_update_def TRANSITIONS_def t_BrokerEgress_def)
qed

section \<open>Properties\<close>

definition clean_run :: "trace_event list" where
  "clean_run = [event_of ''Evaluate'' [(''decision'', EvStr ''SANDBOX'')], event_of ''GrantSecret'' [],
     event_of ''ScanClean'' [],
     event_of ''Execute'' [(''sandboxed'', EvBool True), (''seccomp'', EvBool True)]]"

text \<open>C6. Whatever trace the verifier accepts from a fresh state: if its final state counts as
  executed, then the decision was \<open>ALLOW\<close> or \<open>SANDBOX\<close>, the workload was scanned clean,
  sandboxed and seccomp-protected, the events \<open>Evaluate\<close>, \<open>ScanClean\<close>, \<open>Execute\<close> occurred in
  this order, and \<open>Execute\<close> occurred exactly once.\<close>

theorem accepted_execution_is_guarded:
  assumes "verify_trace (initial_trace_state\<lparr>parent_has_capability := b\<rparr>) evs = Inr s"
    and "executed s"
  shows "decision s \<in> {''ALLOW'', ''SANDBOX''} \<and> scanned s \<and> malware_clean s \<and> sandboxed s
    \<and> seccomp s \<and> subseq [''Evaluate'', ''ScanClean'', ''Execute''] (map transition evs)
    \<and> count_list (map transition evs) ''Execute'' = 1"
proof -
  from assms(1) have "trace_inv s \<and> history_of s (map transition evs)"
    by (metis verify_trace_Inr run_history)
  with assms(2) show ?thesis
    by (auto simp: trace_inv_def validate_invariants_iff history_of_def EXECUTABLE_DECISIONS_def)
qed

theorem accepted_execution_is_guarded_witness:
  "\<exists>s. verify_trace (initial_trace_state\<lparr>parent_has_capability := False\<rparr>) clean_run = Inr s
     \<and> executed s \<and> scanned s \<and> subseq [''Evaluate'', ''ScanClean'', ''Execute''] (map transition clean_run)"
proof -
  have "result_sat (verify_trace (initial_trace_state\<lparr>parent_has_capability := False\<rparr>) clean_run) executed"
    by code_simp
  then obtain s where "verify_trace (initial_trace_state\<lparr>parent_has_capability := False\<rparr>) clean_run = Inr s"
      and "executed s"
    by (rule result_satE)
  with accepted_execution_is_guarded [OF this] show ?thesis by blast
qed

text \<open>Acceptance is bounded: no trace longer than seven events is accepted from a fresh
  state, eight when the parent holds the capability (every phase is left once and every grant is
  recorded once). A verifier object that is never reset therefore stops accepting.\<close>

theorem accepted_trace_length:
  assumes "verify_trace (initial_trace_state\<lparr>parent_has_capability := b\<rparr>) evs = Inr s"
  shows "length evs \<le> (if b then 8 else 7)"
proof -
  from assms have r: "run_steps apply_transition (initial_trace_state\<lparr>parent_has_capability := b\<rparr>) evs = Inr s"
    by (simp add: verify_trace_Inr)
  have "length evs + trace_rank s \<le> 8"
    using trace.run_length [OF trace_inv_initial r] by (simp add: trace_rank_def initial_trace_state_def)
  moreover have "parent_has_capability s = b" using parent_has_run [OF r] by simp
  moreover have "trace_inv s" using run_history [OF r] by simp
  ultimately show ?thesis
    by (auto simp: trace_inv_def validate_invariants_iff trace_rank_def split: if_splits)
qed

theorem accepted_trace_length_witness:
  "\<exists>s. verify_trace (initial_trace_state\<lparr>parent_has_capability := False\<rparr>) clean_run = Inr s
     \<and> length clean_run \<le> 7"
proof -
  have "result_sat (verify_trace (initial_trace_state\<lparr>parent_has_capability := False\<rparr>) clean_run) executed"
    by code_simp
  then obtain s where "verify_trace (initial_trace_state\<lparr>parent_has_capability := False\<rparr>) clean_run = Inr s"
    by (rule result_satE)
  with accepted_trace_length [OF this] show ?thesis by auto
qed

text \<open>C12. The interpreter implements the specification machine of \<^verbatim>\<open>formal/tla/BullRuntime.tla\<close>:
  in every state that satisfies the trace invariant, some event leads from \<open>s\<close> to \<open>t\<close> if and only
  if the specification has a step from \<open>s\<close> to \<open>t\<close>. In particular no legal step is rejected by the
  final validation.\<close>

theorem apply_transition_implements_spec:
  assumes "trace_inv s"
  shows "(\<exists>ev. apply_transition s ev = Inr t) \<longleftrightarrow> bull_next s t"
proof
  assume "\<exists>ev. apply_transition s ev = Inr t"
  then show "bull_next s t" by (blast intro: apply_transition_bull_next)
next
  assume "bull_next s t"
  then obtain ev where ev: "guarded_update s ev = Inr t" "transition ev = ''Execute'' \<Longrightarrow>
      data_flag (ev_data ev) ''sandboxed'' \<and> data_flag (ev_data ev) ''seccomp''"
    using guarded_update_bull_next by blast
  then have "validate_invariants t = Inr ()" by (rule guards_imply_validation [OF assms])
  with ev(1) show "\<exists>ev. apply_transition s ev = Inr t" by (auto simp: apply_transition_Inr)
qed

theorem apply_transition_implements_spec_witness:
  "trace_inv initial_trace_state \<and>
   ((\<exists>ev. apply_transition initial_trace_state ev = Inr (initial_trace_state\<lparr>secret_granted := True\<rparr>))
     \<longleftrightarrow> bull_next initial_trace_state (initial_trace_state\<lparr>secret_granted := True\<rparr>))"
  using apply_transition_implements_spec [OF trace_inv_initial'] by simp

text \<open>A refusal is final: from a state whose decision is \<open>DENY\<close> or \<open>ESCALATE\<close>, or whose scan
  found malware, no accepted continuation executes.\<close>

theorem refusal_is_final:
  assumes "trace_inv s" and "refused s" and "run_steps apply_transition s evs = Inr t"
  shows "\<not> executed t"
  using refused_run [OF assms]
  by (auto simp: refused_def trace_inv_def validate_invariants_iff EXECUTABLE_DECISIONS_def)

definition denied_state :: bull_trace_state where
  "denied_state = initial_trace_state\<lparr>phase := ''evaluated'', decision := ''DENY''\<rparr>"

theorem refusal_is_final_witness:
  "trace_inv denied_state \<and> refused denied_state \<and>
   (\<exists>t. run_steps apply_transition denied_state [event_of ''ResolveDeny'' []] = Inr t \<and> \<not> executed t)"
proof -
  have i: "trace_inv denied_state"
    by (simp add: trace_inv_def validate_invariants_iff phase_consistent_def denied_state_def
        initial_trace_state_def trace_tables)
  have r: "refused denied_state" by (simp add: refused_def denied_state_def)
  have "result_sat (run_steps apply_transition denied_state [event_of ''ResolveDeny'' []]) (\<lambda>_. True)"
    by code_simp
  then obtain t where "run_steps apply_transition denied_state [event_of ''ResolveDeny'' []] = Inr t"
    by (rule result_satE)
  with i r refusal_is_final [OF i r this] show ?thesis by blast
qed

text \<open>The online verifier records exactly the accepted events: its state is always the replay of
  its event list, and a rejected event leaves it unchanged.\<close>

definition replays :: "bool \<Rightarrow> trace_verifier \<Rightarrow> bool" where
  "replays b v \<longleftrightarrow>
     run_steps apply_transition (initial_trace_state\<lparr>parent_has_capability := b\<rparr>) (tv_events v)
       = Inr (tv_state v)"

lemma replays_new [simp]: "replays False new_verifier"
  by (simp add: replays_def new_verifier_def initial_trace_state_def)

lemma replays_reset [simp]: "replays b (reset b v)"
  by (simp add: replays_def reset_def)

lemma replays_trace_inv: "replays b v \<Longrightarrow> trace_inv (tv_state v)"
  unfolding replays_def using run_history by blast

lemma replays_emit:
  assumes "replays b v"
  shows "replays b (snd (emit ev v))"
  using assms by (cases "apply_transition (tv_state v) ev") (simp_all add: emit_def replays_def run_steps_append)

interpretation online: stateful_object emit "replays b" "\<lambda>v w. prefix (tv_events v) (tv_events w)" for b
proof unfold_locales
  fix v :: trace_verifier and ev
  show "prefix (tv_events v) (tv_events (snd (emit ev v)))"
    by (cases "apply_transition (tv_state v) ev") (simp_all add: emit_def)
qed (auto intro: replays_emit)

text \<open>C20. The online verifier (\<open>emit\<close>) and the offline replay (\<open>verify_trace\<close>) agree: after any
  sequence of emitted events, legal or not, replaying the recorded events from a fresh state
  succeeds and ends in the object's current state.\<close>

theorem online_agrees_with_replay:
  "let v = snd (run_ops emit evs (reset b w)) in
   verify_trace (initial_trace_state\<lparr>parent_has_capability := b\<rparr>) (tv_events v) = Inr (snapshot v)"
proof -
  have "replays b (snd (run_ops emit evs (reset b w)))" by (rule online.run_inv) simp
  then show ?thesis
    using trace_inv_initial [of b]
    by (simp add: Let_def verify_trace_Inr trace_inv_def replays_def snapshot_def)
qed

end
