(* ===== verification/Py_Text.thy ===== *)
theory Py_Text
  imports Bull_Prelude Complex_Main
begin

text \<open>
  The string operations of the Python standard library that BULL calls.

  A Python \<open>str\<close> is represented by its UTF-8 encoding, a HOL \<open>string\<close>; encoding to bytes is
  then the identity, and substring, prefix and split by an ASCII separator mean the same on both
  sides because UTF-8 is self-synchronising. \<open>pylib\<close> collects what is data or native code of
  the interpreter: the Unicode tables behind \<open>lower\<close> and NFKC on non-ASCII text, the hash
  functions, the IPv6 literal check, the float printer and \<open>repr\<close> of a JSON value. Nothing is
  assumed about it.
\<close>

text \<open>JSON values as \<open>json.loads\<close> returns them; an object keeps its keys in order.\<close>

datatype json =
    JNull
  | JBool bool
  | JInt int
  | JFloat rat
  | JStr string
  | JArr "json list"
  | JObj "(string \<times> json) list"

record pylib =
  nfkc_table :: "string \<Rightarrow> string"
  lower_table :: "string \<Rightarrow> string"
  sha256_hex :: "string \<Rightarrow> string"
  hmac_hex :: "string \<Rightarrow> string \<Rightarrow> string"
  hmac_raw :: "string \<Rightarrow> string \<Rightarrow> string"
  ip6_literal :: "string \<Rightarrow> bool"
  float_repr :: "rat \<Rightarrow> string"
  json_repr :: "json \<Rightarrow> string"

section \<open>Characters\<close>

abbreviation code :: "char \<Rightarrow> nat" where
  "code c \<equiv> of_char c"

definition is_ascii :: "char \<Rightarrow> bool" where
  "is_ascii c \<longleftrightarrow> code c < 128"

lemma is_ascii_code [code]: "is_ascii c \<longleftrightarrow> \<not> digit7 c"
proof (cases c)
  case (Char b0 b1 b2 b3 b4 b5 b6 b7)
  then show ?thesis
    by (cases b7) (auto simp: is_ascii_def of_char_Char split: if_splits)
qed

definition ascii_text :: "string \<Rightarrow> bool" where
  "ascii_text s \<longleftrightarrow> list_all is_ascii s"

definition lower_char :: "char \<Rightarrow> char" where
  "lower_char c = (if 65 \<le> code c \<and> code c \<le> 90 then char_of (code c + 32) else c)"

definition upper_char :: "char \<Rightarrow> char" where
  "upper_char c = (if 97 \<le> code c \<and> code c \<le> 122 then char_of (code c - 32) else c)"

text \<open>\<open>str.lower\<close> and \<open>unicodedata.normalize("NFKC", _)\<close>: exact on ASCII, table-driven beyond.\<close>

definition py_lower :: "pylib \<Rightarrow> string \<Rightarrow> string" where
  "py_lower L s = (if ascii_text s then map lower_char s else lower_table L s)"

definition py_nfkc :: "pylib \<Rightarrow> string \<Rightarrow> string" where
  "py_nfkc L s = (if ascii_text s then s else nfkc_table L s)"

text \<open>A concrete library for evaluating the model on ASCII inputs.\<close>

definition plain_lib :: pylib where
  "plain_lib = \<lparr>nfkc_table = (\<lambda>s. s), lower_table = map lower_char, sha256_hex = (\<lambda>s. replicate 64 (CHR ''0'')),
     hmac_hex = (\<lambda>k s. replicate 64 (CHR ''1'')), hmac_raw = (\<lambda>k s. replicate 32 (CHR ''2'')),
     ip6_literal = (\<lambda>s. True), float_repr = (\<lambda>q. []), json_repr = (\<lambda>j. [])\<rparr>"

text \<open>\<open>len\<close> counts code points: the bytes that do not continue a sequence.\<close>

definition is_continuation :: "char \<Rightarrow> bool" where
  "is_continuation c \<longleftrightarrow> 128 \<le> code c \<and> code c < 192"

definition py_len :: "string \<Rightarrow> nat" where
  "py_len s = length (filter (\<lambda>c. \<not> is_continuation c) s)"

section \<open>White space\<close>

definition spaces2 :: "string list" where
  "spaces2 = map (map char_of) [[194::nat, 133], [194, 160]]"

definition spaces3 :: "string list" where
  "spaces3 = map (map char_of) ([225::nat, 154, 128] # map (\<lambda>b. [226, 128, b]) [128..<139]
     @ [[226, 128, 168], [226, 128, 169], [226, 128, 175], [226, 129, 159], [227, 128, 128]])"

text \<open>Bytes of the white-space character at the start of the text, or at its end; 0 if none.\<close>

definition space_len :: "string \<Rightarrow> nat" where
  "space_len s = (case s of [] \<Rightarrow> 0 | c # _ \<Rightarrow>
     if is_ascii c then (if 9 \<le> code c \<and> code c \<le> 13 \<or> 28 \<le> code c \<and> code c \<le> 32 then 1 else 0)
     else if take 2 s \<in> set spaces2 then 2 else if take 3 s \<in> set spaces3 then 3 else 0)"

definition rspace_len :: "string \<Rightarrow> nat" where
  "rspace_len s = (if s = [] then 0
     else if is_ascii (last s)
       then (if 9 \<le> code (last s) \<and> code (last s) \<le> 13 \<or> 28 \<le> code (last s) \<and> code (last s) \<le> 32
             then 1 else 0)
     else if drop (length s - 2) s \<in> set spaces2 then 2
     else if drop (length s - 3) s \<in> set spaces3 then 3 else 0)"

function py_lstrip :: "string \<Rightarrow> string" where
  "py_lstrip s = (if space_len s = 0 then s else py_lstrip (drop (space_len s) s))"
  by pat_completeness auto
termination
  by (relation "measure length") (auto simp: space_len_def split: list.splits if_splits)

function py_rstrip :: "string \<Rightarrow> string" where
  "py_rstrip s = (if rspace_len s = 0 then s else py_rstrip (take (length s - rspace_len s) s))"
  by pat_completeness auto
termination
  by (relation "measure length") (auto simp: rspace_len_def split: if_splits)

declare py_lstrip.simps [simp del] py_rstrip.simps [simp del]

definition py_strip :: "string \<Rightarrow> string" where
  "py_strip s = py_rstrip (py_lstrip s)"

definition rstrip_char :: "char \<Rightarrow> string \<Rightarrow> string" where
  "rstrip_char c s = rev (dropWhile (\<lambda>x. x = c) (rev s))"

text \<open>\<open>str.split()\<close>: the maximal runs without white space.\<close>

function py_words :: "string \<Rightarrow> string \<Rightarrow> string list" where
  "py_words acc s =
     (if s = [] then (if acc = [] then [] else [acc])
      else if space_len s > 0
        then (if acc = [] then [] else [acc]) @ py_words [] (drop (space_len s) s)
      else py_words (acc @ [hd s]) (tl s))"
  by pat_completeness auto
termination
  by (relation "measure (\<lambda>(acc, s). length s)") auto

declare py_words.simps [simp del]

section \<open>Searching, splitting, joining\<close>

text \<open>\<open>m in s\<close> for strings.\<close>

fun contains :: "string \<Rightarrow> string \<Rightarrow> bool" where
  "contains m [] = (m = [])"
| "contains m (c # s) = (prefix m (c # s) \<or> contains m s)"

lemma contains_sublist: "contains m s \<longleftrightarrow> sublist m s"
  by (induction s) (auto simp: sublist_Cons_right)

definition contains_any :: "string list \<Rightarrow> string \<Rightarrow> bool" where
  "contains_any ms s \<longleftrightarrow> list_ex (\<lambda>m. contains m s) ms"

lemma contains_any_iff: "contains_any ms s \<longleftrightarrow> (\<exists>m \<in> set ms. sublist m s)"
  by (auto simp: contains_any_def list_ex_iff contains_sublist)

text \<open>\<open>str.split(c)\<close> for a one-character separator.\<close>

fun py_split :: "char \<Rightarrow> string \<Rightarrow> string list" where
  "py_split c [] = [[]]"
| "py_split c (x # s) =
     (if x = c then [] # py_split c s
      else (case py_split c s of [] \<Rightarrow> [[x]] | p # ps \<Rightarrow> (x # p) # ps))"

fun py_join :: "string \<Rightarrow> string list \<Rightarrow> string" where
  "py_join sep [] = []"
| "py_join sep [p] = p"
| "py_join sep (p # q # ps) = p @ sep @ py_join sep (q # ps)"

definition backslash :: char where
  "backslash = char_of (92::nat)"

lemma backslash_code [code]: "backslash = CHR 0x5C"
  unfolding backslash_def by code_simp

definition unbackslash :: "string \<Rightarrow> string" where
  "unbackslash s = map (\<lambda>c. if c = backslash then CHR ''/'' else c) s"

lemma py_split_ne [simp]: "py_split c s \<noteq> []"
  by (induction s) (auto split: list.splits)

lemma py_split_no_sep: "p \<in> set (py_split c s) \<Longrightarrow> c \<notin> set p"
  by (induction s arbitrary: p) (auto split: list.splits if_splits)

lemma py_split_subset: "p \<in> set (py_split c s) \<Longrightarrow> set p \<subseteq> set s"
proof (induction s arbitrary: p)
  case Nil
  then show ?case by simp
next
  case (Cons x s)
  then show ?case
    by (cases "py_split c s") (fastforce split: if_splits)+
qed

lemma py_split_no_occ: "c \<notin> set s \<Longrightarrow> py_split c s = [s]"
  by (induction s) auto

lemma py_split_append_sep: "c \<notin> set p \<Longrightarrow> py_split c (p @ c # s) = p # py_split c s"
  by (induction p) auto

lemma py_join_Cons_head: "py_join sep ((x # p) # ps) = x # py_join sep (p # ps)"
  by (cases ps) simp_all

lemma py_join_split: "py_join [c] (py_split c s) = s"
proof (induction s)
  case Nil
  then show ?case by simp
next
  case (Cons x s)
  then show ?case
    by (cases "py_split c s") (auto simp: py_join_Cons_head split: list.splits elim: py_join.elims)
qed

lemma py_split_join:
  "ps \<noteq> [] \<Longrightarrow> \<forall>p \<in> set ps. c \<notin> set p \<Longrightarrow> py_split c (py_join [c] ps) = ps"
  by (induction "[c]" ps rule: py_join.induct)
    (auto simp: py_split_no_occ py_split_append_sep)

section \<open>Percent-decoding\<close>

definition hexval :: "char \<Rightarrow> nat option" where
  "hexval c =
     (if 48 \<le> code c \<and> code c \<le> 57 then Some (code c - 48)
      else if 65 \<le> code c \<and> code c \<le> 70 then Some (code c - 55)
      else if 97 \<le> code c \<and> code c \<le> 102 then Some (code c - 87)
      else None)"

definition pct :: char where
  "pct = char_of (37::nat)"

lemma pct_code [code]: "pct = CHR 0x25"
  unfolding pct_def by code_simp

text \<open>\<open>unquote_to_bytes\<close>: a percent sign not followed by two hexadecimal digits stays.\<close>

fun pct_decode :: "string \<Rightarrow> string" where
  "pct_decode (p # a # b # s) =
     (if p = pct \<and> hexval a \<noteq> None \<and> hexval b \<noteq> None
      then char_of (16 * the (hexval a) + the (hexval b)) # pct_decode s
      else p # pct_decode (a # b # s))"
| "pct_decode s = s"

text \<open>Decoding UTF-8 with \<open>errors="replace"\<close>: the length of the next maximal subpart and
  whether it is a complete sequence; an ill-formed subpart becomes U+FFFD.\<close>

definition in_range :: "nat \<Rightarrow> nat \<Rightarrow> string \<Rightarrow> nat \<Rightarrow> bool" where
  "in_range lo hi s i \<longleftrightarrow> i < length s \<and> lo \<le> code (s ! i) \<and> code (s ! i) \<le> hi"

definition utf8_step :: "string \<Rightarrow> nat \<times> bool" where
  "utf8_step s =
     (let n = code (hd s);
          lo = (if n = 224 then 160 else if n = 240 then 144 else 128);
          hi = (if n = 237 then 159 else if n = 244 then 143 else 191);
          w = (if n < 128 then 1 else if 194 \<le> n \<and> n \<le> 223 then 2
               else if 224 \<le> n \<and> n \<le> 239 then 3 else if 240 \<le> n \<and> n \<le> 244 then 4 else (0::nat)) in
      if w = 1 then (1, True)
      else if w = 0 \<or> \<not> in_range lo hi s 1 then (1, False)
      else if w = 2 then (2, True)
      else if \<not> in_range 128 191 s 2 then (2, False)
      else if w = 3 then (3, True)
      else if \<not> in_range 128 191 s 3 then (3, False)
      else (4, True))"

definition replacement_char :: string where
  "replacement_char = map char_of [239::nat, 191, 189]"

lemma utf8_step_pos: "0 < fst (utf8_step s)"
  by (simp add: utf8_step_def Let_def)

function utf8_replace :: "string \<Rightarrow> string" where
  "utf8_replace s =
     (if s = [] then []
      else (if snd (utf8_step s) then take (fst (utf8_step s)) s else replacement_char)
           @ utf8_replace (drop (fst (utf8_step s)) s))"
  by pat_completeness auto
termination
  by (relation "measure length") (auto simp: utf8_step_pos)

declare utf8_replace.simps [simp del]

text \<open>\<open>urllib.parse.unquote\<close>: the ASCII runs are decoded, the rest is kept.\<close>

function unquote_runs :: "string \<Rightarrow> string" where
  "unquote_runs s =
     (if s = [] then []
      else if is_ascii (hd s)
        then utf8_replace (pct_decode (takeWhile is_ascii s)) @ unquote_runs (dropWhile is_ascii s)
      else takeWhile (\<lambda>c. \<not> is_ascii c) s @ unquote_runs (dropWhile (\<lambda>c. \<not> is_ascii c) s))"
  by pat_completeness auto
termination
proof (relation "measure length", goal_cases)
  case (2 s)
  then show ?case using length_dropWhile_le [of is_ascii "tl s"] by (cases s) auto
next
  case (3 s)
  then show ?case using length_dropWhile_le [of "\<lambda>c. \<not> is_ascii c" "tl s"] by (cases s) auto
qed simp

declare unquote_runs.simps [simp del]

definition unquote :: "string \<Rightarrow> string" where
  "unquote s = (if pct \<in> set s then unquote_runs s else s)"

section \<open>POSIX paths\<close>

text \<open>\<open>posixpath.normpath\<close>.\<close>

fun norm_comps :: "bool \<Rightarrow> string list \<Rightarrow> string list \<Rightarrow> string list" where
  "norm_comps rooted acc [] = acc"
| "norm_comps rooted acc (x # xs) =
     (if x = [] \<or> x = ''.'' then norm_comps rooted acc xs
      else if x \<noteq> ''..'' \<or> (\<not> rooted \<and> acc = []) \<or> (acc \<noteq> [] \<and> last acc = ''..'')
        then norm_comps rooted (acc @ [x]) xs
      else norm_comps rooted (butlast acc) xs)"

definition initial_slashes :: "string \<Rightarrow> nat" where
  "initial_slashes s =
     (if prefix ''//'' s \<and> \<not> prefix ''///'' s then 2 else if prefix ''/'' s then 1 else 0)"

definition normpath :: "string \<Rightarrow> string" where
  "normpath s =
     (if s = [] then ''.''
      else let n = initial_slashes s;
               r = replicate n (CHR ''/'') @ py_join ''/'' (norm_comps (n > 0) [] (py_split (CHR ''/'') s))
           in if r = [] then ''.'' else r)"

text \<open>\<open>pathlib.PurePosixPath\<close>: root and parts, \<open>str\<close>, \<open>relative_to\<close>.\<close>

record posix_path =
  pp_root :: string
  pp_parts :: "string list"

definition pure_path :: "string \<Rightarrow> posix_path" where
  "pure_path s = \<lparr>pp_root = replicate (initial_slashes s) (CHR ''/''),
     pp_parts = filter (\<lambda>p. p \<noteq> [] \<and> p \<noteq> ''.'') (py_split (CHR ''/'') s)\<rparr>"

definition path_str :: "posix_path \<Rightarrow> string" where
  "path_str p = (let r = pp_root p @ py_join ''/'' (pp_parts p) in if r = [] then ''.'' else r)"

definition relative_to_ok :: "posix_path \<Rightarrow> posix_path \<Rightarrow> bool" where
  "relative_to_ok p q \<longleftrightarrow> pp_root p = pp_root q \<and> prefix (pp_parts q) (pp_parts p)"

section \<open>Escapes and the fixed points of \<open>unquote\<close>\<close>

definition is_hex :: "char \<Rightarrow> bool" where
  "is_hex c \<longleftrightarrow> hexval c \<noteq> None"

definition has_escape :: "string \<Rightarrow> bool" where
  "has_escape s \<longleftrightarrow> (\<exists>a b. is_hex a \<and> is_hex b \<and> sublist [pct, a, b] s)"

lemma hex_ascii: "is_hex c \<Longrightarrow> is_ascii c"
  by (auto simp: is_hex_def hexval_def is_ascii_def split: if_splits)

lemma slash_not_escape: "\<not> is_hex (CHR ''/'')" "pct \<noteq> CHR ''/''"
  by code_simp+

lemma pct_ascii [simp]: "is_ascii pct"
  by (simp add: is_ascii_def pct_def)

lemma ascii_not_continuation: "is_ascii c \<Longrightarrow> \<not> is_continuation c"
  by (simp add: is_ascii_def is_continuation_def)

lemma sublist_append_sep:
  assumes "c \<notin> set xs" and "sublist xs (u @ c # v)"
  shows "sublist xs u \<or> sublist xs v"
proof -
  from assms(2) consider "sublist xs u" | "sublist xs (c # v)"
    | x1 x2 where "xs = x1 @ x2" "suffix x1 u" "prefix x2 (c # v)"
    by (auto simp: sublist_append)
  then show ?thesis
  proof cases
    case 1
    then show ?thesis by simp
  next
    case 2
    with assms(1) show ?thesis by (auto simp: sublist_Cons_right prefix_Cons)
  next
    case 3
    with assms(1) have "x2 = []" by (auto simp: prefix_Cons)
    with 3 show ?thesis by (simp add: suffix_imp_sublist)
  qed
qed

lemma py_len_le: "py_len s \<le> length s"
  by (simp add: py_len_def)

lemma py_len_append [simp]: "py_len (s @ t) = py_len s + py_len t"
  by (simp add: py_len_def)

lemma py_len_ascii: "list_all is_ascii s \<Longrightarrow> py_len s = length s"
  by (induction s) (auto simp: py_len_def ascii_not_continuation)

lemma length_pct_decode: "length (pct_decode s) \<le> length s"
  by (induction s rule: pct_decode.induct) auto

lemma has_escape_short [simp]: "\<not> has_escape []" "\<not> has_escape [x]" "\<not> has_escape [x, y]"
  by (auto simp: has_escape_def sublist_Cons_right)

lemma has_escape_Cons3:
  "has_escape (p # a # b # s) \<longleftrightarrow>
     p = pct \<and> is_hex a \<and> is_hex b \<or> has_escape (a # b # s)"
  unfolding has_escape_def by (subst sublist_Cons_right) auto

lemma pct_decode_shrinks: "has_escape s \<Longrightarrow> length (pct_decode s) < length s"
proof (induction s rule: pct_decode.induct)
  case (1 p a b s)
  then show ?case
    using length_pct_decode [of s] by (auto simp: has_escape_Cons3 is_hex_def)
qed simp_all

lemma pct_decode_id: "\<not> has_escape s \<Longrightarrow> pct_decode s = s"
  by (induction s rule: pct_decode.induct) (auto simp: has_escape_Cons3 is_hex_def)

lemma py_len_utf8_replace: "py_len (utf8_replace s) \<le> length s"
proof (induction s rule: utf8_replace.induct)
  case (1 s)
  show ?case
  proof (cases "s = []")
    case True
    then show ?thesis by (simp add: utf8_replace.simps py_len_def)
  next
    case False
    let ?n = "fst (utf8_step s)"
    have "py_len (utf8_replace (drop ?n s)) \<le> length s - ?n" using 1 False by simp
    moreover have "py_len (take ?n s) \<le> length (take ?n s)" by (rule py_len_le)
    moreover have "py_len replacement_char = 1"
      by (simp add: py_len_def replacement_char_def is_continuation_def)
    moreover have "0 < ?n" by (rule utf8_step_pos)
    moreover have "0 < length s" using False by simp
    ultimately show ?thesis
      by (subst utf8_replace.simps) (auto simp: min_def Suc_le_eq split: if_splits)
  qed
qed

lemma utf8_replace_ascii: "list_all is_ascii s \<Longrightarrow> utf8_replace s = s"
  by (induction s) (subst utf8_replace.simps; simp add: utf8_step_def Let_def is_ascii_def)+

lemma sublist_ascii_split:
  assumes "list_all is_ascii xs" and "sublist xs (u @ v)" and "v = [] \<or> \<not> is_ascii (hd v)"
  shows "sublist xs u \<or> sublist xs v"
proof (cases v)
  case Nil
  with assms(2) show ?thesis by simp
next
  case (Cons c v')
  with assms have "c \<notin> set xs" by (auto simp: list_all_iff)
  with assms(2) Cons have "sublist xs u \<or> sublist xs v'" by (auto dest: sublist_append_sep)
  with Cons show ?thesis by (auto simp: sublist_Cons_right)
qed

lemma has_escape_split:
  assumes "has_escape (u @ v)" and "v = [] \<or> \<not> is_ascii (hd v)"
  shows "has_escape u \<or> has_escape v"
proof -
  from assms(1) obtain a b where ab: "is_hex a" "is_hex b" "sublist [pct, a, b] (u @ v)"
    by (auto simp: has_escape_def)
  have "list_all is_ascii [pct, a, b]" using ab by (auto dest: hex_ascii)
  from sublist_ascii_split [OF this ab(3) assms(2)] ab(1,2) show ?thesis
    by (auto simp: has_escape_def)
qed

lemma has_escape_non_ascii_prefix:
  assumes "has_escape (u @ v)" and "list_all (\<lambda>c. \<not> is_ascii c) u"
  shows "has_escape v"
  using assms
proof (induction u)
  case Nil
  then show ?case by simp
next
  case (Cons c u)
  then have "\<not> is_ascii c" by simp
  then have "c \<noteq> pct" using pct_ascii by auto
  with Cons.prems(1) have "has_escape (u @ v)"
    unfolding has_escape_def by (auto simp: sublist_Cons_right)
  with Cons show ?case by simp
qed

lemma py_len_unquote_runs:
  "py_len (unquote_runs s) \<le> py_len s \<and> (has_escape s \<longrightarrow> py_len (unquote_runs s) < py_len s)"
proof (induction s rule: unquote_runs.induct)
  case (1 s)
  show ?case
  proof (cases "s = []")
    case True
    then show ?thesis by (simp add: unquote_runs.simps py_len_def)
  next
    case ne: False
    show ?thesis
    proof (cases "is_ascii (hd s)")
      case True
      let ?u = "takeWhile is_ascii s" and ?v = "dropWhile is_ascii s"
      have s: "?u @ ?v = s" by simp
      have au: "list_all is_ascii ?u" by (auto simp: list_all_iff dest: set_takeWhileD)
      have IH: "py_len (unquote_runs ?v) \<le> py_len ?v"
        "has_escape ?v \<Longrightarrow> py_len (unquote_runs ?v) < py_len ?v"
        using "1.IH"(1) [OF ne True] by auto
      have len: "py_len s = length ?u + py_len ?v"
        using py_len_append [of ?u ?v] py_len_ascii [OF au] s by simp
      have dec: "py_len (utf8_replace (pct_decode ?u)) \<le> length (pct_decode ?u)"
        by (rule py_len_utf8_replace)
      have eq: "unquote_runs s = utf8_replace (pct_decode ?u) @ unquote_runs ?v"
        using ne True by (simp add: unquote_runs.simps [of s])
      have "?v = [] \<or> \<not> is_ascii (hd ?v)" using hd_dropWhile [of is_ascii s] by auto
      then have "has_escape s \<Longrightarrow> has_escape ?u \<or> has_escape ?v"
        using has_escape_split [of ?u ?v] by simp
      with IH len dec eq length_pct_decode [of ?u] pct_decode_shrinks [of ?u] show ?thesis
        by fastforce
    next
      case False
      let ?P = "\<lambda>c. \<not> is_ascii c"
      let ?u = "takeWhile ?P s" and ?v = "dropWhile ?P s"
      have au: "list_all ?P ?u" by (auto simp: list_all_iff dest: set_takeWhileD)
      have IH: "py_len (unquote_runs ?v) \<le> py_len ?v"
        "has_escape ?v \<Longrightarrow> py_len (unquote_runs ?v) < py_len ?v"
        using "1.IH"(2) [OF ne False] by auto
      have eq: "unquote_runs s = ?u @ unquote_runs ?v"
        using ne False by (simp add: unquote_runs.simps [of s])
      have "has_escape s \<Longrightarrow> has_escape ?v"
        using has_escape_non_ascii_prefix [of ?u ?v] au by simp
      moreover have "py_len s = py_len ?u + py_len ?v" using py_len_append [of ?u ?v] by simp
      ultimately show ?thesis using IH eq by simp
    qed
  qed
qed

lemma has_escape_mono: "has_escape s \<Longrightarrow> sublist s t \<Longrightarrow> has_escape t"
  unfolding has_escape_def by (blast intro: sublist_order.order.trans)

lemma unquote_runs_id: "\<not> has_escape s \<Longrightarrow> unquote_runs s = s"
proof (induction s rule: unquote_runs.induct)
  case (1 s)
  have sub: "sublist (takeWhile P s) s" "sublist (dropWhile P s) s" for P
    by (simp_all add: prefix_imp_sublist suffix_imp_sublist takeWhile_is_prefix suffix_dropWhile)
  have a: "list_all is_ascii (takeWhile is_ascii s)"
    by (auto simp: list_all_iff dest: set_takeWhileD)
  have "utf8_replace (pct_decode (takeWhile is_ascii s)) = takeWhile is_ascii s"
    using 1 sub(1) a by (metis has_escape_mono pct_decode_id utf8_replace_ascii)
  moreover have "\<not> has_escape (dropWhile P s)" for P using 1 sub(2) by (metis has_escape_mono)
  ultimately show ?case
    using 1 by (subst unquote_runs.simps) simp
qed

lemma unquote_fixed_iff: "unquote s = s \<longleftrightarrow> \<not> has_escape s"
proof
  assume u: "unquote s = s"
  show "\<not> has_escape s"
  proof
    assume h: "has_escape s"
    then have "pct \<in> set s" by (auto simp: has_escape_def dest: set_mono_sublist)
    with u have "unquote_runs s = s" by (simp add: unquote_def)
    with py_len_unquote_runs [of s] h show False by simp
  qed
next
  assume "\<not> has_escape s"
  then show "unquote s = s" by (simp add: unquote_def unquote_runs_id)
qed

lemma py_split_sublist: "p \<in> set (py_split c s) \<Longrightarrow> sublist p s"
proof -
  have "sublist p (py_join [c] ps)" if "p \<in> set ps" for ps
    using that by (induction "[c]" ps rule: py_join.induct)
      (auto simp: sublist_append sublist_Cons_right)
  from this [of "py_split c s"] show "p \<in> set (py_split c s) \<Longrightarrow> sublist p s"
    by (simp add: py_join_split)
qed

lemma has_escape_join:
  assumes "has_escape (py_join ''/'' ps)"
  shows "\<exists>p \<in> set ps. has_escape p"
  using assms
proof (induction "''/''" ps rule: py_join.induct)
  case (3 p q ps)
  then obtain a b where ab: "is_hex a" "is_hex b"
      "sublist [pct, a, b] (p @ CHR ''/'' # py_join ''/'' (q # ps))"
    by (auto simp: has_escape_def)
  have "CHR ''/'' \<notin> set [pct, a, b]" using ab(1,2) slash_not_escape by auto
  from sublist_append_sep [OF this ab(3)] ab(1,2)
  have "has_escape p \<or> has_escape (py_join ''/'' (q # ps))" by (auto simp: has_escape_def)
  with 3 show ?case by auto
qed simp_all

lemma has_escape_unbackslash: "has_escape (unbackslash s) \<Longrightarrow> has_escape s"
proof -
  assume "has_escape (unbackslash s)"
  then obtain a b us vs where ab: "is_hex a" "is_hex b" "unbackslash s = us @ [pct, a, b] @ vs"
    by (auto simp: has_escape_def sublist_def)
  let ?f = "\<lambda>c. if c = backslash then CHR ''/'' else c"
  from ab(3) obtain s1 r where r: "s = s1 @ r" "[pct, a, b] @ vs = map ?f r"
    unfolding unbackslash_def map_eq_append_conv by blast
  define s2 s3 where "s2 = take 3 r" and "s3 = drop 3 r"
  have "take 3 ([pct, a, b] @ vs) = map ?f s2" unfolding r(2) s2_def by (simp add: take_map)
  then have s2: "[pct, a, b] = map ?f s2" by simp
  have "r = s2 @ s3" by (simp add: s2_def s3_def)
  with r(1) s2 have s: "s = s1 @ s2 @ s3" "[pct, a, b] = map ?f s2" by simp_all
  have "?f c = c" if "c \<in> set s2" for c
  proof -
    from that have "?f c \<in> set [pct, a, b]" unfolding s(2) by auto
    with ab(1,2) slash_not_escape show ?thesis by (auto split: if_splits)
  qed
  then have "map ?f s2 = s2" by (simp add: map_idI)
  with s ab(1,2) show "has_escape s" unfolding has_escape_def sublist_def by metis
qed

end
