(* ===== verification/Models.thy ===== *)
theory Models
  imports Py_Text
begin

text \<open>
  The shared data model, \<^verbatim>\<open>src/bulldog/models.py\<close>: decisions, provenance labels, capabilities,
  action requests and evaluations. Decisions are linearly ordered by strictness (the
  \<open>_DECISION_ORDER\<close> table of the engine and of the session guard). Risk values are exact rationals;
  for every combination of the constants that the policy adds or maximises, the exact thresholds
  select the same decision as IEEE double arithmetic.
\<close>

section \<open>Decisions\<close>

datatype decision = ALLOW | SANDBOX | DENY | ESCALATE

fun decision_value :: "decision \<Rightarrow> string" where
  "decision_value ALLOW = ''ALLOW''"
| "decision_value SANDBOX = ''SANDBOX''"
| "decision_value DENY = ''DENY''"
| "decision_value ESCALATE = ''ESCALATE''"

fun decision_order :: "decision \<Rightarrow> nat" where
  "decision_order ALLOW = 0"
| "decision_order SANDBOX = 1"
| "decision_order ESCALATE = 2"
| "decision_order DENY = 3"

lemma decision_order_inj [simp]: "decision_order d = decision_order e \<longleftrightarrow> d = e"
  by (cases d; cases e) simp_all

instantiation decision :: linorder
begin

definition less_eq_decision :: "decision \<Rightarrow> decision \<Rightarrow> bool" where
  "less_eq_decision d e \<longleftrightarrow> decision_order d \<le> decision_order e"

definition less_decision :: "decision \<Rightarrow> decision \<Rightarrow> bool" where
  "less_decision d e \<longleftrightarrow> decision_order d < decision_order e"

instance
  by standard (auto simp: less_eq_decision_def less_decision_def)

end

lemma decision_le_DENY [simp]: "(d::decision) \<le> DENY"
  by (cases d) (simp_all add: less_eq_decision_def)

lemma ALLOW_le_decision [simp]: "ALLOW \<le> (d::decision)"
  by (cases d) (simp_all add: less_eq_decision_def)

lemma decision_le_simps [simp]:
  "SANDBOX \<le> ESCALATE" "\<not> ESCALATE \<le> SANDBOX" "\<not> ESCALATE \<le> ALLOW" "\<not> SANDBOX \<le> ALLOW"
  "\<not> DENY \<le> ESCALATE" "\<not> DENY \<le> SANDBOX" "\<not> DENY \<le> ALLOW"
  by (simp_all add: less_eq_decision_def)

section \<open>Provenance and capabilities\<close>

datatype provenance = HUMAN | LOCAL_TRUSTED | REPOSITORY | INTERNET | EXTERNAL_AGENT | UNKNOWN

fun provenance_value :: "provenance \<Rightarrow> string" where
  "provenance_value HUMAN = ''human''"
| "provenance_value LOCAL_TRUSTED = ''local_trusted''"
| "provenance_value REPOSITORY = ''repository''"
| "provenance_value INTERNET = ''internet''"
| "provenance_value EXTERNAL_AGENT = ''external_agent''"
| "provenance_value UNKNOWN = ''unknown''"

definition has_external_provenance :: "provenance list \<Rightarrow> bool" where
  "has_external_provenance ps \<longleftrightarrow> list_ex (\<lambda>v. v \<in> {INTERNET, EXTERNAL_AGENT, UNKNOWN}) ps"

lemma has_external_iff:
  "has_external_provenance ps \<longleftrightarrow> (\<exists>v \<in> set ps. v = INTERNET \<or> v = EXTERNAL_AGENT \<or> v = UNKNOWN)"
  by (auto simp: has_external_provenance_def list_ex_iff)

datatype capability =
    FS_READ_PROJECT
  | FS_WRITE_PROJECT
  | FS_READ_HOME
  | FS_WRITE_HOME
  | CREDENTIAL_READ
  | PROCESS_EXEC
  | NETWORK_OUTBOUND
  | NETWORK_POST
  | PACKAGE_INSTALL
  | AGENT_SPAWN
  | AGENT_MESSAGE
  | SECURITY_CONTROL_WRITE

fun capability_value :: "capability \<Rightarrow> string" where
  "capability_value FS_READ_PROJECT = ''fs.read.project''"
| "capability_value FS_WRITE_PROJECT = ''fs.write.project''"
| "capability_value FS_READ_HOME = ''fs.read.home''"
| "capability_value FS_WRITE_HOME = ''fs.write.home''"
| "capability_value CREDENTIAL_READ = ''credential.read''"
| "capability_value PROCESS_EXEC = ''process.exec''"
| "capability_value NETWORK_OUTBOUND = ''network.outbound''"
| "capability_value NETWORK_POST = ''network.post''"
| "capability_value PACKAGE_INSTALL = ''package.install''"
| "capability_value AGENT_SPAWN = ''agent.spawn''"
| "capability_value AGENT_MESSAGE = ''agent.message''"
| "capability_value SECURITY_CONTROL_WRITE = ''security_control.write''"

definition all_capabilities :: "capability list" where
  "all_capabilities = [FS_READ_PROJECT, FS_WRITE_PROJECT, FS_READ_HOME, FS_WRITE_HOME,
     CREDENTIAL_READ, PROCESS_EXEC, NETWORK_OUTBOUND, NETWORK_POST, PACKAGE_INSTALL, AGENT_SPAWN,
     AGENT_MESSAGE, SECURITY_CONTROL_WRITE]"

lemma in_all_capabilities [simp]: "c \<in> set all_capabilities"
  by (cases c) (simp_all add: all_capabilities_def)

text \<open>The enumeration call \<open>Capability(value)\<close>.\<close>

definition capability_of :: "string \<Rightarrow> capability res" where
  "capability_of v =
     (case find (\<lambda>c. capability_value c = v) all_capabilities of
        None \<Rightarrow> raise ValueError (v @ '' is not a valid Capability'')
      | Some c \<Rightarrow> Inr c)"

lemma capability_value_inj [simp]: "capability_value c = capability_value d \<longleftrightarrow> c = d"
  by (cases c; cases d) simp_all

lemma capability_of_value [simp]: "capability_of (capability_value c) = Inr c"
proof -
  have "find (\<lambda>d. capability_value d = capability_value c) all_capabilities = Some c"
    by (cases c) (simp_all add: all_capabilities_def)
  then show ?thesis by (simp add: capability_of_def)
qed

lemma capability_of_Inr: "capability_of v = Inr c \<longleftrightarrow> v = capability_value c"
proof
  assume "capability_of v = Inr c"
  then have "find (\<lambda>d. capability_value d = v) all_capabilities = Some c"
    by (cases "find (\<lambda>d. capability_value d = v) all_capabilities") (simp_all add: capability_of_def)
  then obtain i where "capability_value (all_capabilities ! i) = v" "c = all_capabilities ! i"
    unfolding find_Some_iff by iprover
  then show "v = capability_value c" by simp
next
  assume "v = capability_value c"
  then show "capability_of v = Inr c" by (simp only: capability_of_value)
qed

section \<open>Requests and evaluations\<close>

record action_request =
  actor :: string
  task :: string
  operation :: string
  resource :: string
  capability :: capability
  granted_capabilities :: "capability set"
  provenance :: "provenance list"
  parent_capabilities :: "capability set option"
  irreversible :: bool
  external_side_effect :: bool
  metadata :: "string dict"

record evaluation =
  e_decision :: decision
  e_risk :: rat
  e_reasons :: "string list"
  e_hard_block :: bool

definition evaluation_of :: "decision \<Rightarrow> rat \<Rightarrow> string list \<Rightarrow> bool \<Rightarrow> evaluation" where
  "evaluation_of d r rs h = \<lparr>e_decision = d, e_risk = r, e_reasons = rs, e_hard_block = h\<rparr>"

lemma evaluation_of_simps [simp]:
  "e_decision (evaluation_of d r rs h) = d" "e_risk (evaluation_of d r rs h) = r"
  "e_reasons (evaluation_of d r rs h) = rs" "e_hard_block (evaluation_of d r rs h) = h"
  by (simp_all add: evaluation_of_def)

end
