(* ===== verification/Py_Url.thy ===== *)
theory Py_Url
  imports Py_Text
begin

text \<open>
  \<open>urllib.parse.urlsplit\<close> and the derived attributes that BULL reads: scheme, path, query,
  fragment, user name, password, host name and port.
\<close>

definition partition_at :: "char \<Rightarrow> string \<Rightarrow> string \<times> bool \<times> string" where
  "partition_at c s = (takeWhile (\<lambda>x. x \<noteq> c) s, c \<in> set s, tl (dropWhile (\<lambda>x. x \<noteq> c) s))"

definition rpartition_at :: "char \<Rightarrow> string \<Rightarrow> string \<times> bool \<times> string" where
  "rpartition_at c s =
     (if c \<in> set s then (rev (tl (dropWhile (\<lambda>x. x \<noteq> c) (rev s))), True, rev (takeWhile (\<lambda>x. x \<noteq> c) (rev s)))
      else ([], False, s))"

record url_parts =
  url_scheme :: string
  url_netloc :: string
  url_path :: string
  url_query :: string
  url_fragment :: string

definition is_alpha :: "char \<Rightarrow> bool" where
  "is_alpha c \<longleftrightarrow> 65 \<le> code c \<and> code c \<le> 90 \<or> 97 \<le> code c \<and> code c \<le> 122"

definition is_digit :: "char \<Rightarrow> bool" where
  "is_digit c \<longleftrightarrow> 48 \<le> code c \<and> code c \<le> 57"

definition scheme_char :: "char \<Rightarrow> bool" where
  "scheme_char c \<longleftrightarrow> is_alpha c \<or> is_digit c \<or> c \<in> set ''+-.''"

text \<open>Leading C0 controls and spaces go, then every tab, carriage return and line feed.\<close>

definition clean_url :: "string \<Rightarrow> string" where
  "clean_url s = filter (\<lambda>c. code c \<notin> {9, 10, 13}) (dropWhile (\<lambda>c. code c \<le> 32) s)"

definition split_scheme :: "string \<Rightarrow> string \<times> string" where
  "split_scheme s =
     (let (pre, found, post) = partition_at (CHR '':'') s in
      if found \<and> pre \<noteq> [] \<and> is_alpha (hd pre) \<and> list_all scheme_char pre
      then (map lower_char pre, post) else ([], s))"

definition check_bracketed_host :: "pylib \<Rightarrow> string \<Rightarrow> bool" where
  "check_bracketed_host L h =
     (case h of
        CHR ''v'' # r \<Rightarrow>
          (let (hex, dot, rest) = partition_at (CHR ''.'') r
           in dot \<and> hex \<noteq> [] \<and> list_all (\<lambda>c. hexval c \<noteq> None) hex \<and> rest \<noteq> [])
      | _ \<Rightarrow> ip6_literal L h)"

definition netloc_ok :: "pylib \<Rightarrow> string \<Rightarrow> bool" where
  "netloc_ok L n \<longleftrightarrow>
     n = [] \<or> ascii_text n
     \<or> (let m = filter (\<lambda>c. c \<notin> set ''@:#?'') n; m2 = py_nfkc L m
        in m = m2 \<or> (\<forall>c \<in> set ''/?#@:''. c \<notin> set m2))"

definition brackets_ok :: "pylib \<Rightarrow> string \<Rightarrow> bool" where
  "brackets_ok L n \<longleftrightarrow>
     (let o1 = CHR ''['' \<in> set n; c1 = CHR '']'' \<in> set n in
      o1 = c1 \<and> (o1 \<longrightarrow>
        check_bracketed_host L (fst (partition_at (CHR '']'') (snd (snd (partition_at (CHR ''['') n)))))))"

definition urlsplit :: "pylib \<Rightarrow> string \<Rightarrow> url_parts res" where
  "urlsplit L url =
     (let (scheme, rest) = split_scheme (clean_url url);
          has_net = prefix ''//'' rest;
          netloc = (if has_net then takeWhile (\<lambda>c. c \<notin> set ''/?#'') (drop 2 rest) else []);
          rest2 = (if has_net then dropWhile (\<lambda>c. c \<notin> set ''/?#'') (drop 2 rest) else rest);
          (rest3, _, fragment) = partition_at (CHR ''#'') rest2;
          (path, _, query) = partition_at (CHR ''?'') rest3 in
      if has_net \<and> \<not> brackets_ok L netloc then raise ValueError ''Invalid IPv6 URL''
      else if \<not> netloc_ok L netloc
        then raise ValueError (''netloc '' @ netloc @ '' contains invalid characters under NFKC normalization'')
      else Inr \<lparr>url_scheme = scheme, url_netloc = netloc, url_path = path, url_query = query,
             url_fragment = fragment\<rparr>)"

definition url_hostinfo :: "url_parts \<Rightarrow> string" where
  "url_hostinfo u = snd (snd (rpartition_at (CHR ''@'') (url_netloc u)))"

definition url_username :: "url_parts \<Rightarrow> string option" where
  "url_username u =
     (let (info, have, _) = rpartition_at (CHR ''@'') (url_netloc u)
      in if have then Some (fst (partition_at (CHR '':'') info)) else None)"

definition url_password :: "url_parts \<Rightarrow> string option" where
  "url_password u =
     (let (info, have, _) = rpartition_at (CHR ''@'') (url_netloc u); (_, havep, p) = partition_at (CHR '':'') info
      in if have \<and> havep then Some p else None)"

definition host_port :: "url_parts \<Rightarrow> string \<times> string" where
  "host_port u =
     (let h = url_hostinfo u; (_, open_br, bracketed) = partition_at (CHR ''['') h in
      if open_br then (let (host, _, rest) = partition_at (CHR '']'') bracketed
                       in (host, snd (snd (partition_at (CHR '':'') rest))))
      else (let (host, _, port) = partition_at (CHR '':'') h in (host, port)))"

definition url_hostname :: "pylib \<Rightarrow> url_parts \<Rightarrow> string option" where
  "url_hostname L u =
     (let h = fst (host_port u) in
      if h = [] then None
      else let (name, zone, z) = partition_at pct h
           in Some (py_lower L name @ (if zone then [pct] else []) @ z))"

definition digits_val :: "string \<Rightarrow> nat" where
  "digits_val s = foldl (\<lambda>a c. 10 * a + (code c - 48)) 0 s"

definition url_port :: "url_parts \<Rightarrow> nat option res" where
  "url_port u =
     (let p = snd (host_port u) in
      if p = [] then Inr None
      else if \<not> list_all is_digit p then raise ValueError ''Port could not be cast to integer value''
      else if digits_val p > 65535 then raise ValueError ''Port out of range 0-65535''
      else Inr (Some (digits_val p)))"

text \<open>Python's truth value of an optional string.\<close>

definition opt_truthy :: "string option \<Rightarrow> bool" where
  "opt_truthy x = (case x of None \<Rightarrow> False | Some s \<Rightarrow> s \<noteq> [])"

lemma opt_truthy_iff: "opt_truthy x \<longleftrightarrow> (\<exists>s. x = Some s \<and> s \<noteq> [])"
  by (cases x) (auto simp: opt_truthy_def)

end
