(* ===== verification/Canonicalizer.thy ===== *)
theory Canonicalizer
  imports Models Py_Url
begin

text \<open>
  Canonicalisation of untrusted proposals, \<^verbatim>\<open>src/bulldog/canonicalizer.py\<close>: bounded
  percent-decoding, rejection of ambiguous file paths, derivation of the capability from the
  operation and the canonical resource, and assembly of the action request, in which every
  authority field comes from the trusted context. Proposal values are the strings that the
  code's \<open>str(...)\<close> calls produce.

  The lemmas show that every canonical path is absolute, free of \<open>.\<close>, \<open>..\<close>, empty components,
  control characters and further percent-escapes, that canonicalisation is idempotent, and that
  no field of the proposal other than task, operation and resource reaches the action.
\<close>

definition SENSITIVE_MARKERS :: "string list" where
  "SENSITIVE_MARKERS = [''/.ssh/'', ''/.gnupg/'', ''/.aws/'', ''/.config/gcloud/'', ''/etc/shadow'',
     ''/etc/sudoers'']"

definition PATH_OPERATIONS :: "string list" where
  "PATH_OPERATIONS = [''read'', ''inspect'', ''write'', ''create'', ''modify'']"

definition SECRET_OPERATIONS :: "string list" where
  "SECRET_OPERATIONS = [''secret.get'', ''credential.get'', ''credential.read'']"

record trusted_context =
  tc_actor :: string
  tc_provenance :: "provenance list"
  tc_security_context_id :: string
  tc_domain_id :: "string option"
  tc_root_domain_id :: "string option"
  tc_parent_domain_id :: "string option"
  tc_initial_intent_hash :: "string option"
  tc_initial_command_hash :: "string option"
  tc_model_id :: "string option"
  tc_model_id_hash :: "string option"
  tc_domain_fingerprint :: "string option"
  tc_spawn_depth :: int

abbreviation canon_error :: "string \<Rightarrow> 'a res" where
  "canon_error m \<equiv> raise ActionCanonicalizationError m"

section \<open>Resources\<close>

definition nul :: char where
  "nul = char_of (0::nat)"

fun decode_loop :: "nat \<Rightarrow> string \<Rightarrow> string res" where
  "decode_loop 0 d =
     (if unquote d \<noteq> d then canon_error ''resource contains excessively nested percent-encoding''
      else Inr d)"
| "decode_loop (Suc n) d = (if unquote d = d then Inr d else decode_loop n (unquote d))"

definition decode_resource :: "string \<Rightarrow> string res" where
  "decode_resource v = (if nul \<in> set v then canon_error ''NUL byte in resource'' else decode_loop 3 v)"

definition unicode_folding_ok :: "pylib \<Rightarrow> string \<Rightarrow> bool" where
  "unicode_folding_ok L v \<longleftrightarrow>
     (let folded = py_nfkc L v in
      folded = v \<or> list_all (\<lambda>c. count_list folded c \<le> count_list v c) [CHR ''.'', CHR ''/'', backslash])"

definition is_control :: "char \<Rightarrow> bool" where
  "is_control c \<longleftrightarrow> code c < 32 \<or> code c = 127"

definition canonicalize_filesystem_resource :: "pylib \<Rightarrow> string \<Rightarrow> string res" where
  "canonicalize_filesystem_resource L r =
     (case decode_resource r of
        Inl e \<Rightarrow> Inl e
      | Inr decoded0 \<Rightarrow>
          if \<not> unicode_folding_ok L decoded0
          then canon_error ''filesystem resource has Unicode normalization ambiguity''
          else let decoded = unbackslash decoded0 in
            if prefix ''//'' decoded
            then canon_error ''filesystem resource has ambiguous leading slashes''
            else if list_ex is_control decoded
            then canon_error ''filesystem resource contains ASCII control characters''
            else if \<not> prefix ''/'' decoded
            then canon_error ''filesystem resource must be an absolute path''
            else if ''..'' \<in> set (py_split (CHR ''/'') decoded)
            then canon_error ''parent-directory traversal in filesystem resource''
            else let normalized = normpath decoded in
              if prefix ''//'' normalized
              then canon_error ''normalized filesystem resource has ambiguous leading slashes''
              else if \<not> prefix ''/'' normalized
              then canon_error ''filesystem resource escaped absolute path namespace''
              else Inr normalized)"

definition canonicalize_resource :: "pylib \<Rightarrow> string \<Rightarrow> string \<Rightarrow> string res" where
  "canonicalize_resource L oper res =
     (let op1 = py_strip (py_lower L oper); raw = py_strip res in
      if raw = [] then canon_error ''missing resource''
      else if op1 \<in> set PATH_OPERATIONS \<or> prefix ''/'' raw \<or> prefix [backslash] raw
        then canonicalize_filesystem_resource L raw
      else decode_resource raw)"

section \<open>Capability derivation\<close>

definition in_workspace :: "string \<Rightarrow> bool" where
  "in_workspace r \<longleftrightarrow> r = ''/workspace'' \<or> prefix ''/workspace/'' r"

text \<open>The decision table after canonicalisation.\<close>

definition capability_table :: "pylib \<Rightarrow> string \<Rightarrow> string \<Rightarrow> string \<Rightarrow> capability res" where
  "capability_table L oper op1 r =
     (if contains_any SENSITIVE_MARKERS (py_lower L r) then Inr CREDENTIAL_READ
      else if op1 \<in> set SECRET_OPERATIONS then Inr CREDENTIAL_READ
      else if op1 \<in> set [''execute'', ''exec'', ''run'', ''shell'', ''bash''] then Inr PROCESS_EXEC
      else if op1 \<in> set [''spawn'', ''create_agent'', ''agent.create''] then Inr AGENT_SPAWN
      else if op1 \<in> set [''message'', ''agent.message''] then Inr AGENT_MESSAGE
      else if op1 \<in> set [''post'', ''upload'', ''send''] then Inr NETWORK_POST
      else if op1 \<in> set [''connect'', ''fetch'', ''get'', ''head'']
        then (case urlsplit L r of
                Inl e \<Rightarrow> Inl e
              | Inr u \<Rightarrow> if url_scheme u \<noteq> [] \<and> url_scheme u \<notin> set [''http'', ''https'']
                        then canon_error ''unsupported network resource scheme''
                        else Inr NETWORK_OUTBOUND)
      else if op1 \<in> set [''write'', ''create'', ''modify'']
        then Inr (if in_workspace r then FS_WRITE_PROJECT else FS_WRITE_HOME)
      else if op1 \<in> set [''read'', ''inspect'']
        then Inr (if in_workspace r then FS_READ_PROJECT else FS_READ_HOME)
      else canon_error (''cannot derive capability for operation='' @ oper))"

definition derive_capability :: "pylib \<Rightarrow> string \<Rightarrow> string \<Rightarrow> capability res" where
  "derive_capability L oper res =
     (let op1 = py_strip (py_lower L oper) in
      case canonicalize_resource L op1 res of
        Inl e \<Rightarrow> Inl e
      | Inr r \<Rightarrow> capability_table L oper op1 r)"

section \<open>Actions\<close>

definition opt_entry :: "string \<Rightarrow> string option \<Rightarrow> (string \<times> string) list" where
  "opt_entry k v = (case v of None \<Rightarrow> [] | Some x \<Rightarrow> [(k, x)])"

definition trusted_metadata :: "trusted_context \<Rightarrow> string dict" where
  "trusted_metadata t =
     (''security_context_id'', tc_security_context_id t)
     # opt_entry ''domain_id'' (tc_domain_id t)
     @ opt_entry ''root_domain_id'' (tc_root_domain_id t)
     @ opt_entry ''parent_domain_id'' (tc_parent_domain_id t)
     @ opt_entry ''initial_intent_hash'' (tc_initial_intent_hash t)
     @ opt_entry ''initial_command_hash'' (tc_initial_command_hash t)
     @ opt_entry ''model_id'' (tc_model_id t)
     @ opt_entry ''model_id_hash'' (tc_model_id_hash t)
     @ opt_entry ''domain_fingerprint'' (tc_domain_fingerprint t)
     @ [(''spawn_depth'', int_str (tc_spawn_depth t))]"

definition proposal_get :: "string dict \<Rightarrow> string \<Rightarrow> string \<Rightarrow> string" where
  "proposal_get d k dflt = (case dict_get d k of None \<Rightarrow> dflt | Some v \<Rightarrow> v)"

definition canonicalize_action ::
  "pylib \<Rightarrow> string dict \<Rightarrow> trusted_context \<Rightarrow> capability set \<Rightarrow> capability set option \<Rightarrow> action_request res" where
  "canonicalize_action L proposal t granted parent =
     (let oper = py_strip (proposal_get proposal ''operation'' '''');
          res = py_strip (proposal_get proposal ''resource'' '''') in
      if oper = [] then canon_error ''missing operation''
      else case canonicalize_resource L oper res of
        Inl e \<Rightarrow> Inl e
      | Inr r \<Rightarrow>
          (case derive_capability L oper r of
             Inl e \<Rightarrow> Inl e
           | Inr cap \<Rightarrow> Inr
               \<lparr>actor = tc_actor t, task = proposal_get proposal ''task'' ''model proposal'',
                operation = oper, resource = r, capability = cap, granted_capabilities = granted,
                provenance = tc_provenance t, parent_capabilities = parent, irreversible = False,
                external_side_effect = False, metadata = trusted_metadata t\<rparr>))"

lemmas canon_tables = SENSITIVE_MARKERS_def PATH_OPERATIONS_def SECRET_OPERATIONS_def

section \<open>Canonical paths\<close>

definition canonical_component :: "string \<Rightarrow> bool" where
  "canonical_component x \<longleftrightarrow> x \<noteq> [] \<and> x \<noteq> ''.'' \<and> x \<noteq> ''..'' \<and> CHR ''/'' \<notin> set x \<and> backslash \<notin> set x
     \<and> \<not> list_ex is_control x \<and> unquote x = x"

definition canonical_path :: "string \<Rightarrow> bool" where
  "canonical_path p \<longleftrightarrow> (\<exists>ps. p = CHR ''/'' # py_join ''/'' ps \<and> list_all canonical_component ps)"

lemma norm_comps_plain:
  "''..'' \<notin> set xs \<Longrightarrow> norm_comps rooted acc xs = acc @ filter (\<lambda>p. p \<noteq> [] \<and> p \<noteq> ''.'') xs"
  by (induction xs arbitrary: acc) auto

lemma decode_loop_fixed: "decode_loop n v = Inr d \<Longrightarrow> unquote d = d"
  by (induction n arbitrary: v) (auto split: if_splits)

lemma decode_loop_id: "unquote d = d \<Longrightarrow> decode_loop n d = Inr d"
  by (cases n) simp_all

lemma decode_resource_fixed: "decode_resource v = Inr d \<Longrightarrow> unquote d = d"
  by (auto simp: decode_resource_def split: if_splits dest: decode_loop_fixed)

lemma decode_resource_id: "unquote d = d \<Longrightarrow> nul \<notin> set d \<Longrightarrow> decode_resource d = Inr d"
  by (simp add: decode_resource_def decode_loop_id)

lemma backslash_not_slash: "backslash \<noteq> CHR ''/''" "CHR ''/'' \<noteq> backslash"
  by code_simp+

lemma unbackslash_no_backslash: "backslash \<notin> set (unbackslash s)"
  using backslash_not_slash by (auto simp: unbackslash_def)

lemma unbackslash_id: "backslash \<notin> set s \<Longrightarrow> unbackslash s = s"
  by (auto simp: unbackslash_def intro: map_idI)

lemma split_component:
  assumes "x \<in> set (py_split (CHR ''/'') d)" and "x \<noteq> []" and "x \<noteq> ''.''" and "x \<noteq> ''..''"
    and "\<not> list_ex is_control d" and "backslash \<notin> set d" and "\<not> has_escape d"
  shows "canonical_component x"
proof -
  have sub: "sublist x d" using assms(1) by (rule py_split_sublist)
  then have "set x \<subseteq> set d" by (rule set_mono_sublist)
  moreover have "CHR ''/'' \<notin> set x" using assms(1) by (rule py_split_no_sep)
  moreover have "\<not> has_escape x" using sub assms(7) has_escape_mono by blast
  ultimately show ?thesis
    using assms by (auto simp: canonical_component_def list_ex_iff unquote_fixed_iff)
qed

lemma initial_slashes_one: "prefix ''/'' d \<Longrightarrow> \<not> prefix ''//'' d \<Longrightarrow> initial_slashes d = 1"
  by (simp add: initial_slashes_def)

lemma canonicalize_filesystem_Inr:
  assumes "canonicalize_filesystem_resource L r = Inr p"
  obtains d where "decode_resource r = Inr d" and "unicode_folding_ok L d"
    and "\<not> prefix ''//'' (unbackslash d)" and "\<not> list_ex is_control (unbackslash d)"
    and "prefix ''/'' (unbackslash d)" and "''..'' \<notin> set (py_split (CHR ''/'') (unbackslash d))"
    and "p = normpath (unbackslash d)"
  using assms unfolding canonicalize_filesystem_resource_def Let_def
  by (auto simp: sum_case_Inr_iff split: if_splits)

lemma normpath_plain:
  assumes "prefix ''/'' d" and "\<not> prefix ''//'' d" and "''..'' \<notin> set (py_split (CHR ''/'') d)"
  shows "normpath d = CHR ''/'' # py_join ''/'' (filter (\<lambda>p. p \<noteq> [] \<and> p \<noteq> ''.'') (py_split (CHR ''/'') d))"
  using assms by (auto simp: normpath_def initial_slashes_one norm_comps_plain Let_def)

lemma canonicalize_filesystem_canonical:
  assumes "canonicalize_filesystem_resource L r = Inr p"
  shows "canonical_path p"
  using assms
proof (rule canonicalize_filesystem_Inr)
  fix d
  let ?u = "unbackslash d"
  assume d: "decode_resource r = Inr d" "\<not> prefix ''//'' ?u" "\<not> list_ex is_control ?u" "prefix ''/'' ?u"
    "''..'' \<notin> set (py_split (CHR ''/'') ?u)" "p = normpath ?u"
  have "\<not> has_escape ?u"
    using decode_resource_fixed [OF d(1)] has_escape_unbackslash by (auto simp: unquote_fixed_iff)
  then have "list_all canonical_component (filter (\<lambda>p. p \<noteq> [] \<and> p \<noteq> ''.'') (py_split (CHR ''/'') ?u))"
    using d(3,5) unbackslash_no_backslash by (auto simp: list_all_iff intro!: split_component)
  with d(2,4,5,6) show ?thesis unfolding canonical_path_def using normpath_plain by blast
qed

lemma py_join_set: "set (py_join ''/'' ps) \<subseteq> insert (CHR ''/'') (\<Union>(set ` set ps))"
  by (induction "''/''" ps rule: py_join.induct) auto

lemma canonical_path_chars:
  assumes "canonical_path p"
  shows "backslash \<notin> set p" and "\<not> list_ex is_control p" and "nul \<notin> set p" and "unquote p = p"
proof -
  from assms obtain ps where p: "p = CHR ''/'' # py_join ''/'' ps" "list_all canonical_component ps"
    by (auto simp: canonical_path_def)
  have slash: "\<not> is_control (CHR ''/'')" and n: "is_control nul" by code_simp+
  have s: "c = CHR ''/'' \<or> (\<exists>x \<in> set ps. c \<in> set x)" if "c \<in> set p" for c
    using that py_join_set [of ps] p(1) by auto
  show "backslash \<notin> set p"
    using s [of backslash] p(2) backslash_not_slash by (auto simp: canonical_component_def list_all_iff)
  show c: "\<not> list_ex is_control p"
    using s p(2) slash by (auto simp: canonical_component_def list_all_iff list_ex_iff)
  then show "nul \<notin> set p" using n by (auto simp: list_ex_iff)
  have "\<not> has_escape p"
  proof
    assume h: "has_escape p"
    have none: "\<not> has_escape x" if "x \<in> set ([] # ps)" for x
    proof (cases "x = []")
      case False
      with that p(2) have "canonical_component x" by (simp add: list_all_iff)
      then have "unquote x = x" by (simp only: canonical_component_def)
      then show ?thesis by (rule unquote_fixed_iff [THEN iffD1])
    qed simp
    show False
    proof (cases ps)
      case Nil
      with h p(1) show ?thesis by simp
    next
      case (Cons y ys)
      then have "p = py_join ''/'' ([] # ps)" using p(1) by simp
      with h none has_escape_join show ?thesis by blast
    qed
  qed
  then show "unquote p = p" by (simp add: unquote_fixed_iff)
qed

lemma canonical_path_split:
  assumes "canonical_path p"
  obtains ps where "p = CHR ''/'' # py_join ''/'' ps" and "list_all canonical_component ps"
    and "filter (\<lambda>x. x \<noteq> [] \<and> x \<noteq> ''.'') (py_split (CHR ''/'') p) = ps"
    and "''..'' \<notin> set (py_split (CHR ''/'') p)" and "\<not> prefix ''//'' p"
proof -
  from assms obtain ps where p: "p = CHR ''/'' # py_join ''/'' ps" "list_all canonical_component ps"
    by (auto simp: canonical_path_def)
  have noslash: "\<forall>x \<in> set ps. CHR ''/'' \<notin> set x"
    and plain: "\<forall>x \<in> set ps. x \<noteq> [] \<and> x \<noteq> ''.'' \<and> x \<noteq> ''..''"
    using p(2) by (auto simp: list_all_iff canonical_component_def)
  show ?thesis
  proof (cases ps)
    case Nil
    with p that show ?thesis by (simp add: prefix_Cons)
  next
    case (Cons x xs)
    then have sp: "py_split (CHR ''/'') p = [] # ps"
      using p(1) noslash py_split_join [of ps "CHR ''/''"] by simp
    then have "filter (\<lambda>x. x \<noteq> [] \<and> x \<noteq> ''.'') (py_split (CHR ''/'') p) = ps"
      using plain by (simp add: filter_id_conv)
    moreover have "''..'' \<notin> set (py_split (CHR ''/'') p)" using sp plain by auto
    moreover have "\<not> prefix ''//'' p"
    proof -
      obtain c x' where x: "x = c # x'" using plain Cons by (cases x) auto
      then have "c \<noteq> CHR ''/''" using noslash Cons by auto
      then show ?thesis using p(1) Cons x by (simp add: py_join_Cons_head)
    qed
    ultimately show ?thesis using p that by blast
  qed
qed

lemma canonicalize_filesystem_id:
  assumes "canonical_path p" and "unicode_folding_ok L p"
  shows "canonicalize_filesystem_resource L p = Inr p"
proof -
  note chars = canonical_path_chars [OF assms(1)]
  from assms(1) obtain ps where ps: "p = CHR ''/'' # py_join ''/'' ps"
      "filter (\<lambda>x. x \<noteq> [] \<and> x \<noteq> ''.'') (py_split (CHR ''/'') p) = ps"
      "''..'' \<notin> set (py_split (CHR ''/'') p)" "\<not> prefix ''//'' p"
    by (rule canonical_path_split)
  have abs: "prefix ''/'' p" using ps(1) by simp
  have "normpath p = p" using normpath_plain [OF abs ps(4,3)] ps(1,2) by simp
  with chars ps(3,4) abs assms(2) show ?thesis
    unfolding canonicalize_filesystem_resource_def Let_def
    by (simp add: decode_resource_id unbackslash_id)
qed

lemma canonicalize_resource_path_op:
  assumes "canonicalize_resource L oper r = Inr p"
    and "py_strip (py_lower L oper) \<in> set PATH_OPERATIONS \<or> prefix ''/'' (py_strip r)"
  shows "canonicalize_filesystem_resource L (py_strip r) = Inr p"
  using assms unfolding canonicalize_resource_def Let_def by (auto split: if_splits)

lemma path_op_stable:
  assumes "op1 \<in> set PATH_OPERATIONS"
  shows "py_strip (py_lower L op1) = op1"
proof -
  have "list_all (\<lambda>s. ascii_text s \<and> py_strip (map lower_char s) = s) PATH_OPERATIONS" by code_simp
  with assms show ?thesis by (auto simp: list_all_iff py_lower_def)
qed

section \<open>Capabilities and actions\<close>

lemma path_op_members:
  "op1 \<in> set [''write'', ''create'', ''modify''] \<Longrightarrow> op1 \<in> set PATH_OPERATIONS"
  "op1 \<in> set [''read'', ''inspect''] \<Longrightarrow> op1 \<in> set PATH_OPERATIONS"
  by (auto simp: PATH_OPERATIONS_def)

lemma capability_table_project:
  assumes "capability_table L oper op1 r = Inr cap" and "cap \<in> {FS_READ_PROJECT, FS_WRITE_PROJECT}"
  shows "op1 \<in> set PATH_OPERATIONS" and "in_workspace r"
  using assms unfolding capability_table_def
  by (auto simp del: list.set simp: path_op_members split: if_split_asm sum.split_asm)

lemma canonicalize_action_Inr:
  assumes "canonicalize_action L proposal t g par = Inr a"
  shows "py_strip (proposal_get proposal ''operation'' '''') = operation a"
    and "canonicalize_resource L (operation a) (py_strip (proposal_get proposal ''resource'' '''')) = Inr (resource a)"
    and "derive_capability L (operation a) (resource a) = Inr (capability a)"
  using assms unfolding canonicalize_action_def Let_def
  by (auto simp: sum_case_Inr_iff split: if_splits)



text \<open>
  C22. Trusted authority. Only the operation, resource and task of a proposal influence the
  action; actor, provenance, capabilities, side-effect flags and metadata of an accepted action
  are those of the trusted context, whatever else the proposal contains.
\<close>

theorem action_authority_is_trusted:
  assumes "dict_get p1 ''operation'' = dict_get p2 ''operation''"
    and "dict_get p1 ''resource'' = dict_get p2 ''resource''"
    and "dict_get p1 ''task'' = dict_get p2 ''task''"
  shows "canonicalize_action L p1 t g par = canonicalize_action L p2 t g par
    \<and> (\<forall>a. canonicalize_action L p1 t g par = Inr a \<longrightarrow>
        actor a = tc_actor t \<and> provenance a = tc_provenance t \<and> granted_capabilities a = g
        \<and> parent_capabilities a = par \<and> metadata a = trusted_metadata t
        \<and> derive_capability L (operation a) (resource a) = Inr (capability a))"
proof -
  have get: "proposal_get p1 k d = proposal_get p2 k d" if "dict_get p1 k = dict_get p2 k" for k d
    using that by (simp add: proposal_get_def)
  have "actor a = tc_actor t \<and> provenance a = tc_provenance t \<and> granted_capabilities a = g
        \<and> parent_capabilities a = par \<and> metadata a = trusted_metadata t"
    if "canonicalize_action L p1 t g par = Inr a" for a
    using that unfolding canonicalize_action_def Let_def
    by (auto simp: sum_case_Inr_iff split: if_splits)
  moreover have "canonicalize_action L p1 t g par = canonicalize_action L p2 t g par"
    unfolding canonicalize_action_def by (simp only: get [OF assms(1)] get [OF assms(2)] get [OF assms(3)])
  ultimately show ?thesis by (blast dest: canonicalize_action_Inr(3))
qed

definition demo_context :: trusted_context where
  "demo_context = \<lparr>tc_actor = ''agent'', tc_provenance = [HUMAN], tc_security_context_id = ''ctx'',
     tc_domain_id = None, tc_root_domain_id = None, tc_parent_domain_id = None,
     tc_initial_intent_hash = None, tc_initial_command_hash = None, tc_model_id = None,
     tc_model_id_hash = None, tc_domain_fingerprint = None, tc_spawn_depth = 0\<rparr>"

theorem action_authority_is_trusted_witness:
  "canonicalize_action plain_lib
     [(''operation'', ''read''), (''actor'', ''root''), (''resource'', ''/workspace/a'')] demo_context {} None
   = canonicalize_action plain_lib
     [(''operation'', ''read''), (''resource'', ''/workspace/a'')] demo_context {} None"
  using action_authority_is_trusted
    [of "[(''operation'', ''read''), (''actor'', ''root''), (''resource'', ''/workspace/a'')]"
      "[(''operation'', ''read''), (''resource'', ''/workspace/a'')]" plain_lib demo_context "{}" None]
  by simp

text \<open>
  Project capabilities are confined. An action whose derived capability is a project
  capability names a canonical path inside \<open>/workspace\<close>, provided the canonical path carries no
  surrounding white space and no Unicode folding (the capability is derived from the stripped and
  canonicalised resource).
\<close>

theorem project_capability_in_workspace:
  assumes act: "canonicalize_action L proposal t g par = Inr a"
    and cap: "capability a \<in> {FS_READ_PROJECT, FS_WRITE_PROJECT}"
    and stripped: "py_strip (resource a) = resource a" and fold: "unicode_folding_ok L (resource a)"
  shows "canonical_path (resource a) \<and> in_workspace (resource a)"
proof -
  note inv = canonicalize_action_Inr [OF act]
  let ?op = "py_strip (py_lower L (operation a))"
  from inv(3) obtain r where r: "canonicalize_resource L ?op (resource a) = Inr r"
      "capability_table L (operation a) ?op r = Inr (capability a)"
    unfolding derive_capability_def Let_def by (auto simp: sum_case_Inr_iff)
  note tab = capability_table_project [OF r(2) cap]
  have c: "canonical_path (resource a)"
    using canonicalize_resource_path_op [OF inv(2)] tab(1) canonicalize_filesystem_canonical by blast
  have "canonicalize_filesystem_resource L (resource a) = Inr r"
    using canonicalize_resource_path_op [OF r(1)] tab(1) path_op_stable [OF tab(1)] stripped by simp
  with canonicalize_filesystem_id [OF c fold] c tab(2) show ?thesis by simp
qed

theorem project_capability_in_workspace_witness:
  "\<exists>a. canonicalize_action plain_lib [(''operation'', ''write''), (''resource'', ''/workspace/x/../y'')]
         demo_context {} None \<noteq> Inr a
     \<and> canonicalize_action plain_lib [(''operation'', ''Write''), (''resource'', ''/workspace/./y'')]
         demo_context {} None = Inr a \<and> canonical_path (resource a) \<and> in_workspace (resource a)"
proof -
  have "result_sat (canonicalize_action plain_lib
      [(''operation'', ''Write''), (''resource'', ''/workspace/./y'')] demo_context {} None)
      (\<lambda>a. capability a = FS_WRITE_PROJECT \<and> py_strip (resource a) = resource a
         \<and> unicode_folding_ok plain_lib (resource a))" by code_simp
  then obtain a where a: "canonicalize_action plain_lib
      [(''operation'', ''Write''), (''resource'', ''/workspace/./y'')] demo_context {} None = Inr a"
      "capability a = FS_WRITE_PROJECT" "py_strip (resource a) = resource a"
      "unicode_folding_ok plain_lib (resource a)" by (auto elim: result_satE)
  have "\<not> returns (canonicalize_action plain_lib
      [(''operation'', ''write''), (''resource'', ''/workspace/x/../y'')] demo_context {} None)" by code_simp
  then have "canonicalize_action plain_lib
      [(''operation'', ''write''), (''resource'', ''/workspace/x/../y'')] demo_context {} None \<noteq> Inr a" by auto
  with a project_capability_in_workspace [OF a(1) _ a(3,4)] show ?thesis by blast
qed

text \<open>
  The white-space proviso is needed: a percent-encoded trailing space survives into the
  action's resource but not into the capability derivation, so the sibling directory
  \<open>"/workspace "\<close> obtains the project capability. (The policy's own project-root check refuses
  the action later.)
\<close>

theorem encoded_space_misclassified:
  "result_sat (canonicalize_action plain_lib [(''operation'', ''write''), (''resource'', ''/workspace%20'')]
      demo_context {FS_WRITE_PROJECT} None)
    (\<lambda>a. capability a = FS_WRITE_PROJECT \<and> resource a = ''/workspace '' \<and> \<not> in_workspace (resource a))"
  by code_simp

end
