(* ===== verification/Policy.thy ===== *)
theory Policy
  imports Models Py_Url
begin

text \<open>
  The deterministic policy, \<^verbatim>\<open>src/bulldog/policy.py\<close>: \<open>policy_gates\<close> holds the early returns that
  block an action outright, \<open>base_score\<close>, \<open>authority_score\<close> and \<open>transfer_score\<close> accumulate risk
  and reasons in the order of the code, \<open>policy_evaluate\<close> composes them.

  The lemmas characterise exactly which actions are hard-blocked, bound the risk, relate it to the
  decision, and show that untrusted provenance and smaller grants never make a decision milder.
\<close>

definition SENSITIVE_PATH_MARKERS :: "string list" where
  "SENSITIVE_PATH_MARKERS = [''/.ssh/'', ''/.gnupg/'', ''/.aws/'', ''/.config/gcloud/'', ''/etc/shadow'',
     ''/etc/sudoers'']"

definition CANARY_MARKERS :: "string list" where
  "CANARY_MARKERS = [''AI_CANARY_KEY'', ''.bulldog-canary'', ''sentinel_admin_token'', ''agent_mailbox_canary'']"

definition HIGH_RISK_CAPABILITIES :: "capability list" where
  "HIGH_RISK_CAPABILITIES = [CREDENTIAL_READ, SECURITY_CONTROL_WRITE, PACKAGE_INSTALL, AGENT_SPAWN]"

definition BROKERED_SECRET_OPERATIONS :: "string list" where
  "BROKERED_SECRET_OPERATIONS = [''secret.get'', ''credential.get'', ''credential.read'']"

definition PERSISTENCE_PATHS :: "string list" where
  "PERSISTENCE_PATHS = [''/.bashrc'', ''/.zshrc'', ''/.profile'', ''/.bash_profile'', ''/.config/autostart/'',
     ''/.config/systemd/'', ''/etc/systemd/'', ''/etc/cron'', ''/crontab'']"

definition SECRET_HINTS :: "string list" where
  "SECRET_HINTS = [''secret'', ''token'', ''password'', ''passwd'', ''api_key'', ''apikey'', ''credential'',
     ''private_key'', ''access_key'', ''session_key'', ''bearer'']"

record deterministic_policy =
  project_root :: string
  global_capability_ceiling :: "capability set option"

definition default_policy :: deterministic_policy where
  "default_policy = \<lparr>project_root = ''/workspace'', global_capability_ceiling = None\<rparr>"

definition outside :: "capability \<Rightarrow> capability set option \<Rightarrow> bool" where
  "outside c S = (case S of None \<Rightarrow> False | Some T \<Rightarrow> c \<notin> T)"

definition hard_deny :: "string list \<Rightarrow> evaluation" where
  "hard_deny rs = evaluation_of DENY 1 rs True"

definition path_parts :: "string \<Rightarrow> string list" where
  "path_parts s = py_split (CHR ''/'') (unbackslash s)"

definition normalized_resource :: "action_request \<Rightarrow> string" where
  "normalized_resource a = path_str (pure_path (unquote (resource a)))"

definition outside_project :: "deterministic_policy \<Rightarrow> action_request \<Rightarrow> bool" where
  "outside_project P a \<longleftrightarrow>
     capability a \<in> {FS_READ_PROJECT, FS_WRITE_PROJECT}
     \<and> \<not> relative_to_ok (pure_path (normalized_resource a)) (pure_path (project_root P))"

definition policy_gates :: "pylib \<Rightarrow> deterministic_policy \<Rightarrow> action_request \<Rightarrow> evaluation option" where
  "policy_gates L P a =
     (if outside (capability a) (global_capability_ceiling P)
        then Some (hard_deny [''capability is outside the signed deployment policy ceiling''])
      else if capability a \<notin> granted_capabilities a
        then Some (hard_deny [''requested capability was not explicitly granted''])
      else if outside (capability a) (parent_capabilities a)
        then Some (hard_deny [''child agent attempted to exercise authority not held by its parent''])
      else if ''..'' \<in> set (path_parts (resource a))
        then Some (hard_deny [''parent-directory traversal detected''])
      else if ''..'' \<in> set (path_parts (unquote (resource a)))
        then Some (hard_deny [''encoded parent-directory traversal detected''])
      else if outside_project P a
        then Some (hard_deny [''project-scoped capability attempted to access resource outside project root''])
      else if contains_any (map (py_lower L) CANARY_MARKERS) (py_lower L (unquote (resource a)))
        then Some (hard_deny [''canary/honeypot resource accessed''])
      else None)"

type_synonym score = "rat \<times> string list"

definition add_note :: "bool \<Rightarrow> (rat \<Rightarrow> rat) \<Rightarrow> string \<Rightarrow> score \<Rightarrow> score" where
  "add_note b f m s = (if b then (f (fst s), snd s @ [m]) else s)"

definition base_score :: "pylib \<Rightarrow> action_request \<Rightarrow> score" where
  "base_score L a =
     (let external = has_external_provenance (provenance a);
          s1 = add_note (contains_any SENSITIVE_PATH_MARKERS (normalized_resource a)) (\<lambda>r. r + 7/10)
                 ''resource is security-sensitive'' (0, []);
          s2 = add_note (contains_any PERSISTENCE_PATHS (py_lower L (unquote (resource a)))
                   \<and> capability a \<in> {FS_WRITE_HOME, SECURITY_CONTROL_WRITE}) (\<lambda>r. max r (9/10))
                 ''write targets a resource capable of persisting beyond session'' s1
      in add_note external (\<lambda>r. r + 1/4) ''action is downstream of untrusted external content'' s2)"

definition authority_score :: "action_request \<Rightarrow> score \<Rightarrow> score" where
  "authority_score a s =
     (let external = has_external_provenance (provenance a);
          s1 = add_note (capability a \<in> set HIGH_RISK_CAPABILITIES) (\<lambda>r. r + 11/20) ''high-risk capability'' s;
          s2 = add_note (external \<and> capability a = PROCESS_EXEC) (\<lambda>r. max r (9/10))
                 ''externally influenced process execution requires review'' s1
      in add_note (external \<and> capability a = AGENT_SPAWN) (\<lambda>r. max r (9/10))
           ''externally influenced agent creation requires review'' s2)"

definition outbound_query :: "pylib \<Rightarrow> action_request \<Rightarrow> string" where
  "outbound_query L a =
     (case urlsplit L (unquote (resource a)) of
        Inl _ \<Rightarrow> py_lower L (unquote (resource a))
      | Inr u \<Rightarrow> py_lower L (url_query u))"

definition transfer_score :: "pylib \<Rightarrow> action_request \<Rightarrow> score \<Rightarrow> score" where
  "transfer_score L a s =
     (let external = has_external_provenance (provenance a);
          s1 = add_note (external \<and> capability a = NETWORK_POST) (\<lambda>r. max r (9/10))
                 ''externally influenced outbound data transfer'' s;
          s2 = add_note (capability a \<in> {NETWORK_OUTBOUND, NETWORK_POST}
                   \<and> contains_any SECRET_HINTS (outbound_query L a)) (\<lambda>r. max r (9/10))
                 ''outbound resource contains possible secret-bearing data'' s1;
          s3 = add_note (external_side_effect a) (\<lambda>r. r + 1/4) ''operation has an external side effect'' s2
      in add_note (irreversible a) (\<lambda>r. r + 7/20) ''operation is marked irreversible'' s3)"

definition threshold :: "rat \<Rightarrow> decision" where
  "threshold r = (if r \<ge> 17/20 then ESCALATE else if r \<ge> 11/20 then SANDBOX else ALLOW)"

definition finish_score :: "score \<Rightarrow> evaluation" where
  "finish_score s =
     (let risk = min (fst s) 1 in
      evaluation_of (threshold risk) risk
        (if snd s = [] then [''within explicitly granted capability envelope''] else snd s) False)"

definition brokered_secret :: "pylib \<Rightarrow> action_request \<Rightarrow> bool" where
  "brokered_secret L a \<longleftrightarrow>
     capability a = CREDENTIAL_READ
     \<and> py_strip (py_lower L (operation a)) \<in> set BROKERED_SECRET_OPERATIONS"

definition credential_refusal :: string where
  "credential_refusal = ''externally influenced credential access is forbidden''"

definition policy_evaluate :: "pylib \<Rightarrow> deterministic_policy \<Rightarrow> action_request \<Rightarrow> evaluation" where
  "policy_evaluate L P a =
     (case policy_gates L P a of
        Some e \<Rightarrow> e
      | None \<Rightarrow>
          let external = has_external_provenance (provenance a); s = base_score L a in
          if brokered_secret L a
            then (if external then hard_deny (snd s @ [credential_refusal])
                  else evaluation_of ALLOW (max (fst s) (1/5))
                         [''credential access is mediated by the scoped secret broker''] False)
          else let s2 = authority_score a s in
            if external \<and> capability a = CREDENTIAL_READ then hard_deny (snd s2 @ [credential_refusal])
            else finish_score (transfer_score L a s2))"

section \<open>Scores\<close>

lemma hard_deny_simps [simp]:
  "e_hard_block (hard_deny rs)" "e_decision (hard_deny rs) = DENY" "e_risk (hard_deny rs) = 1"
  by (simp_all add: hard_deny_def)

lemma finish_score_simps [simp]:
  "\<not> e_hard_block (finish_score s)" "e_decision (finish_score s) = threshold (min (fst s) 1)"
  "e_risk (finish_score s) = min (fst s) 1"
  by (simp_all add: finish_score_def Let_def)

lemma fst_add_note [simp]: "fst (add_note b f m s) = (if b then f (fst s) else fst s)"
  by (simp add: add_note_def)

lemma threshold_mono: "r \<le> r' \<Longrightarrow> threshold r \<le> threshold r'"
  by (auto simp: threshold_def)

lemma threshold_high: "17/20 \<le> r \<Longrightarrow> threshold (min r 1) = ESCALATE"
  by (simp add: threshold_def min_def)

lemma threshold_not_DENY [simp]: "threshold r \<noteq> DENY"
  by (simp add: threshold_def)

lemma base_score_fst:
  "fst (base_score L a) =
     (let s = (if contains_any SENSITIVE_PATH_MARKERS (normalized_resource a) then 7/10 else 0);
          t = (if contains_any PERSISTENCE_PATHS (py_lower L (unquote (resource a)))
                 \<and> capability a \<in> {FS_WRITE_HOME, SECURITY_CONTROL_WRITE} then max s (9/10) else s)
      in if has_external_provenance (provenance a) then t + 1/4 else t)"
  unfolding base_score_def Let_def fst_add_note by simp

lemma base_score_nonneg: "0 \<le> fst (base_score L a)"
  unfolding base_score_fst Let_def by (auto simp: max_def)

lemma base_score_internal:
  assumes "\<not> has_external_provenance (provenance a)"
  shows "fst (base_score L a) \<le> 9/10"
  unfolding base_score_fst Let_def using assms by (auto simp: max_def)

lemma authority_score_ge: "fst s \<le> fst (authority_score a s)"
  unfolding authority_score_def Let_def fst_add_note by (auto simp: max_def)

lemma transfer_score_ge: "fst s \<le> fst (transfer_score L a s)"
  unfolding transfer_score_def Let_def fst_add_note by (auto simp: max_def)

lemma total_score_nonneg: "0 \<le> fst (transfer_score L a (authority_score a (base_score L a)))"
  using base_score_nonneg authority_score_ge transfer_score_ge by (meson order_trans)

section \<open>What is blocked\<close>

definition gate_violated :: "pylib \<Rightarrow> deterministic_policy \<Rightarrow> action_request \<Rightarrow> bool" where
  "gate_violated L P a \<longleftrightarrow>
     (\<exists>C. global_capability_ceiling P = Some C \<and> capability a \<notin> C)
     \<or> capability a \<notin> granted_capabilities a
     \<or> (\<exists>C. parent_capabilities a = Some C \<and> capability a \<notin> C)
     \<or> ''..'' \<in> set (path_parts (resource a)) \<or> ''..'' \<in> set (path_parts (unquote (resource a)))
     \<or> outside_project P a
     \<or> (\<exists>m \<in> set CANARY_MARKERS. sublist (py_lower L m) (py_lower L (unquote (resource a))))"

lemma outside_iff: "outside c S \<longleftrightarrow> (\<exists>T. S = Some T \<and> c \<notin> T)"
  by (cases S) (simp_all add: outside_def)

lemma policy_gates_None: "policy_gates L P a = None \<longleftrightarrow> \<not> gate_violated L P a"
  unfolding policy_gates_def gate_violated_def outside_iff contains_any_iff
  by (simp split: if_split)

lemma policy_gates_Some: "policy_gates L P a = Some e \<Longrightarrow> \<exists>rs. e = hard_deny rs"
  unfolding policy_gates_def by (auto split: if_split_asm)

lemma policy_evaluate_gate:
  assumes "gate_violated L P a"
  shows "\<exists>rs. policy_evaluate L P a = hard_deny rs"
  using assms policy_gates_None [of L P a] policy_gates_Some [of L P a]
  by (cases "policy_gates L P a") (auto simp: policy_evaluate_def)

lemma policy_evaluate_open:
  assumes "\<not> gate_violated L P a"
  shows "policy_evaluate L P a =
     (if has_external_provenance (provenance a) \<and> capability a = CREDENTIAL_READ
        then hard_deny (snd (if brokered_secret L a then base_score L a
                             else authority_score a (base_score L a)) @ [credential_refusal])
      else if brokered_secret L a
        then evaluation_of ALLOW (max (fst (base_score L a)) (1/5))
               [''credential access is mediated by the scoped secret broker''] False
      else finish_score (transfer_score L a (authority_score a (base_score L a))))"
  using assms policy_gates_None [of L P a]
  by (auto simp: policy_evaluate_def Let_def brokered_secret_def)

lemma policy_block_is_deny:
  "(e_hard_block (policy_evaluate L P a) \<longleftrightarrow>
      gate_violated L P a \<or> has_external_provenance (provenance a) \<and> capability a = CREDENTIAL_READ)
   \<and> (e_hard_block (policy_evaluate L P a) \<longleftrightarrow> e_decision (policy_evaluate L P a) = DENY)
   \<and> (e_hard_block (policy_evaluate L P a) \<longleftrightarrow>
        e_decision (policy_evaluate L P a) = DENY \<and> e_risk (policy_evaluate L P a) = 1)"
proof (cases "gate_violated L P a")
  case True
  with policy_evaluate_gate [OF True] show ?thesis by auto
next
  case False
  then show ?thesis by (simp add: policy_evaluate_open)
qed


text \<open>
  Risk and decision agree. The risk is always a value in the unit interval; for an action that
  is neither blocked nor a brokered secret access the decision is the threshold of the risk, and a
  brokered secret access is allowed with a risk between 0.2 and 0.9.
\<close>

theorem policy_risk_bounds:
  "0 \<le> e_risk (policy_evaluate L P a) \<and> e_risk (policy_evaluate L P a) \<le> 1
   \<and> (if e_hard_block (policy_evaluate L P a) then e_decision (policy_evaluate L P a) = DENY
      else if brokered_secret L a
        then e_decision (policy_evaluate L P a) = ALLOW
           \<and> 1/5 \<le> e_risk (policy_evaluate L P a) \<and> e_risk (policy_evaluate L P a) \<le> 9/10
      else e_decision (policy_evaluate L P a) = threshold (e_risk (policy_evaluate L P a)))"
proof (cases "gate_violated L P a")
  case True
  with policy_evaluate_gate [OF True] show ?thesis by auto
next
  case False
  have "brokered_secret L a \<Longrightarrow> capability a = CREDENTIAL_READ" by (simp add: brokered_secret_def)
  then show ?thesis
    using total_score_nonneg [of L a] base_score_internal [of a L]
    by (auto simp: policy_evaluate_open [OF False] max_def min_def)
qed

section \<open>Monotonicity\<close>

lemma gate_violated_provenance [simp]:
  "gate_violated L P (a\<lparr>provenance := ps\<rparr>) = gate_violated L P a"
  by (simp add: gate_violated_def outside_project_def normalized_resource_def)

lemma outbound_query_update [simp]:
  "outbound_query L (a\<lparr>provenance := ps\<rparr>) = outbound_query L a"
  "outbound_query L (a\<lparr>granted_capabilities := G, parent_capabilities := Q\<rparr>) = outbound_query L a"
  by (cases "urlsplit L (unquote (resource a))"; simp add: outbound_query_def)+

lemma total_score_external:
  fixes a :: action_request
  assumes "has_external_provenance ps"
  defines "a' \<equiv> a\<lparr>provenance := ps\<rparr>"
  shows "fst (transfer_score L a (authority_score a (base_score L a)))
       \<le> fst (transfer_score L a' (authority_score a' (base_score L a')))"
proof -
  have base: "fst (base_score L a) \<le> fst (base_score L a')"
    unfolding base_score_fst Let_def a'_def normalized_resource_def using assms(1)
    by (simp split: if_split)
  have auth: "fst (authority_score a s) \<le> fst (authority_score a' s')" if "fst s \<le> fst s'" for s s'
    using that assms(1) unfolding authority_score_def Let_def fst_add_note a'_def
    by (simp add: max_def split: if_split)
  have trans: "fst (transfer_score L a s) \<le> fst (transfer_score L a' s')" if "fst s \<le> fst s'" for s s'
    using that assms(1) unfolding transfer_score_def Let_def fst_add_note a'_def
    by (simp add: max_def split: if_split)
  show ?thesis by (intro trans auth base)
qed

text \<open>
  Untrusted provenance never helps. Relabelling an action as coming from untrusted external
  content leaves the decision as strict or makes it stricter; and an externally influenced process
  execution, agent creation or outbound transfer is never allowed or merely sandboxed.
\<close>

theorem external_provenance_never_weakens:
  assumes "has_external_provenance ps"
  shows "e_decision (policy_evaluate L P a) \<le> e_decision (policy_evaluate L P (a\<lparr>provenance := ps\<rparr>))
    \<and> (capability a \<in> {PROCESS_EXEC, AGENT_SPAWN, NETWORK_POST, CREDENTIAL_READ} \<longrightarrow>
        ESCALATE \<le> e_decision (policy_evaluate L P (a\<lparr>provenance := ps\<rparr>)))"
proof (cases "gate_violated L P a")
  case True
  then have "gate_violated L P (a\<lparr>provenance := ps\<rparr>)" by simp
  from policy_evaluate_gate [OF this] show ?thesis by auto
next
  case open_gate: False
  let ?a = "a\<lparr>provenance := ps\<rparr>"
  have open': "\<not> gate_violated L P ?a" using open_gate by simp
  show ?thesis
  proof (cases "capability a = CREDENTIAL_READ")
    case True
    then show ?thesis by (simp add: policy_evaluate_open [OF open'] assms)
  next
    case False
    then have nb: "\<not> brokered_secret L a" "\<not> brokered_secret L ?a" by (simp_all add: brokered_secret_def)
    let ?r = "fst (transfer_score L ?a (authority_score ?a (base_score L ?a)))"
    have mono: "threshold (min (fst (transfer_score L a (authority_score a (base_score L a)))) 1)
        \<le> threshold (min ?r 1)"
      using total_score_external [OF assms] by (intro threshold_mono) (meson min.mono order_refl)
    have "17/20 \<le> ?r" if "capability a \<in> {PROCESS_EXEC, AGENT_SPAWN, NETWORK_POST}"
    proof -
      have "9/10 \<le> fst (authority_score ?a s) \<or> capability a = NETWORK_POST" for s
        using that assms unfolding authority_score_def Let_def fst_add_note by (auto simp: max_def)
      moreover have "9/10 \<le> fst (transfer_score L ?a s)" if "capability a = NETWORK_POST" for s
        using that assms unfolding transfer_score_def Let_def fst_add_note by (auto simp: max_def)
      ultimately have "9/10 \<le> ?r" using transfer_score_ge order_trans by blast
      then show ?thesis by simp
    qed
    then have "ESCALATE \<le> threshold (min ?r 1)"
      if "capability a \<in> {PROCESS_EXEC, AGENT_SPAWN, NETWORK_POST}"
      using that threshold_high by simp
    with mono False nb open_gate open' show ?thesis by (auto simp: policy_evaluate_open)
  qed
qed

definition demo_action :: action_request where
  "demo_action = \<lparr>actor = ''agent'', task = ''build'', operation = ''run'', resource = ''/workspace/x.sh'',
     capability = PROCESS_EXEC, granted_capabilities = {PROCESS_EXEC, FS_READ_PROJECT},
     provenance = [HUMAN], parent_capabilities = None, irreversible = False,
     external_side_effect = False, metadata = []\<rparr>"

theorem external_provenance_never_weakens_witness:
  "e_decision (policy_evaluate plain_lib default_policy demo_action) = ALLOW
   \<and> ESCALATE \<le> e_decision (policy_evaluate plain_lib default_policy (demo_action\<lparr>provenance := [INTERNET]\<rparr>))"
proof -
  have "has_external_provenance [INTERNET]"
    and "e_decision (policy_evaluate plain_lib default_policy demo_action) = ALLOW" by code_simp+
  with external_provenance_never_weakens [of "[INTERNET]" plain_lib default_policy demo_action]
  show ?thesis by (simp add: demo_action_def)
qed

text \<open>
  Authority is monotone. With a smaller ceiling, smaller grants or smaller parent capabilities
  the decision on the same action is as strict or stricter.
\<close>

theorem smaller_authority_never_weakens:
  assumes "granted_capabilities a' \<subseteq> granted_capabilities a"
    and "\<forall>C. global_capability_ceiling P = Some C \<longrightarrow> (\<exists>D. global_capability_ceiling P' = Some D \<and> D \<subseteq> C)"
    and "\<forall>C. parent_capabilities a = Some C \<longrightarrow> (\<exists>D. parent_capabilities a' = Some D \<and> D \<subseteq> C)"
    and same: "a' = a\<lparr>granted_capabilities := granted_capabilities a', parent_capabilities := parent_capabilities a'\<rparr>"
      "project_root P' = project_root P"
  shows "e_decision (policy_evaluate L P a) \<le> e_decision (policy_evaluate L P' a')"
proof (cases "gate_violated L P' a'")
  case True
  with policy_evaluate_gate [OF True] show ?thesis by auto
next
  case False
  obtain G Q where a': "a' = a\<lparr>granted_capabilities := G, parent_capabilities := Q\<rparr>" using same by blast
  have eqs: "brokered_secret L a' = brokered_secret L a" "base_score L a' = base_score L a"
    "authority_score a' = authority_score a" "transfer_score L a' = transfer_score L a"
    "capability a' = capability a" "provenance a' = provenance a" "resource a' = resource a"
    "outside_project P' a' = outside_project P a"
    unfolding a' brokered_secret_def base_score_def authority_score_def transfer_score_def
      normalized_resource_def outside_project_def same(2) by (simp_all add: fun_eq_iff)
  have open_gate: "\<not> gate_violated L P a"
    using False assms(1-3) unfolding gate_violated_def eqs by blast
  show ?thesis by (simp add: policy_evaluate_open [OF False] policy_evaluate_open [OF open_gate] eqs)
qed

theorem smaller_authority_never_weakens_witness:
  "e_decision (policy_evaluate plain_lib default_policy demo_action)
   \<le> e_decision (policy_evaluate plain_lib (default_policy\<lparr>global_capability_ceiling := Some {}\<rparr>)
        (demo_action\<lparr>granted_capabilities := {}\<rparr>))"
  by (rule smaller_authority_never_weakens) (simp_all add: demo_action_def default_policy_def)

end
