(* ===== verification/Session_Guard.thy ===== *)
theory Session_Guard
  imports Policy
begin

text \<open>
  The session guard, \<^verbatim>\<open>src/bulldog/session_guard.py\<close>: per-context histories of actions and results,
  the four behavioural flags and the escalation they cause, and the trimming of the history.
  Histories are dictionaries from the security key to event lists.

  The lemmas show that the guard never weakens an evaluation, never touches another key's
  history, keeps every history within \<open>max_history\<close>, and depends on no descriptive metadata.
\<close>

definition PROJECT_CAPABILITIES :: "capability list" where
  "PROJECT_CAPABILITIES = [FS_READ_PROJECT, FS_WRITE_PROJECT]"

definition PRIVILEGED_CAPABILITIES :: "capability list" where
  "PRIVILEGED_CAPABILITIES = [CREDENTIAL_READ, PROCESS_EXEC, NETWORK_POST, PACKAGE_INSTALL, AGENT_SPAWN,
     SECURITY_CONTROL_WRITE]"

record session_event =
  se_action :: action_request
  se_evaluation :: evaluation

record session_guard =
  max_history :: nat
  history :: "session_event list dict"

definition new_session_guard :: session_guard where
  "new_session_guard = \<lparr>max_history = 32, history = []\<rparr>"

definition session_key :: "action_request \<Rightarrow> string" where
  "session_key a =
     (case dict_get (metadata a) ''security_context_id'' of
        None \<Rightarrow> ''actor:'' @ actor a
      | Some c \<Rightarrow> if c \<noteq> [] then ''security-context:'' @ c else ''actor:'' @ actor a)"

definition last_three :: "'a list \<Rightarrow> 'a list" where
  "last_three xs = drop (length xs - 3) xs"

definition session_flags :: "session_event list \<Rightarrow> action_request \<Rightarrow> string list" where
  "session_flags events a =
     (let previous_actions = map se_action events;
          recent_caps = map capability (last_three previous_actions) @ [capability a] in
      (if capability a = CREDENTIAL_READ
           \<and> list_ex (\<lambda>b. capability b \<in> set PROJECT_CAPABILITIES) previous_actions
           \<and> \<not> list_ex (\<lambda>b. capability b = CREDENTIAL_READ) previous_actions
       then [''GOAL_DRIFT''] else [])
      @ (if capability a \<in> set PRIVILEGED_CAPABILITIES \<and> previous_actions \<noteq> []
           \<and> list_all (\<lambda>b. capability b \<notin> set PRIVILEGED_CAPABILITIES) (last_three previous_actions)
         then [''AUTHORITY_SHIFT''] else [])
      @ (if events \<noteq> []
           \<and> e_decision (se_evaluation (last events)) \<in> {SANDBOX, ESCALATE, DENY}
           \<and> capability a \<noteq> capability (se_action (last events))
         then [''ALTERNATE_PATH_AFTER_RESTRICTION''] else [])
      @ (if length recent_caps \<ge> 4 \<and> card (set recent_caps) \<ge> 4 then [''TOOL_SHOPPING''] else []))"

definition apply_flags :: "string list \<Rightarrow> evaluation \<Rightarrow> evaluation" where
  "apply_flags flags e =
     (if flags = [] then e
      else evaluation_of (max (e_decision e) ESCALATE) (max (e_risk e) (9/10))
             (e_reasons e @ map (\<lambda>f. ''session behavior: '' @ f) flags) (e_hard_block e))"

text \<open>
  \<open>del events[:-n]\<close> keeps the last \<open>n\<close> elements; for \<open>n = 0\<close> the slice is \<open>[:0]\<close> and deletes nothing.
\<close>

definition remember :: "nat \<Rightarrow> session_event list \<Rightarrow> action_request \<Rightarrow> evaluation \<Rightarrow> session_event list" where
  "remember n events a e =
     (let es = events @ [\<lparr>se_action = a, se_evaluation = e\<rparr>] in
      if length es > n then (if n = 0 then es else drop (length es - n) es) else es)"

definition events_of :: "session_guard \<Rightarrow> string \<Rightarrow> session_event list" where
  "events_of g k = (case dict_get (history g) k of None \<Rightarrow> [] | Some es \<Rightarrow> es)"

definition enforce :: "session_guard \<Rightarrow> action_request \<Rightarrow> evaluation \<Rightarrow> evaluation \<times> session_guard" where
  "enforce g a e =
     (let k = session_key a; events = events_of g k;
          result = (if e_hard_block e then e else apply_flags (session_flags events a) e)
      in (result, g\<lparr>history := dict_set k (remember (max_history g) events a result) (history g)\<rparr>))"

definition clear :: "string option \<Rightarrow> session_guard \<Rightarrow> session_guard" where
  "clear sid g = (case sid of None \<Rightarrow> g\<lparr>history := []\<rparr> | Some k \<Rightarrow> g\<lparr>history := dict_pop k (history g)\<rparr>)"

section \<open>Histories\<close>

definition guard_inv :: "session_guard \<Rightarrow> bool" where
  "guard_inv g \<longleftrightarrow> (\<forall>k. length (events_of g k) \<le> max_history g)"

lemma length_remember: "0 < n \<Longrightarrow> length (remember n es a e) = min n (Suc (length es))"
  by (simp add: remember_def Let_def)

lemma remember_snoc:
  "0 < n \<Longrightarrow> \<exists>old. remember n es a e = old @ [\<lparr>se_action = a, se_evaluation = e\<rparr>] \<and> suffix old es"
proof -
  assume n: "0 < n"
  define es' where "es' = drop (Suc (length es) - n) es"
  have "remember n es a e = es' @ [\<lparr>se_action = a, se_evaluation = e\<rparr>]"
    using n by (auto simp: remember_def Let_def es'_def)
  then show ?thesis by (auto simp: es'_def suffix_drop)
qed

lemma events_of_enforce:
  "events_of (snd (enforce g a e)) k =
     (if k = session_key a then remember (max_history g) (events_of g k) a (fst (enforce g a e))
      else events_of g k)"
  by (simp add: enforce_def Let_def events_of_def)

lemma enforce_max_history [simp]: "max_history (snd (enforce g a e)) = max_history g"
  by (simp add: enforce_def Let_def)

lemma apply_flags_le: "e_decision e \<le> e_decision (apply_flags fs e)"
  "e_risk e \<le> e_risk (apply_flags fs e)" "prefix (e_reasons e) (e_reasons (apply_flags fs e))"
  "e_hard_block (apply_flags fs e) = e_hard_block e"
  by (auto simp: apply_flags_def)

text \<open>
  The guard never weakens. Its result is at least as strict and at least as risky as the
  evaluation it received, keeps its reasons and its hard-block flag, and it is stricter than ALLOW
  and SANDBOX exactly when a behavioural flag is raised on a non-blocked action.
\<close>

theorem session_guard_never_weakens:
  "e_decision e \<le> e_decision (fst (enforce g a e)) \<and> e_risk e \<le> e_risk (fst (enforce g a e))
   \<and> prefix (e_reasons e) (e_reasons (fst (enforce g a e)))
   \<and> e_hard_block (fst (enforce g a e)) = e_hard_block e
   \<and> (fst (enforce g a e) = e \<or> ESCALATE \<le> e_decision (fst (enforce g a e)))
   \<and> (e_hard_block e \<or> (fst (enforce g a e) = e \<and> session_flags (events_of g (session_key a)) a = [])
      \<or> (session_flags (events_of g (session_key a)) a \<noteq> [] \<and> ESCALATE \<le> e_decision (fst (enforce g a e))))"
proof (cases "e_hard_block e")
  case True
  then show ?thesis by (simp add: enforce_def Let_def)
next
  case False
  let ?fs = "session_flags (events_of g (session_key a)) a"
  have r: "fst (enforce g a e) = apply_flags ?fs e" using False by (simp add: enforce_def Let_def)
  show ?thesis
  proof (cases "?fs = []")
    case True
    with r have "fst (enforce g a e) = e" by (simp add: apply_flags_def)
    with True show ?thesis by simp
  next
    case ne: False
    then have "ESCALATE \<le> e_decision (apply_flags ?fs e)" by (simp add: apply_flags_def)
    with ne show ?thesis by (simp add: r apply_flags_le)
  qed
qed

interpretation guard: stateful_object
    "\<lambda>(a, e) g. enforce g a e" "\<lambda>g. 0 < max_history g \<and> guard_inv g"
    "\<lambda>g h. max_history h = max_history g
       \<and> (\<forall>k. events_of g k \<noteq> [] \<longrightarrow> events_of h k \<noteq> [])"
proof (unfold_locales, goal_cases)
  case (1 g x)
  obtain a e where x: "x = (a, e)" by (cases x)
  have "length (events_of (snd (enforce g a e)) k) \<le> max_history g" for k
    using 1 by (auto simp: guard_inv_def events_of_enforce length_remember)
  with 1 show ?case by (simp add: x guard_inv_def)
next
  case (2 g x)
  obtain a e where x: "x = (a, e)" by (cases x)
  have "remember (max_history g) es a r \<noteq> []" for es r
    using 2 remember_snoc [of "max_history g" es a r] by auto
  then show ?case by (simp add: x events_of_enforce)
qed auto

definition guard_session :: "(action_request \<times> evaluation) list \<Rightarrow> session_guard \<Rightarrow> session_guard" where
  "guard_session xs g = snd (run_ops (\<lambda>(a, e) g. enforce g a e) xs g)"

lemma guard_session_other_key:
  "\<forall>(a, e) \<in> set xs. session_key a \<noteq> k \<Longrightarrow> events_of (guard_session xs g) k = events_of g k"
  unfolding guard_session_def by (induction xs arbitrary: g) (auto simp: events_of_enforce)

text \<open>
  Bounded, isolated histories. From a guard whose histories fit a positive \<open>max_history\<close>, any
  sequence of evaluations keeps every history within the bound, never empties a history that was
  non-empty (no action resets behavioural memory), and leaves the history of every key that no
  action of the sequence has unchanged.
\<close>

theorem session_history_bounded_isolated:
  assumes "0 < max_history g" and "guard_inv g"
  shows "(\<forall>k. length (events_of (guard_session xs g) k) \<le> max_history g)
    \<and> (\<forall>k. events_of g k \<noteq> [] \<longrightarrow> events_of (guard_session xs g) k \<noteq> [])
    \<and> (\<forall>k. (\<forall>(a, e) \<in> set xs. session_key a \<noteq> k) \<longrightarrow> events_of (guard_session xs g) k = events_of g k)"
proof -
  have i: "0 < max_history g \<and> guard_inv g" using assms by simp
  from guard.run_inv [OF i, of xs] guard.run_below [OF i, of xs] show ?thesis
    using guard_session_other_key by (auto simp: guard_session_def guard_inv_def)
qed

theorem session_history_bounded_isolated_witness:
  "length (events_of (guard_session (replicate 40 (demo_action, evaluation_of ALLOW 0 [] False))
      new_session_guard) ''actor:agent'') \<le> 32"
proof -
  have "guard_inv new_session_guard" by (simp add: guard_inv_def new_session_guard_def events_of_def)
  moreover have "max_history new_session_guard = 32" by (simp add: new_session_guard_def)
  ultimately show ?thesis
    using session_history_bounded_isolated [of new_session_guard] by simp
qed

lemma session_flags_metadata [simp]:
  "session_flags es (a\<lparr>metadata := m\<rparr>) = session_flags es a"
  by (simp add: session_flags_def)

text \<open>
  A session identifier is descriptive only. Whatever value a caller puts into the metadata
  under any key other than \<open>security_context_id\<close>, the action is judged against the same history
  and gets the same result.
\<close>

theorem session_id_cannot_reset_history:
  assumes "k \<noteq> ''security_context_id''"
  shows "session_key (a\<lparr>metadata := dict_set k v (metadata a)\<rparr>) = session_key a
    \<and> fst (enforce g (a\<lparr>metadata := dict_set k v (metadata a)\<rparr>) e) = fst (enforce g a e)"
proof -
  have "session_key (a\<lparr>metadata := dict_set k v (metadata a)\<rparr>) = session_key a"
    using assms
    by (cases "dict_get (metadata a) ''security_context_id''") (simp_all add: session_key_def)
  then show ?thesis by (simp add: enforce_def Let_def)
qed

theorem session_id_cannot_reset_history_witness:
  "session_key (demo_action\<lparr>metadata := [(''session_id'', ''fresh'')]\<rparr>) = ''actor:agent''"
  using session_id_cannot_reset_history
    [where k = "''session_id''" and a = demo_action and v = "''fresh''"]
  by (simp add: demo_action_def session_key_def)

lemma flags_after_restriction:
  assumes "es \<noteq> []" and "e_decision (se_evaluation (last es)) \<noteq> ALLOW"
    and "capability a \<noteq> capability (se_action (last es))"
  shows "session_flags es a \<noteq> []"
proof -
  have "e_decision (se_evaluation (last es)) \<in> {SANDBOX, ESCALATE, DENY}"
    using assms(2) by (cases "e_decision (se_evaluation (last es))") simp_all
  with assms(1,3) show ?thesis by (simp add: session_flags_def Let_def)
qed

text \<open>
  No alternate path after a restriction. Once an action of a security context was sandboxed,
  escalated or denied, the next action of that context with another capability is escalated or
  denied (unless the policy has already hard-blocked it), no matter how many actions of other
  contexts come between.
\<close>

theorem alternate_path_escalates:
  assumes "0 < max_history g" and "e_decision (fst (enforce g a1 e1)) \<noteq> ALLOW"
    and "\<forall>(b, e) \<in> set xs. session_key b \<noteq> session_key a1"
    and "session_key a2 = session_key a1" and "capability a2 \<noteq> capability a1"
    and "\<not> e_hard_block e2"
  shows "ESCALATE \<le> e_decision (fst (enforce (guard_session xs (snd (enforce g a1 e1))) a2 e2))"
proof -
  let ?h = "guard_session xs (snd (enforce g a1 e1))"
  have "events_of ?h (session_key a2)
      = remember (max_history g) (events_of g (session_key a1)) a1 (fst (enforce g a1 e1))"
    using assms(4) guard_session_other_key [OF assms(3)] by (simp add: events_of_enforce)
  moreover obtain old where "remember (max_history g) (events_of g (session_key a1)) a1 (fst (enforce g a1 e1))
      = old @ [\<lparr>se_action = a1, se_evaluation = fst (enforce g a1 e1)\<rparr>]"
    using remember_snoc [OF assms(1)] by blast
  ultimately have "session_flags (events_of ?h (session_key a2)) a2 \<noteq> []"
    using assms(2,5) by (intro flags_after_restriction) simp_all
  with assms(6) show ?thesis by (simp add: enforce_def Let_def apply_flags_def)
qed

theorem alternate_path_escalates_witness:
  "ESCALATE \<le> e_decision (fst (enforce
     (guard_session [(demo_action\<lparr>actor := ''other''\<rparr>, evaluation_of ALLOW 0 [] False)]
       (snd (enforce new_session_guard demo_action (evaluation_of SANDBOX (3/5) [] False))))
     (demo_action\<lparr>capability := FS_READ_PROJECT\<rparr>) (evaluation_of ALLOW 0 [] False)))"
proof (rule alternate_path_escalates)
  show "0 < max_history new_session_guard" by (simp add: new_session_guard_def)
  show "e_decision (fst (enforce new_session_guard demo_action (evaluation_of SANDBOX (3/5) [] False))) \<noteq> ALLOW"
    by code_simp
qed (simp_all add: demo_action_def session_key_def)

text \<open>
  The bound needs a positive \<open>max_history\<close>: with 0 the trimming slice deletes nothing, so
  the history of a context grows by one event with every evaluation.
\<close>

theorem zero_history_grows:
  assumes "max_history g = 0"
  shows "length (events_of (guard_session (replicate n (a, e)) g) (session_key a))
       = n + length (events_of g (session_key a))"
  using assms unfolding guard_session_def
  by (induction n arbitrary: g) (simp_all add: events_of_enforce remember_def Let_def)

theorem zero_history_grows_witness:
  "length (events_of (guard_session (replicate 50 (demo_action, evaluation_of ALLOW 0 [] False))
      \<lparr>max_history = 0, history = []\<rparr>) ''actor:agent'') = 50"
  using zero_history_grows [of "\<lparr>max_history = 0, history = []\<rparr>" 50 demo_action "evaluation_of ALLOW 0 [] False"]
  by (simp add: demo_action_def session_key_def events_of_def)

end
