(* ===== verification/Py_Json.thy ===== *)
theory Py_Json
  imports Py_Text
begin

text \<open>
  \<open>json.dumps(value, sort_keys=True, separators=...)\<close> with \<open>ensure_ascii\<close>, as the audit ledger,
  the anchor service and the approval protocol use it, and the conversions \<open>int(...)\<close> and
  \<open>str(...)\<close> of loaded values.
\<close>

definition hex_digit :: "nat \<Rightarrow> char" where
  "hex_digit n = (if n < 10 then char_of (48 + n) else char_of (87 + n))"

definition hex4 :: "nat \<Rightarrow> string" where
  "hex4 n = map (\<lambda>i. hex_digit (n div 16 ^ i mod 16)) [3, 2, 1, 0]"

definition u_escape :: "nat \<Rightarrow> string" where
  "u_escape n = backslash # ''u'' @ hex4 n"

text \<open>Code points beyond the basic plane become a surrogate pair.\<close>

definition escape_point :: "nat \<Rightarrow> string" where
  "escape_point n =
     (if n < 65536 then u_escape n
      else u_escape (55296 + (n - 65536) div 1024 mod 1024) @ u_escape (56320 + (n - 65536) mod 1024))"

definition escape_ascii :: "char \<Rightarrow> string" where
  "escape_ascii c =
     (if c = backslash then [backslash, backslash]
      else if code c = 34 then [backslash, c]
      else if code c = 10 then backslash # ''n''
      else if code c = 13 then backslash # ''r''
      else if code c = 9 then backslash # ''t''
      else if code c = 12 then backslash # ''f''
      else if code c = 8 then backslash # ''b''
      else if code c < 32 \<or> code c = 127 then u_escape (code c)
      else [c])"

lemma char_code_eq: "n < 256 \<Longrightarrow> (of_char c = (n::nat)) = (c = char_of n)"
  by (metis char_of_char of_char_of mod_less of_char_mod_256)

lemma control_code: "(of_char c < (32::nat)) = (\<not> digit5 c \<and> \<not> digit6 c \<and> \<not> digit7 c)"
  by (cases c) (auto simp: of_char_Char split: if_splits)

lemma escape_ascii_code [code]:
  "escape_ascii c =
     (if c = CHR 0x5C then [CHR 0x5C, CHR 0x5C]
      else if c = CHR 0x22 then [CHR 0x5C, c]
      else if c = CHR 0x0A then CHR 0x5C # ''n''
      else if c = CHR 0x0D then CHR 0x5C # ''r''
      else if c = CHR 0x09 then CHR 0x5C # ''t''
      else if c = CHR 0x0C then CHR 0x5C # ''f''
      else if c = CHR 0x08 then CHR 0x5C # ''b''
      else if \<not> digit5 c \<and> \<not> digit6 c \<and> \<not> digit7 c \<or> c = CHR 0x7F then u_escape (of_char c)
      else [c])"
proof -
  have points: "char_of (34::nat) = CHR 0x22" "char_of (10::nat) = CHR 0x0A" "char_of (13::nat) = CHR 0x0D"
    "char_of (9::nat) = CHR 0x09" "char_of (12::nat) = CHR 0x0C" "char_of (8::nat) = CHR 0x08"
    "char_of (127::nat) = CHR 0x7F" "backslash = CHR 0x5C" by code_simp+
  show ?thesis unfolding escape_ascii_def control_code by (simp add: char_code_eq points)
qed

definition lead_length :: "char \<Rightarrow> nat" where
  "lead_length c = (if code c < 224 then 2 else if code c < 240 then 3 else (4::nat))"

definition decode_point :: "char \<Rightarrow> string \<Rightarrow> nat" where
  "decode_point c s =
     (let n = lead_length c; top = (if n = 2 then code c mod 32 else if n = 3 then code c mod 16 else code c mod 8)
      in foldl (\<lambda>a b. 64 * a + code b mod 64) top (take (n - 1) s))"

function json_chars :: "string \<Rightarrow> string" where
  "json_chars [] = []"
| "json_chars (c # s) =
     (if is_ascii c then escape_ascii c @ json_chars s
      else escape_point (decode_point c s) @ json_chars (drop (lead_length c - 1) s))"
  by pat_completeness auto
termination
  by (relation "measure length") auto

definition quote_char :: char where
  "quote_char = char_of (34::nat)"

lemma quote_char_code [code]: "quote_char = CHR 0x22"
  unfolding quote_char_def by code_simp

definition json_string :: "string \<Rightarrow> string" where
  "json_string s = quote_char # json_chars s @ [quote_char]"

fun dumps :: "pylib \<Rightarrow> string \<Rightarrow> string \<Rightarrow> json \<Rightarrow> string" where
  "dumps L isep ksep JNull = ''null''"
| "dumps L isep ksep (JBool b) = (if b then ''true'' else ''false'')"
| "dumps L isep ksep (JInt i) = int_str i"
| "dumps L isep ksep (JFloat q) = float_repr L q"
| "dumps L isep ksep (JStr s) = json_string s"
| "dumps L isep ksep (JArr vs) = ''['' @ py_join isep (map (dumps L isep ksep) vs) @ '']''"
| "dumps L isep ksep (JObj kvs) =
     ''{'' @ py_join isep (map (\<lambda>(k, t). json_string k @ ksep @ t)
        (sort_key fst (map (\<lambda>(k, v). (k, dumps L isep ksep v)) kvs))) @ ''}''"

abbreviation dumps_compact :: "pylib \<Rightarrow> json \<Rightarrow> string" where
  "dumps_compact L \<equiv> dumps L '','' '':''"

abbreviation dumps_spaced :: "pylib \<Rightarrow> json \<Rightarrow> string" where
  "dumps_spaced L \<equiv> dumps L '', '' '': ''"

type_synonym jobj = "(string \<times> json) list"

text \<open>\<open>d.get(k)\<close> on a loaded object: an absent key and \<open>null\<close> are both \<open>None\<close>.\<close>

definition jget :: "jobj \<Rightarrow> string \<Rightarrow> json" where
  "jget d k = (case dict_get d k of None \<Rightarrow> JNull | Some v \<Rightarrow> v)"

lemma jget_set [simp]: "jget (dict_set k v d) k' = (if k' = k then v else jget d k')"
  by (simp add: jget_def)

definition opt_jstr :: "string option \<Rightarrow> json" where
  "opt_jstr x = (case x of None \<Rightarrow> JNull | Some s \<Rightarrow> JStr s)"

lemma opt_jstr_simps [simp]: "opt_jstr None = JNull" "opt_jstr (Some s) = JStr s"
  by (simp_all add: opt_jstr_def)

lemma opt_jstr_inj [simp]: "opt_jstr x = opt_jstr y \<longleftrightarrow> x = y"
  by (cases x; cases y) simp_all

text \<open>\<open>int(v)\<close>: integers, booleans, floats (towards zero) and decimal strings.\<close>

fun digits_underscore :: "bool \<Rightarrow> string \<Rightarrow> nat \<Rightarrow> nat option" where
  "digits_underscore prev [] n = (if prev then Some n else None)"
| "digits_underscore prev (c # s) n =
     (if 48 \<le> code c \<and> code c \<le> 57 then digits_underscore True s (10 * n + (code c - 48))
      else if c = CHR ''_'' \<and> prev then digits_underscore False s n
      else None)"

definition int_of_string :: "string \<Rightarrow> int res" where
  "int_of_string s =
     (let t = py_strip s; neg = prefix ''-'' t; u = (if neg \<or> prefix ''+'' t then tl t else t) in
      case digits_underscore False u 0 of
        None \<Rightarrow> raise ValueError ''invalid literal for int() with base 10''
      | Some n \<Rightarrow> Inr (if neg then - int n else int n))"

fun int_of_json :: "json \<Rightarrow> int res" where
  "int_of_json (JInt i) = Inr i"
| "int_of_json (JBool b) = Inr (if b then 1 else 0)"
| "int_of_json (JFloat q) = Inr (if q < 0 then - \<lfloor>- q\<rfloor> else \<lfloor>q\<rfloor>)"
| "int_of_json (JStr s) = int_of_string s"
| "int_of_json v = raise TypeError ''int() argument must be a string or a real number''"

fun str_of_json :: "pylib \<Rightarrow> json \<Rightarrow> string" where
  "str_of_json L (JStr s) = s"
| "str_of_json L JNull = ''None''"
| "str_of_json L (JBool b) = (if b then ''True'' else ''False'')"
| "str_of_json L (JInt i) = int_str i"
| "str_of_json L (JFloat q) = float_repr L q"
| "str_of_json L v = json_repr L v"

text \<open>\<open>d[k]\<close> on a loaded value.\<close>

definition jindex :: "json \<Rightarrow> string \<Rightarrow> json res" where
  "jindex j k =
     (case j of
        JObj d \<Rightarrow> (case dict_get d k of None \<Rightarrow> raise KeyError k | Some v \<Rightarrow> Inr v)
      | _ \<Rightarrow> raise TypeError ''value is not subscriptable by a key'')"

text \<open>\<open>hmac.compare_digest\<close> on two strings refuses non-ASCII arguments.\<close>

definition compare_digest :: "string \<Rightarrow> string \<Rightarrow> bool res" where
  "compare_digest a b =
     (if \<not> ascii_text a \<or> \<not> ascii_text b
        then raise TypeError ''comparing strings with non-ASCII characters is not supported''
      else Inr (a = b))"

text \<open>A hexadecimal SHA-256 digest.\<close>

definition hex64 :: "string \<Rightarrow> bool" where
  "hex64 s \<longleftrightarrow> length s = 64 \<and> list_all (\<lambda>c. c \<in> set ''0123456789abcdef'') s"

lemma hex64_ascii: "hex64 s \<Longrightarrow> ascii_text s"
proof -
  have "list_all is_ascii ''0123456789abcdef''" by code_simp
  then have "c \<in> set ''0123456789abcdef'' \<Longrightarrow> is_ascii c" for c unfolding list_all_iff by blast
  then show "hex64 s \<Longrightarrow> ascii_text s" unfolding hex64_def ascii_text_def list_all_iff by blast
qed

lemma strip_hex_line:
  assumes "hex64 s"
  shows "py_strip (s @ [char_of (10::nat)]) = s"
proof -
  let ?hex = "''0123456789abcdef''" and ?nl = "char_of (10::nat) :: char"
  have hd_ok: "list_all (\<lambda>c. is_ascii c \<and> \<not> (9 \<le> code c \<and> code c \<le> 13 \<or> 28 \<le> code c \<and> code c \<le> 32)) ?hex"
    by code_simp
  have plain: "is_ascii c \<and> \<not> (9 \<le> code c \<and> code c \<le> 13 \<or> 28 \<le> code c \<and> code c \<le> 32)" if "c \<in> set s" for c
    using that assms hd_ok unfolding hex64_def list_all_iff by blast
  have ne: "s \<noteq> []" using assms by (auto simp: hex64_def)
  obtain c s' where s: "s = c # s'" using ne by (cases s) auto
  have "space_len (s @ [?nl]) = 0" using plain [of c] s by (simp add: space_len_def)
  then have l: "py_lstrip (s @ [?nl]) = s @ [?nl]" by (simp add: py_lstrip.simps)
  have "rspace_len (s @ [?nl]) = 1" by (simp add: rspace_len_def is_ascii_def)
  moreover have "rspace_len s = 0" using plain [of "last s"] ne by (simp add: rspace_len_def)
  ultimately have "py_rstrip (s @ [?nl]) = s"
    by (simp add: py_rstrip.simps [of "s @ [?nl]"] py_rstrip.simps [of s])
  with l show ?thesis by (simp add: py_strip_def)
qed

end
