(* ===== verification/Anchor_Service.thy ===== *)
theory Anchor_Service
  imports Py_Json
begin

text \<open>
  The audit collector, \<^verbatim>\<open>src/bulldog/anchor_service.py\<close>: canonical encoding, session keys, message
  authentication, frame decoding and the checkpoint store with its HTTP handler. A frame off the
  wire is its length together with what the JSON parser makes of it (\<open>None\<close> when it is not JSON);
  the size of the database file is the function \<open>db_bytes\<close> of its rows. HMAC is the library's.

  The lemmas show that each session's checkpoints form a gap-free chain linked by hashes, that
  rows are only ever appended, that an exact retry is idempotent, and that the collector never
  acknowledges two different heads for one sequence number of a session.
\<close>

definition MAX_FRAME :: int where
  "MAX_FRAME = 65536"

abbreviation anchor_error :: "string \<Rightarrow> 'a res" where
  "anchor_error m \<equiv> raise AnchorError m"

definition canonical :: "pylib \<Rightarrow> jobj \<Rightarrow> string" where
  "canonical L v = dumps_compact L (JObj v)"

definition anchor_session_key :: "pylib \<Rightarrow> string \<Rightarrow> json \<Rightarrow> string res" where
  "anchor_session_key L master session =
     (case session of
        JStr s \<Rightarrow>
          if length master < 32 \<or> \<not> hex64 s then anchor_error ''invalid session or master key''
          else Inr (hmac_raw L master (''bull-anchor-session-v1:'' @ s))
      | _ \<Rightarrow> anchor_error ''invalid session or master key'')"

definition body_of :: "jobj \<Rightarrow> jobj" where
  "body_of payload = filter (\<lambda>(k, v). k \<noteq> ''mac'') payload"

definition mac_of :: "pylib \<Rightarrow> jobj \<Rightarrow> string \<Rightarrow> string \<Rightarrow> string" where
  "mac_of L payload key purpose =
     hmac_hex L key (purpose @ [char_of (0::nat)] @ canonical L (body_of payload))"

definition authenticate :: "pylib \<Rightarrow> jobj \<Rightarrow> string \<Rightarrow> string \<Rightarrow> jobj" where
  "authenticate L payload key purpose = body_of payload @ [(''mac'', JStr (mac_of L payload key purpose))]"

definition verify_mac :: "pylib \<Rightarrow> jobj \<Rightarrow> string \<Rightarrow> string \<Rightarrow> unit res" where
  "verify_mac L payload key purpose =
     (case jget payload ''mac'' of
        JStr supplied \<Rightarrow>
          (case compare_digest supplied (mac_of L payload key purpose) of
             Inl e \<Rightarrow> Inl e
           | Inr same \<Rightarrow> if same then Inr () else anchor_error ''authentication failed'')
      | _ \<Rightarrow> anchor_error ''authentication failed'')"

definition checkpoint :: "pylib \<Rightarrow> string \<Rightarrow> nat \<Rightarrow> jobj \<Rightarrow> string \<Rightarrow> bool \<Rightarrow> jobj res" where
  "checkpoint L session sequence record key include_record =
     (case dict_get record ''record_hash'' of
        None \<Rightarrow> raise KeyError ''record_hash''
      | Some h \<Rightarrow>
          let base = [(''version'', JInt 1), (''session'', JStr session), (''sequence'', JInt (int sequence)),
                      (''head_hash'', h)] in
          if include_record
            then Inr (authenticate L (base @ [(''record'', JObj record)]) key ''checkpoint'')
          else (case dict_get record ''previous_hash'' of
                  None \<Rightarrow> raise KeyError ''previous_hash''
                | Some p \<Rightarrow> Inr (authenticate L (base @ [(''previous_hash'', p)]) key ''checkpoint'')))"

section \<open>Frames\<close>

record wire_frame =
  wf_length :: int
  wf_value :: "json option"

fun dup_free :: "json \<Rightarrow> bool" where
  "dup_free (JArr vs) = list_all dup_free vs"
| "dup_free (JObj kvs) = (distinct (map fst kvs) \<and> list_all (\<lambda>(k, v). dup_free v) kvs)"
| "dup_free _ = True"

definition decode :: "wire_frame \<Rightarrow> jobj res" where
  "decode raw =
     (if wf_length raw > MAX_FRAME then anchor_error ''frame exceeds size limit''
      else case wf_value raw of
        None \<Rightarrow> anchor_error ''invalid JSON frame''
      | Some v \<Rightarrow>
          if \<not> dup_free v then anchor_error ''invalid JSON frame''
          else (case v of JObj d \<Rightarrow> Inr d | _ \<Rightarrow> anchor_error ''frame must be an object''))"

section \<open>The checkpoint store\<close>

record checkpoint_row =
  row_session :: string
  row_sequence :: int
  row_head :: string
  row_frame :: string

record anchor_store =
  as_master :: string
  as_max_bytes :: int
  checkpoints :: "checkpoint_row list"

definition new_anchor_store :: "string \<Rightarrow> int \<Rightarrow> anchor_store res" where
  "new_anchor_store master max_bytes =
     (if length master < 32 then anchor_error ''master key must contain at least 32 bytes''
      else Inr \<lparr>as_master = master, as_max_bytes = max_bytes, checkpoints = []\<rparr>)"

definition rows_of :: "anchor_store \<Rightarrow> string \<Rightarrow> checkpoint_row list" where
  "rows_of st s = filter (\<lambda>r. row_session r = s) (checkpoints st)"

text \<open>\<open>SELECT ... WHERE session=? ORDER BY sequence DESC LIMIT 1\<close>.\<close>

definition last_row :: "anchor_store \<Rightarrow> string \<Rightarrow> checkpoint_row option" where
  "last_row st s =
     (let rs = sort_key row_sequence (rows_of st s) in if rs = [] then None else Some (last rs))"

definition base_fields :: "string set" where
  "base_fields = {''version'', ''session'', ''sequence'', ''head_hash'', ''mac''}"

definition fields_ok :: "jobj \<Rightarrow> bool" where
  "fields_ok m \<longleftrightarrow>
     (fst ` set m = insert ''record'' base_fields \<or> fst ` set m = insert ''previous_hash'' base_fields)
     \<and> jget m ''version'' = JInt 1"

text \<open>The predecessor's hash that a message claims, after the checks on its record.\<close>

definition claimed_previous :: "pylib \<Rightarrow> jobj \<Rightarrow> string \<Rightarrow> json res" where
  "claimed_previous L m head =
     (case dict_get m ''record'' of
        None \<Rightarrow> Inr (jget m ''previous_hash'')
      | Some (JObj record) \<Rightarrow>
          if jget record ''record_hash'' \<noteq> JStr head
             \<or> sha256_hex L (canonical L (filter (\<lambda>(k, v). k \<noteq> ''record_hash'') record)) \<noteq> head
          then anchor_error ''record hash mismatch'' else Inr (jget record ''previous_hash'')
      | Some _ \<Rightarrow> anchor_error ''invalid record'')"

text \<open>Everything that \<open>accept\<close> checks before it opens the database.\<close>

record checked_message =
  cm_session :: string
  cm_key :: string
  cm_sequence :: int
  cm_head :: string
  cm_previous :: json

definition check_message :: "pylib \<Rightarrow> anchor_store \<Rightarrow> jobj \<Rightarrow> checked_message res" where
  "check_message L st m =
     (if \<not> fields_ok m then anchor_error ''invalid checkpoint fields''
      else case anchor_session_key L (as_master st) (jget m ''session'') of
        Inl e \<Rightarrow> Inl e
      | Inr key \<Rightarrow>
          if int (length (canonical L m)) > MAX_FRAME then anchor_error ''frame exceeds size limit''
          else (case verify_mac L m key ''checkpoint'' of
                  Inl e \<Rightarrow> Inl e
                | Inr _ \<Rightarrow>
                    (case jget m ''sequence'' of
                       JInt seq \<Rightarrow>
                         if \<not> (1 \<le> seq \<and> seq \<le> 1000000) then anchor_error ''invalid sequence''
                         else (case jget m ''head_hash'' of
                                 JStr head \<Rightarrow>
                                   if \<not> hex64 head then anchor_error ''invalid record''
                                   else (case claimed_previous L m head of
                                           Inl e \<Rightarrow> Inl e
                                         | Inr prev \<Rightarrow>
                                             (case jget m ''session'' of
                                                JStr s \<Rightarrow> Inr \<lparr>cm_session = s, cm_key = key, cm_sequence = seq,
                                                             cm_head = head, cm_previous = prev\<rparr>
                                              | _ \<Rightarrow> anchor_error ''invalid session or master key''))
                               | _ \<Rightarrow> anchor_error ''invalid record'')
                     | _ \<Rightarrow> anchor_error ''invalid sequence'')))"

definition acknowledgement :: "pylib \<Rightarrow> checked_message \<Rightarrow> jobj" where
  "acknowledgement L c =
     authenticate L [(''version'', JInt 1), (''session'', JStr (cm_session c)), (''sequence'', JInt (cm_sequence c)),
        (''head_hash'', JStr (cm_head c)), (''accepted'', JBool True)] (cm_key c) ''acknowledgement''"

definition new_row :: "pylib \<Rightarrow> checked_message \<Rightarrow> jobj \<Rightarrow> checkpoint_row" where
  "new_row L c m = \<lparr>row_session = cm_session c, row_sequence = cm_sequence c, row_head = cm_head c,
     row_frame = canonical L m\<rparr>"

definition accept ::
  "pylib \<Rightarrow> (checkpoint_row list \<Rightarrow> int) \<Rightarrow> jobj \<Rightarrow> anchor_store \<Rightarrow> jobj res \<times> anchor_store" where
  "accept L db_bytes m st =
     (case check_message L st m of
        Inl e \<Rightarrow> (Inl e, st)
      | Inr c \<Rightarrow>
          let frame = canonical L m; last_r = last_row st (cm_session c) in
          if (case last_r of None \<Rightarrow> False | Some r \<Rightarrow> cm_sequence c = row_sequence r \<and> frame = row_frame r)
            then (Inr (acknowledgement L c), st)
          else if cm_sequence c \<noteq> (case last_r of None \<Rightarrow> 1 | Some r \<Rightarrow> row_sequence r + 1)
               \<or> cm_previous c \<noteq> (case last_r of None \<Rightarrow> JNull | Some r \<Rightarrow> JStr (row_head r))
            then (anchor_error ''checkpoint replay or conflicting history'', st)
          else if db_bytes (checkpoints st) + int (length frame) + 16384 > as_max_bytes st
            then (anchor_error ''audit storage budget exhausted'', st)
          else (Inr (acknowledgement L c), st\<lparr>checkpoints := checkpoints st @ [new_row L c m]\<rparr>))"

section \<open>The HTTP handler\<close>

record http_post =
  hp_path :: string
  hp_content_lengths :: "string list"
  hp_transfer_encoding :: "string option"
  hp_available :: int
  hp_body :: "int \<Rightarrow> wire_frame"

text \<open>\<open>hp_body n\<close> is the frame read for a declared length \<open>n\<close>; \<open>hp_available\<close> bytes arrive.\<close>

definition do_POST ::
  "pylib \<Rightarrow> (checkpoint_row list \<Rightarrow> int) \<Rightarrow> http_post \<Rightarrow> anchor_store \<Rightarrow> (nat \<times> jobj) \<times> anchor_store" where
  "do_POST L db_bytes req st =
     (let rejected = ((409, [(''error'', JStr ''checkpoint rejected'')]), st) in
      if hp_path req \<noteq> ''/v1/checkpoints'' \<or> length (hp_content_lengths req) \<noteq> 1
         \<or> (case hp_transfer_encoding req of None \<Rightarrow> False | Some t \<Rightarrow> t \<noteq> [])
        then rejected
      else case int_of_string (hd (hp_content_lengths req)) of
        Inl e \<Rightarrow> rejected
      | Inr len \<Rightarrow>
          if \<not> (0 < len \<and> len \<le> MAX_FRAME) then rejected
          else if hp_available req < len then rejected
          else (case decode (hp_body req len) of
                  Inl e \<Rightarrow> rejected
                | Inr m \<Rightarrow> (case accept L db_bytes m st of
                              (Inl e, st') \<Rightarrow> ((409, [(''error'', JStr ''checkpoint rejected'')]), st')
                            | (Inr ack, st') \<Rightarrow> ((200, ack), st'))))"

section \<open>A frame determines its head\<close>

lemma sort_key_hd_min:
  assumes "x \<in> set xs" and "\<forall>y \<in> set xs. fst x \<le> fst y" and "distinct (map fst xs)"
  shows "\<exists>rest. sort_key fst xs = x # rest"
proof -
  have ne: "sort_key fst xs \<noteq> []" using assms(1) by (metis empty_iff list.set(1) set_sort)
  then obtain y ys where ys: "sort_key fst xs = y # ys" by (cases "sort_key fst xs") auto
  then have y: "y \<in> set xs" by (metis list.set_intros(1) set_sort)
  have "fst y \<le> fst x"
  proof -
    have "sorted (map fst (y # ys))" using ys by (metis sorted_sort_key)
    moreover have "x \<in> set (y # ys)" using assms(1) ys by (metis set_sort)
    ultimately show ?thesis by (auto simp: sorted_simps)
  qed
  then have "fst y = fst x" using assms(2) y by (meson order_antisym)
  with assms(1,3) y have "y = x" by (meson eq_key_imp_eq_value prod.collapse inj_onD distinct_map)
  with ys show ?thesis by blast
qed

lemma json_string_hex64: "hex64 h \<Longrightarrow> json_string h = quote_char # h @ [quote_char]"
proof -
  have "list_all (\<lambda>c. is_ascii c \<and> escape_ascii c = [c]) ''0123456789abcdef''" by code_simp
  then have plain: "c \<in> set ''0123456789abcdef'' \<Longrightarrow> is_ascii c \<and> escape_ascii c = [c]" for c
    unfolding list_all_iff by blast
  have "list_all (\<lambda>c. c \<in> set ''0123456789abcdef'') s \<Longrightarrow> json_chars s = s" for s
    by (induction s) (use plain in \<open>auto simp del: list.set\<close>)
  then show "hex64 h \<Longrightarrow> json_string h = quote_char # h @ [quote_char]"
    by (simp add: hex64_def json_string_def)
qed

lemma head_key_least: "k \<in> insert ''record'' (insert ''previous_hash'' base_fields) \<Longrightarrow> ''head_hash'' \<le> k"
proof -
  have "list_all (\<lambda>k. ''head_hash'' \<le> k)
      [''record'', ''previous_hash'', ''version'', ''session'', ''sequence'', ''head_hash'', ''mac'']" by code_simp
  then show "k \<in> insert ''record'' (insert ''previous_hash'' base_fields) \<Longrightarrow> ''head_hash'' \<le> k"
    unfolding base_fields_def list_all_iff by (auto simp del: less_eq_list_code)
qed

definition frame_start :: string where
  "frame_start = ''{'' @ json_string ''head_hash'' @ '':'' @ [quote_char]"

lemma frame_has_head:
  assumes "fields_ok m" and "distinct (map fst m)" and "jget m ''head_hash'' = JStr h" and "hex64 h"
  shows "\<exists>rest. canonical L m = frame_start @ h @ rest"
proof -
  let ?xs = "map (\<lambda>(k, v). (k, dumps_compact L v)) m"
  have keys: "map fst ?xs = map fst m" by (induction m) auto
  have "(''head_hash'', JStr h) \<in> set m"
    using assms(3) by (cases "dict_get m ''head_hash''") (auto simp: jget_def dest: map_of_SomeD)
  then have mem: "(''head_hash'', json_string h) \<in> set ?xs" by force
  have least: "\<forall>y \<in> set ?xs. ''head_hash'' \<le> fst y"
  proof
    fix y
    assume "y \<in> set ?xs"
    then have "fst y \<in> fst ` set m" by force
    with assms(1) have "fst y \<in> insert ''record'' (insert ''previous_hash'' base_fields)"
      by (auto simp: fields_ok_def)
    then show "''head_hash'' \<le> fst y" by (rule head_key_least)
  qed
  have d: "distinct (map fst ?xs)" unfolding keys by (rule assms(2))
  have "\<forall>y \<in> set ?xs. fst (''head_hash'', json_string h) \<le> fst y" using least by (simp only: fst_conv)
  from sort_key_hd_min [OF mem this d] obtain rest where
    r: "sort_key fst ?xs = (''head_hash'', json_string h) # rest" by blast
  have "\<exists>tl. py_join '','' (map (\<lambda>(k, t). json_string k @ '':'' @ t) ((''head_hash'', json_string h) # rest))
      = json_string ''head_hash'' @ '':'' @ json_string h @ tl"
    by (cases rest) auto
  then show ?thesis
    unfolding canonical_def frame_start_def by (auto simp: r json_string_hex64 [OF assms(4)])
qed

lemma same_frame_same_head:
  assumes "fields_ok m" "distinct (map fst m)" "jget m ''head_hash'' = JStr h" "hex64 h"
    and "fields_ok m'" "distinct (map fst m')" "jget m' ''head_hash'' = JStr h'" "hex64 h'"
    and "canonical L m = canonical L m'"
  shows "h = h'"
proof -
  obtain r r' where "canonical L m = frame_start @ h @ r" "canonical L m' = frame_start @ h' @ r'"
    using frame_has_head assms by meson
  with assms(9) have "h @ r = h' @ r'" by simp
  moreover have "length h = length h'" using assms(4,8) by (simp add: hex64_def)
  ultimately show ?thesis by simp
qed

lemma check_message_Inr:
  assumes "check_message L st m = Inr c"
  shows "fields_ok m" and "jget m ''session'' = JStr (cm_session c)" and "jget m ''sequence'' = JInt (cm_sequence c)"
    and "jget m ''head_hash'' = JStr (cm_head c)" and "hex64 (cm_head c)"
    and "anchor_session_key L (as_master st) (JStr (cm_session c)) = Inr (cm_key c)"
    and "verify_mac L m (cm_key c) ''checkpoint'' = Inr ()" and "1 \<le> cm_sequence c"
  using assms unfolding check_message_def
  by (auto split: if_split_asm sum.split_asm json.split_asm)

lemma check_message_master:
  "as_master st' = as_master st \<Longrightarrow> check_message L st' m = check_message L st m"
  by (simp add: check_message_def)

section \<open>The store's chains\<close>

definition session_chain :: "pylib \<Rightarrow> anchor_store \<Rightarrow> (checked_message \<times> jobj) list \<Rightarrow> bool" where
  "session_chain L st xs \<longleftrightarrow>
     (\<forall>i < length xs. let c = fst (xs ! i); m = snd (xs ! i) in
        check_message L st m = Inr c \<and> distinct (map fst m) \<and> cm_sequence c = int i + 1
        \<and> cm_previous c = (if i = 0 then JNull else JStr (cm_head (fst (xs ! (i - 1))))))"

definition store_inv :: "pylib \<Rightarrow> anchor_store \<Rightarrow> bool" where
  "store_inv L st \<longleftrightarrow>
     (\<forall>s. \<exists>xs. rows_of st s = map (\<lambda>(c, m). new_row L c m) xs \<and> session_chain L st xs)"

lemma session_chain_nth:
  "session_chain L st xs \<Longrightarrow> i < length xs \<Longrightarrow> cm_sequence (fst (xs ! i)) = int i + 1"
  by (simp add: session_chain_def Let_def)

lemma session_chain_master:
  "as_master st' = as_master st \<Longrightarrow> session_chain L st' xs = session_chain L st xs"
  unfolding session_chain_def using check_message_master [of st' st L] by simp

lemma session_chain_snoc:
  assumes "session_chain L st xs" and "check_message L st m = Inr c" and "distinct (map fst m)"
    and "cm_sequence c = int (length xs) + 1"
    and "cm_previous c = (if xs = [] then JNull else JStr (cm_head (fst (last xs))))"
  shows "session_chain L st (xs @ [(c, m)])"
proof -
  have old: "check_message L st (snd (xs ! i)) = Inr (fst (xs ! i)) \<and> distinct (map fst (snd (xs ! i)))
      \<and> cm_sequence (fst (xs ! i)) = int i + 1
      \<and> cm_previous (fst (xs ! i)) = (if i = 0 then JNull else JStr (cm_head (fst (xs ! (i - 1)))))"
    if "i < length xs" for i
    using assms(1) that by (simp add: session_chain_def Let_def)
  show ?thesis
    unfolding session_chain_def Let_def
  proof (intro allI impI)
    fix i
    assume "i < length (xs @ [(c, m)])"
    then consider "i < length xs" | "i = length xs" by fastforce
    then show "check_message L st (snd ((xs @ [(c, m)]) ! i)) = Inr (fst ((xs @ [(c, m)]) ! i))
      \<and> distinct (map fst (snd ((xs @ [(c, m)]) ! i))) \<and> cm_sequence (fst ((xs @ [(c, m)]) ! i)) = int i + 1
      \<and> cm_previous (fst ((xs @ [(c, m)]) ! i)) =
          (if i = 0 then JNull else JStr (cm_head (fst ((xs @ [(c, m)]) ! (i - 1)))))"
    proof cases
      case 1
      moreover from 1 have "i - 1 < length xs" by simp
      ultimately show ?thesis using old [OF 1] by (simp add: nth_append)
    next
      case 2
      then show ?thesis using assms(2-5) by (simp add: nth_append last_conv_nth)
    qed
  qed
qed

lemma row_sequence_nth:
  assumes "rows_of st s = map (\<lambda>(c, m). new_row L c m) xs" and "session_chain L st xs"
  shows "map row_sequence (rows_of st s) = map (\<lambda>i. int i + 1) [0..<length xs]"
  using assms(1) session_chain_nth [OF assms(2)]
  by (intro nth_equalityI) (simp_all add: new_row_def case_prod_beta)

lemma last_row_chain:
  assumes "rows_of st s = map (\<lambda>(c, m). new_row L c m) xs" and "session_chain L st xs"
  shows "last_row st s = (if xs = [] then None else Some (new_row L (fst (last xs)) (snd (last xs))))"
proof -
  have "sorted (map row_sequence (rows_of st s))"
    unfolding row_sequence_nth [OF assms] by (simp add: sorted_iff_nth_mono)
  then have "sort_key row_sequence (rows_of st s) = rows_of st s" by (rule sort_key_id_if_sorted)
  then show ?thesis using assms(1) by (simp add: last_row_def Let_def last_map case_prod_beta)
qed

lemma rows_unique:
  assumes "store_inv L st" and "r \<in> set (checkpoints st)" and "r' \<in> set (checkpoints st)"
    and "row_session r = row_session r'" and "row_sequence r = row_sequence r'"
  shows "r = r'"
proof -
  let ?rows = "rows_of st (row_session r)"
  from assms(1) obtain xs where xs: "?rows = map (\<lambda>(c, m). new_row L c m) xs" "session_chain L st xs"
    by (auto simp: store_inv_def)
  have d: "distinct (map row_sequence ?rows)"
    unfolding row_sequence_nth [OF xs] by (simp add: distinct_map inj_on_def)
  have "r \<in> set ?rows" "r' \<in> set ?rows" using assms(2-4) by (simp_all add: rows_of_def)
  with d assms(5) show ?thesis by (meson distinct_map inj_onD)
qed

lemma accept_cases:
  assumes "accept L db_bytes m st = (r, st')"
  obtains (refused) e where "r = Inl e" "st' = st"
  | (retry) c row where "check_message L st m = Inr c" "last_row st (cm_session c) = Some row"
      "cm_sequence c = row_sequence row" "canonical L m = row_frame row"
      "r = Inr (acknowledgement L c)" "st' = st"
  | (fresh) c where "check_message L st m = Inr c"
      "cm_sequence c = (case last_row st (cm_session c) of None \<Rightarrow> 1 | Some r \<Rightarrow> row_sequence r + 1)"
      "cm_previous c = (case last_row st (cm_session c) of None \<Rightarrow> JNull | Some r \<Rightarrow> JStr (row_head r))"
      "r = Inr (acknowledgement L c)" "st' = st\<lparr>checkpoints := checkpoints st @ [new_row L c m]\<rparr>"
proof (cases "check_message L st m")
  case (Inl e)
  with assms show ?thesis by (auto simp: accept_def intro: refused)
next
  case c: (Inr c)
  show ?thesis
  proof (cases "last_row st (cm_session c)")
    case None
    with assms c show ?thesis
      by (auto simp: accept_def Let_def split: if_split_asm intro: refused fresh)
  next
    case (Some row)
    with assms c show ?thesis
      by (auto simp: accept_def Let_def split: if_split_asm intro: refused retry fresh)
  qed
qed

lemma accept_append_only:
  assumes "accept L db_bytes m st = (r, st')"
  shows "prefix (checkpoints st) (checkpoints st') \<and> as_master st' = as_master st \<and> as_max_bytes st' = as_max_bytes st"
  using assms by (cases rule: accept_cases) simp_all

lemma accept_inv:
  assumes inv: "store_inv L st" and d: "distinct (map fst m)" and a: "accept L db_bytes m st = (r, st')"
  shows "store_inv L st'"
  using a
proof (cases rule: accept_cases)
  case (fresh c)
  from inv obtain xs where xs: "rows_of st (cm_session c) = map (\<lambda>(c, m). new_row L c m) xs"
      "session_chain L st xs" by (auto simp: store_inv_def)
  have "session_chain L st (xs @ [(c, m)])"
  proof (rule session_chain_snoc [OF xs(2) fresh(1) d])
    show "cm_sequence c = int (length xs) + 1"
      using fresh(2) session_chain_nth [OF xs(2), of "length xs - 1"]
      by (auto simp: last_row_chain [OF xs] new_row_def last_conv_nth)
    show "cm_previous c = (if xs = [] then JNull else JStr (cm_head (fst (last xs))))"
      using fresh(3) by (simp add: last_row_chain [OF xs] new_row_def)
  qed
  moreover have m': "as_master st' = as_master st" by (simp add: fresh)
  moreover have "rows_of st' (cm_session c) = map (\<lambda>(c, m). new_row L c m) (xs @ [(c, m)])"
    using xs(1) by (simp add: fresh rows_of_def new_row_def)
  moreover have "rows_of st' s = rows_of st s" if "s \<noteq> cm_session c" for s
    using that by (simp add: fresh rows_of_def new_row_def)
  ultimately show ?thesis using inv unfolding store_inv_def by (metis session_chain_master)
qed (use inv in simp_all)

section \<open>Acknowledgements\<close>

lemma acknowledgement_fields:
  "jget (acknowledgement L c) ''session'' = JStr (cm_session c)"
  "jget (acknowledgement L c) ''sequence'' = JInt (cm_sequence c)"
  "jget (acknowledgement L c) ''head_hash'' = JStr (cm_head c)"
  by (simp_all add: acknowledgement_def authenticate_def body_of_def jget_def)

definition ack_for_row :: "jobj \<Rightarrow> checkpoint_row \<Rightarrow> bool" where
  "ack_for_row ack r \<longleftrightarrow> jget ack ''session'' = JStr (row_session r)
     \<and> jget ack ''sequence'' = JInt (row_sequence r) \<and> jget ack ''head_hash'' = JStr (row_head r)"

lemma ack_for_new_row: "ack_for_row (acknowledgement L c) (new_row L c m)"
  by (simp add: ack_for_row_def acknowledgement_fields new_row_def)

lemma accept_ack_row:
  assumes inv: "store_inv L st" and d: "distinct (map fst m)" and a: "accept L db_bytes m st = (Inr ack, st')"
  shows "\<exists>r \<in> set (checkpoints st'). ack_for_row ack r"
  using a
proof (cases rule: accept_cases)
  case (retry c row)
  let ?s = "cm_session c"
  from inv obtain xs where xs: "rows_of st ?s = map (\<lambda>(c, m). new_row L c m) xs"
      "session_chain L st xs" by (auto simp: store_inv_def)
  define c0 m0 where "c0 = fst (last xs)" and "m0 = snd (last xs)"
  have ne: "xs \<noteq> []" and row: "row = new_row L c0 m0"
    using retry(2) by (auto simp: last_row_chain [OF xs] c0_def m0_def split: if_splits)
  have old: "check_message L st m0 = Inr c0" "distinct (map fst m0)"
    using xs(2) ne by (simp_all add: session_chain_def Let_def last_conv_nth c0_def m0_def)
  have "canonical L m = canonical L m0" using retry(4) row by (simp add: new_row_def)
  then have head: "cm_head c = cm_head c0"
    using same_frame_same_head d old check_message_Inr(1,4,5) [OF retry(1)] check_message_Inr(1,4,5) [OF old(1)]
    by blast
  have "row \<in> set (rows_of st ?s)" using row xs(1) ne by (force simp: c0_def m0_def)
  then have "row \<in> set (checkpoints st')" "row_session row = ?s" using retry by (simp_all add: rows_of_def)
  moreover have "ack = acknowledgement L c" using retry(5) by simp
  ultimately have "ack_for_row ack row"
    using head retry(3) row by (simp add: ack_for_row_def acknowledgement_fields new_row_def)
  with \<open>row \<in> set (checkpoints st')\<close> show ?thesis by blast
next
  case (fresh c)
  then have "ack = acknowledgement L c" "new_row L c m \<in> set (checkpoints st')" by simp_all
  then show ?thesis using ack_for_new_row by blast
qed simp

lemma decode_distinct: "decode raw = Inr m \<Longrightarrow> distinct (map fst m)"
  unfolding decode_def by (auto split: if_split_asm option.split_asm json.split_asm)

lemma do_POST_cases:
  obtains (rejected) "do_POST L db_bytes req st = ((409, [(''error'', JStr ''checkpoint rejected'')]), st)"
  | (refused) len m e st' where "decode (hp_body req len) = Inr m" "accept L db_bytes m st = (Inl e, st')"
      "do_POST L db_bytes req st = ((409, [(''error'', JStr ''checkpoint rejected'')]), st')"
  | (accepted) len m ack st' where "decode (hp_body req len) = Inr m" "accept L db_bytes m st = (Inr ack, st')"
      "do_POST L db_bytes req st = ((200, ack), st')"
proof -
  consider (r) "do_POST L db_bytes req st = ((409, [(''error'', JStr ''checkpoint rejected'')]), st)"
    | (a) m len where "decode (hp_body req len) = Inr m"
      "do_POST L db_bytes req st = (case accept L db_bytes m st of
         (Inl e, st') \<Rightarrow> ((409, [(''error'', JStr ''checkpoint rejected'')]), st')
       | (Inr ack, st') \<Rightarrow> ((200, ack), st'))"
  proof (cases "int_of_string (hd (hp_content_lengths req))")
    case (Inl e)
    then show ?thesis using r by (simp add: do_POST_def Let_def)
  next
    case (Inr len)
    show ?thesis
    proof (cases "decode (hp_body req len)")
      case (Inl e)
      with Inr show ?thesis using r by (simp add: do_POST_def Let_def)
    next
      case m: (Inr m)
      have "do_POST L db_bytes req st = ((409, [(''error'', JStr ''checkpoint rejected'')]), st)
          \<or> do_POST L db_bytes req st = (case accept L db_bytes m st of
              (Inl e, st') \<Rightarrow> ((409, [(''error'', JStr ''checkpoint rejected'')]), st')
            | (Inr ack, st') \<Rightarrow> ((200, ack), st'))"
        unfolding do_POST_def Let_def Inr by (simp add: m)
      with r a [OF m] show ?thesis by blast
    qed
  qed
  then show ?thesis
  proof cases
    case r
    then show ?thesis by (rule rejected)
  next
    case (a m len)
    obtain x st' where x: "accept L db_bytes m st = (x, st')" by fastforce
    show ?thesis
    proof (cases x)
      case (Inl e)
      with a(2) x show ?thesis by (intro refused [OF a(1)]) simp_all
    next
      case (Inr ack)
      with a(2) x show ?thesis by (intro accepted [OF a(1)]) simp_all
    qed
  qed
qed

lemma do_POST_step:
  "prefix (checkpoints st) (checkpoints (snd (do_POST L db_bytes req st)))
   \<and> as_master (snd (do_POST L db_bytes req st)) = as_master st
   \<and> (store_inv L st \<longrightarrow> store_inv L (snd (do_POST L db_bytes req st)))"
proof (cases rule: do_POST_cases [of L db_bytes req st])
  case rejected
  then show ?thesis by simp
next
  case (refused len m e st')
  then show ?thesis
    using accept_append_only [OF refused(2)] accept_inv [OF _ decode_distinct [OF refused(1)] refused(2)] by simp
next
  case (accepted len m ack st')
  then show ?thesis
    using accept_append_only [OF accepted(2)] accept_inv [OF _ decode_distinct [OF accepted(1)] accepted(2)] by simp
qed

interpretation collector: stateful_object "do_POST L db_bytes" "store_inv L"
    "\<lambda>st st'. prefix (checkpoints st) (checkpoints st') \<and> as_master st' = as_master st"
  for L db_bytes
  by unfold_locales (use do_POST_step in \<open>auto intro: prefix_order.trans\<close>)

definition serve :: "pylib \<Rightarrow> (checkpoint_row list \<Rightarrow> int) \<Rightarrow> http_post list \<Rightarrow> anchor_store \<Rightarrow> (nat \<times> jobj) list \<times> anchor_store" where
  "serve L db_bytes reqs st = run_ops (do_POST L db_bytes) reqs st"

lemma new_anchor_store_inv: "new_anchor_store master n = Inr st \<Longrightarrow> store_inv L st"
  by (auto simp: new_anchor_store_def store_inv_def rows_of_def session_chain_def split: if_splits)

lemma served_ack_row:
  assumes "store_inv L st" and "(200, ack) \<in> set (fst (serve L db_bytes reqs st))"
  shows "\<exists>r \<in> set (checkpoints (snd (serve L db_bytes reqs st))). ack_for_row ack r"
  using assms
proof (induction reqs arbitrary: st)
  case Nil
  then show ?case by (simp add: serve_def)
next
  case (Cons req reqs)
  let ?st = "snd (do_POST L db_bytes req st)"
  have inv: "store_inv L ?st" using Cons.prems(1) do_POST_step by blast
  consider (now) "fst (do_POST L db_bytes req st) = (200, ack)"
    | (later) "(200, ack) \<in> set (fst (serve L db_bytes reqs ?st))"
    using Cons.prems(2) by (auto simp: serve_def)
  then show ?case
  proof cases
    case now
    have "\<exists>r \<in> set (checkpoints ?st). ack_for_row ack r"
    proof (cases rule: do_POST_cases [of L db_bytes req st])
      case (accepted len m a st')
      with now accept_ack_row [OF Cons.prems(1) decode_distinct [OF accepted(1)] accepted(2)] show ?thesis by simp
    qed (use now in simp_all)
    moreover have "prefix (checkpoints ?st) (checkpoints (snd (serve L db_bytes reqs ?st)))"
      using collector.run_below [OF inv, of db_bytes reqs] by (simp add: serve_def)
    ultimately show ?thesis by (auto simp: serve_def dest: set_mono_prefix)
  next
    case later
    with Cons.IH [OF inv] show ?thesis by (simp add: serve_def)
  qed
qed

text \<open>
  C23. The collector's history. Starting from a new store, after any sequence of HTTP requests the
  rows of every session are the authenticated checkpoints 1, 2, 3, ... without gap, each naming its
  predecessor's head (the first naming none), and every request extends the table at its end only.
\<close>

theorem collector_history_is_chain:
  assumes "new_anchor_store master n = Inr st"
  shows "store_inv L (snd (serve L db_bytes reqs st))
    \<and> prefix (checkpoints (snd (serve L db_bytes reqs st))) (checkpoints (snd (serve L db_bytes (reqs @ reqs') st)))"
proof -
  note inv = new_anchor_store_inv [OF assms, of L]
  have i: "store_inv L (snd (serve L db_bytes reqs st))"
    using collector.run_inv [OF inv] by (simp add: serve_def)
  with collector.run_below [OF i, of db_bytes reqs'] show ?thesis
    by (simp add: serve_def run_ops_append)
qed

definition demo_session :: string where
  "demo_session = replicate 64 (CHR ''b'')"

definition demo_master :: string where
  "demo_master = replicate 32 (CHR ''k'')"

definition demo_record :: jobj where
  "demo_record = [(''record_hash'', JStr (replicate 64 (CHR ''a''))), (''previous_hash'', JNull)]"

definition demo_frame :: wire_frame where
  "demo_frame = \<lparr>wf_length = 400, wf_value = Some (JObj
     (case anchor_session_key plain_lib demo_master (JStr demo_session) of
        Inl _ \<Rightarrow> []
      | Inr key \<Rightarrow> (case checkpoint plain_lib demo_session 1 demo_record key False of Inl _ \<Rightarrow> [] | Inr m \<Rightarrow> m)))\<rparr>"

definition demo_post :: http_post where
  "demo_post = \<lparr>hp_path = ''/v1/checkpoints'', hp_content_lengths = [''400''], hp_transfer_encoding = None,
     hp_available = 400, hp_body = (\<lambda>n. demo_frame)\<rparr>"

definition demo_store :: anchor_store where
  "demo_store = \<lparr>as_master = demo_master, as_max_bytes = 1000000, checkpoints = []\<rparr>"

lemma new_demo_store: "new_anchor_store demo_master 1000000 = Inr demo_store"
  by (simp add: new_anchor_store_def demo_store_def demo_master_def)

lemma demo_served:
  "length (checkpoints (snd (serve plain_lib (\<lambda>rs. 4096) [demo_post] demo_store))) = 1
   \<and> map fst (fst (serve plain_lib (\<lambda>rs. 4096) [demo_post] demo_store)) = [200]"
  by code_simp

theorem collector_history_is_chain_witness:
  "store_inv plain_lib (snd (serve plain_lib (\<lambda>rs. 4096) [demo_post] demo_store))
   \<and> length (checkpoints (snd (serve plain_lib (\<lambda>rs. 4096) [demo_post] demo_store))) = 1"
  using collector_history_is_chain [OF new_demo_store] demo_served by blast

text \<open>
  No equivocation. However many requests a collector with a sound store serves, two positive
  responses for the same session and sequence number carry the same head hash.
\<close>

theorem collector_never_equivocates:
  assumes "store_inv L st"
    and "(200, ack1) \<in> set (fst (serve L db_bytes reqs st))" and "(200, ack2) \<in> set (fst (serve L db_bytes reqs st))"
    and "jget ack1 ''session'' = jget ack2 ''session''" and "jget ack1 ''sequence'' = jget ack2 ''sequence''"
  shows "jget ack1 ''head_hash'' = jget ack2 ''head_hash''"
proof -
  let ?st = "snd (serve L db_bytes reqs st)"
  have inv: "store_inv L ?st" using collector.run_inv [OF assms(1)] by (simp add: serve_def)
  obtain r1 r2 where r: "r1 \<in> set (checkpoints ?st)" "ack_for_row ack1 r1"
      "r2 \<in> set (checkpoints ?st)" "ack_for_row ack2 r2"
    using served_ack_row [OF assms(1)] assms(2,3) by blast
  with assms(4,5) have "r1 = r2" by (intro rows_unique [OF inv r(1,3)]) (simp_all add: ack_for_row_def)
  with r show ?thesis by (simp add: ack_for_row_def)
qed

theorem collector_never_equivocates_witness:
  "\<exists>ack1 ack2. {(200, ack1), (200, ack2)} \<subseteq> set (fst (serve plain_lib (\<lambda>rs. 4096) [demo_post] demo_store))
     \<and> jget ack1 ''head_hash'' = jget ack2 ''head_hash''"
proof -
  have "200 \<in> fst ` set (fst (serve plain_lib (\<lambda>rs. 4096) [demo_post] demo_store))"
    using demo_served by (metis list.set_intros(1) set_map)
  then obtain ack where a: "(200, ack) \<in> set (fst (serve plain_lib (\<lambda>rs. 4096) [demo_post] demo_store))"
    by force
  with collector_never_equivocates [OF new_anchor_store_inv [OF new_demo_store] a a] show ?thesis by blast
qed

text \<open>
  A lost acknowledgement is harmless. Sending an accepted checkpoint again returns the same
  acknowledgement and leaves the store unchanged.
\<close>

theorem collector_retry_idempotent:
  assumes "store_inv L st" and "distinct (map fst m)" and "accept L db_bytes m st = (Inr ack, st')"
  shows "accept L db_bytes m st' = (Inr ack, st')"
  using assms(3)
proof (cases rule: accept_cases)
  case (retry c row)
  with assms(3) show ?thesis by simp
next
  case (fresh c)
  have inv': "store_inv L st'" using assms by (rule accept_inv)
  then obtain xs where xs: "rows_of st' (cm_session c) = map (\<lambda>(c, m). new_row L c m) xs" "session_chain L st' xs"
    by (auto simp: store_inv_def)
  have "rows_of st' (cm_session c) = rows_of st (cm_session c) @ [new_row L c m]"
    by (simp add: fresh(5) rows_of_def new_row_def)
  moreover have last_new: "ys \<noteq> [] \<Longrightarrow> last (map (\<lambda>(c, m). new_row L c m) ys) = new_row L (fst (last ys)) (snd (last ys))"
    for ys by (simp add: last_map case_prod_beta)
  ultimately have "map (\<lambda>(c, m). new_row L c m) xs = rows_of st (cm_session c) @ [new_row L c m]"
    using xs(1) by simp
  then have "xs \<noteq> []" "new_row L (fst (last xs)) (snd (last xs)) = new_row L c m"
    using last_new [of xs] by (cases "xs = []"; simp)+
  then have "last_row st' (cm_session c) = Some (new_row L c m)" using last_row_chain [OF xs] by simp
  moreover have "check_message L st' m = Inr c" using fresh(1,5) check_message_master [of st' st L m] by simp
  moreover have "ack = acknowledgement L c" using fresh(4) by simp
  ultimately show ?thesis by (simp add: accept_def Let_def new_row_def)
qed simp

theorem collector_retry_idempotent_witness:
  "\<exists>m ack st'. decode demo_frame = Inr m \<and> accept plain_lib (\<lambda>rs. 4096) m demo_store = (Inr ack, st')
     \<and> accept plain_lib (\<lambda>rs. 4096) m st' = (Inr ack, st')"
proof -
  have "result_sat (decode demo_frame) (\<lambda>m. returns (fst (accept plain_lib (\<lambda>rs. 4096) m demo_store)))" by code_simp
  then obtain m where m: "decode demo_frame = Inr m" "returns (fst (accept plain_lib (\<lambda>rs. 4096) m demo_store))"
    by (rule result_satE)
  then obtain ack st' where "accept plain_lib (\<lambda>rs. 4096) m demo_store = (Inr ack, st')"
    by (metis prod.collapse returns_iff)
  with collector_retry_idempotent [OF new_anchor_store_inv [OF new_demo_store] decode_distinct [OF m(1)]] m(1)
  show ?thesis by blast
qed

end
