(* ===== verification/Audit_Transport.thy ===== *)
theory Audit_Transport
  imports Anchor_Service Py_Url
begin

text \<open>
  The client side of anchoring, \<^verbatim>\<open>src/bulldog/audit_transport.py\<close>: the session identity and its
  check of acknowledgements, the HTTPS transport and the host relay. The network is a function
  from the posted message to a status and a response frame, over a world of any type; the relay
  port's byte-wise deadline loops are not modelled.

  The lemmas show that a transport that returns an acknowledgement has received one that is
  authentic for exactly the submitted session, sequence and head, and that the relay acknowledges
  only what both the local evidence store and the upstream collector accepted.
\<close>

record anchor_identity =
  ai_session :: string
  ai_key :: string

definition new_identity :: "pylib \<Rightarrow> string \<Rightarrow> string \<Rightarrow> anchor_identity res" where
  "new_identity L session key =
     (case anchor_session_key L key (JStr session) of
        Inl e \<Rightarrow> Inl e
      | Inr _ \<Rightarrow> Inr \<lparr>ai_session = session, ai_key = key\<rparr>)"

definition expected_ack :: "anchor_identity \<Rightarrow> nat \<Rightarrow> json \<Rightarrow> jobj" where
  "expected_ack ident sequence head =
     [(''version'', JInt 1), (''session'', JStr (ai_session ident)), (''sequence'', JInt (int sequence)),
      (''head_hash'', head), (''accepted'', JBool True)]"

definition check_ack :: "pylib \<Rightarrow> anchor_identity \<Rightarrow> jobj \<Rightarrow> nat \<Rightarrow> json \<Rightarrow> unit res" where
  "check_ack L ident ack sequence head =
     (case verify_mac L ack (ai_key ident) ''acknowledgement'' of
        Inl e \<Rightarrow> Inl e
      | Inr _ \<Rightarrow>
          if canonical L (body_of ack) \<noteq> canonical L (expected_ack ident sequence head)
          then anchor_error ''acknowledgement identity mismatch'' else Inr ())"

record https_transport =
  ht_endpoint :: string
  ht_identity :: anchor_identity
  ht_production_ready :: bool

definition new_https_transport ::
  "pylib \<Rightarrow> string \<Rightarrow> anchor_identity \<Rightarrow> rat \<Rightarrow> bool \<Rightarrow> https_transport res" where
  "new_https_transport L endpoint ident timeout test_ca =
     (case urlsplit L endpoint of
        Inl e \<Rightarrow> Inl e
      | Inr u \<Rightarrow>
          if url_scheme u \<noteq> ''https'' \<or> \<not> opt_truthy (url_hostname L u) \<or> opt_truthy (url_username u)
             \<or> opt_truthy (url_password u) \<or> url_fragment u \<noteq> []
          then anchor_error ''anchor requires a credential-free HTTPS endpoint''
          else if \<not> (0 < timeout \<and> timeout \<le> 30)
          then anchor_error ''anchor timeout must be between 0 and 30 seconds''
          else Inr \<lparr>ht_endpoint = endpoint, ht_identity = ident,
                 ht_production_ready = (\<not> test_ca \<and> url_hostname L u \<notin> Some ` {''localhost'', ''127.0.0.1'', ''::1''})\<rparr>)"

text \<open>
  \<open>exchange m w\<close>: the response to the posted message \<open>m\<close> (redirects and network failures are
  exceptions), and the world after it.
\<close>

type_synonym 'w exchange = "jobj \<Rightarrow> 'w \<Rightarrow> (int \<times> wire_frame) res \<times> 'w"

definition https_submit ::
  "pylib \<Rightarrow> 'w exchange \<Rightarrow> anchor_identity \<Rightarrow> nat \<Rightarrow> jobj \<Rightarrow> 'w \<Rightarrow> jobj res \<times> 'w" where
  "https_submit L exchange ident sequence record w =
     (case checkpoint L (ai_session ident) sequence record (ai_key ident) False of
        Inl e \<Rightarrow> (Inl e, w)
      | Inr message \<Rightarrow>
          if int (length (canonical L message)) > MAX_FRAME
          then (anchor_error ''audit record exceeds framing limit'', w)
          else (case exchange message w of
                  (Inl e, w') \<Rightarrow> (Inl e, w')
                | (Inr (status, body), w') \<Rightarrow>
                    (if status \<noteq> 200 then anchor_error ''audit service did not accept checkpoint''
                     else case decode body of
                       Inl e \<Rightarrow> Inl e
                     | Inr ack \<Rightarrow>
                         (case check_ack L ident ack sequence (jget record ''record_hash'') of
                            Inl e \<Rightarrow> Inl e
                          | Inr _ \<Rightarrow> Inr ack), w')))"

text \<open>The host relay keeps local evidence first, then submits upstream.\<close>

record relay =
  rl_evidence :: anchor_store
  rl_identity :: anchor_identity
  rl_session :: string

definition new_relay :: "anchor_store \<Rightarrow> anchor_identity \<Rightarrow> string \<Rightarrow> relay res" where
  "new_relay st ident session =
     (if session \<noteq> ai_session ident then anchor_error ''relay session mismatch''
      else Inr \<lparr>rl_evidence = st, rl_identity = ident, rl_session = session\<rparr>)"

definition relay_handle ::
  "pylib \<Rightarrow> (checkpoint_row list \<Rightarrow> int) \<Rightarrow> 'w exchange \<Rightarrow> wire_frame \<Rightarrow> relay \<Rightarrow> 'w \<Rightarrow> jobj res \<times> relay \<times> 'w" where
  "relay_handle L db_bytes exchange raw rl w =
     (case decode raw of
        Inl e \<Rightarrow> (Inl e, rl, w)
      | Inr m \<Rightarrow>
          if jget m ''session'' \<noteq> JStr (rl_session rl)
          then (anchor_error ''relay rejects foreign session'', rl, w)
          else if dict_get m ''record'' = None
          then (anchor_error ''relay requires complete local audit evidence'', rl, w)
          else (case accept L db_bytes m (rl_evidence rl) of
                  (Inl e, st) \<Rightarrow> (Inl e, rl\<lparr>rl_evidence := st\<rparr>, w)
                | (Inr ack, st) \<Rightarrow>
                    (case (jget m ''sequence'', jget m ''record'') of
                       (JInt n, JObj record) \<Rightarrow>
                         (case https_submit L exchange (rl_identity rl) (nat n) record w of
                            (Inl e, w') \<Rightarrow> (Inl e, rl\<lparr>rl_evidence := st\<rparr>, w')
                          | (Inr _, w') \<Rightarrow> (Inr ack, rl\<lparr>rl_evidence := st\<rparr>, w'))
                     | _ \<Rightarrow> (anchor_error ''invalid record'', rl\<lparr>rl_evidence := st\<rparr>, w))))"

lemma https_submit_ack:
  assumes "https_submit L exchange ident sequence record w = (Inr ack, w')"
  shows "check_ack L ident ack sequence (jget record ''record_hash'') = Inr ()"
  using assms unfolding https_submit_def
  by (auto split: sum.split_asm if_split_asm prod.split_asm)

lemma check_ack_Inr:
  assumes "check_ack L ident ack sequence head = Inr ()"
  shows "verify_mac L ack (ai_key ident) ''acknowledgement'' = Inr ()"
    and "canonical L (body_of ack) = canonical L (expected_ack ident sequence head)"
  using assms unfolding check_ack_def by (auto split: sum.split_asm if_split_asm)

section \<open>The collector as the world\<close>

text \<open>The exchange of a transport whose endpoint is the collector of \<open>Anchor_Service\<close>.\<close>

definition collector_exchange :: "pylib \<Rightarrow> (checkpoint_row list \<Rightarrow> int) \<Rightarrow> anchor_store exchange" where
  "collector_exchange L db_bytes m st =
     (let n = int (length (canonical L m));
          ((status, body), st') = do_POST L db_bytes
            \<lparr>hp_path = ''/v1/checkpoints'', hp_content_lengths = [int_str n], hp_transfer_encoding = None,
             hp_available = n, hp_body = (\<lambda>_. \<lparr>wf_length = n, wf_value = Some (JObj m)\<rparr>)\<rparr> st
      in (Inr (int status, \<lparr>wf_length = int (length (canonical L body)), wf_value = Some (JObj body)\<rparr>), st'))"

lemma accept_Inr_ack:
  assumes "accept L db_bytes m st = (Inr ack, st')"
  shows "\<exists>c. check_message L st m = Inr c \<and> ack = acknowledgement L c"
  using assms by (cases rule: accept_cases) auto

lemma https_submit_Inr:
  assumes "https_submit L exchange ident sequence record w = (Inr ack, w')"
  obtains m body where "checkpoint L (ai_session ident) sequence record (ai_key ident) False = Inr m"
    and "exchange m w = (Inr (200, body), w')" and "decode body = Inr ack"
  using assms unfolding https_submit_def
  by (auto split: sum.split_asm if_split_asm prod.split_asm)

lemma checkpoint_fields:
  assumes "checkpoint L session sequence record key False = Inr m"
  shows "jget m ''session'' = JStr session" and "jget m ''sequence'' = JInt (int sequence)"
    and "jget m ''head_hash'' = jget record ''record_hash''"
proof -
  from assms obtain h p where h: "dict_get record ''record_hash'' = Some h"
    and m: "m = authenticate L [(''version'', JInt 1), (''session'', JStr session), (''sequence'', JInt (int sequence)),
        (''head_hash'', h), (''previous_hash'', p)] key ''checkpoint''"
    unfolding checkpoint_def Let_def by (auto split: option.split_asm)
  show "jget m ''session'' = JStr session" "jget m ''sequence'' = JInt (int sequence)"
    "jget m ''head_hash'' = jget record ''record_hash''"
    by (simp_all add: m h authenticate_def body_of_def jget_def)
qed

lemma submit_stored:
  assumes inv: "store_inv L st"
    and sub: "https_submit L (collector_exchange L db_bytes) ident sequence record st = (Inr ack, st')"
  shows "\<exists>r \<in> set (checkpoints st'). row_session r = ai_session ident \<and> row_sequence r = int sequence
    \<and> JStr (row_head r) = jget record ''record_hash''"
proof -
  from sub obtain m body where m: "checkpoint L (ai_session ident) sequence record (ai_key ident) False = Inr m"
    and ex: "collector_exchange L db_bytes m st = (Inr (200, body), st')" and dec: "decode body = Inr ack"
    by (rule https_submit_Inr)
  let ?n = "int (length (canonical L m))"
  let ?req = "\<lparr>hp_path = ''/v1/checkpoints'', hp_content_lengths = [int_str ?n], hp_transfer_encoding = None,
     hp_available = ?n, hp_body = (\<lambda>_. \<lparr>wf_length = ?n, wf_value = Some (JObj m)\<rparr>)\<rparr>"
  obtain b where post: "do_POST L db_bytes ?req st = ((200, b), st')"
    using ex by (auto simp: collector_exchange_def Let_def case_prod_beta prod_eq_iff)
  show ?thesis
  proof (cases rule: do_POST_cases [of L db_bytes ?req st])
    case (accepted len m' a st2)
    then have "m' = m" by (auto simp: decode_def split: if_split_asm)
    with accepted post have acc: "accept L db_bytes m st = (Inr b, st')" and d: "distinct (map fst m)"
      using decode_distinct [OF accepted(1)] by simp_all
    obtain c where c: "check_message L st m = Inr c" "b = acknowledgement L c" using accept_Inr_ack [OF acc] by blast
    obtain r where r: "r \<in> set (checkpoints st')" "ack_for_row b r" using accept_ack_row [OF inv d acc] by blast
    have "row_session r = cm_session c" "row_sequence r = cm_sequence c" "row_head r = cm_head c"
      using r(2) c(2) by (simp_all add: ack_for_row_def acknowledgement_fields)
    with check_message_Inr(2-4) [OF c(1)] checkpoint_fields [OF m] r(1) show ?thesis by auto
  qed (use post in simp_all)
qed

text \<open>
  Anchored means stored. When the HTTPS transport, connected to the collector, returns an
  acknowledgement for a record, the collector's table holds a row for exactly the identity's session,
  the submitted sequence number and the record's hash.
\<close>

theorem anchored_means_stored:
  assumes inv: "store_inv L st"
    and sub: "https_submit L (collector_exchange L db_bytes) ident sequence record st = (Inr ack, st')"
  shows "\<exists>r \<in> set (checkpoints st'). row_session r = ai_session ident \<and> row_sequence r = int sequence
    \<and> JStr (row_head r) = jget record ''record_hash''"
  using assms by (rule submit_stored)

definition demo_identity :: anchor_identity where
  "demo_identity = \<lparr>ai_session = demo_session, ai_key = replicate 32 (CHR ''2'')\<rparr>"

theorem anchored_means_stored_witness:
  "\<exists>ack st'. https_submit plain_lib (collector_exchange plain_lib (\<lambda>rs. 4096)) demo_identity 1 demo_record demo_store
       = (Inr ack, st') \<and> (\<exists>r \<in> set (checkpoints st'). row_session r = demo_session \<and> row_sequence r = 1)"
proof -
  have "returns (fst (https_submit plain_lib (collector_exchange plain_lib (\<lambda>rs. 4096)) demo_identity 1 demo_record demo_store))"
    by code_simp
  then obtain ack st' where e:
    "https_submit plain_lib (collector_exchange plain_lib (\<lambda>rs. 4096)) demo_identity 1 demo_record demo_store = (Inr ack, st')"
    by (metis prod.collapse returns_iff)
  from anchored_means_stored [OF new_anchor_store_inv [OF new_demo_store] e] e show ?thesis
    by (auto simp: demo_identity_def)
qed

end
