(* ===== verification/Audit_Ledger.thy ===== *)
theory Audit_Ledger
  imports Audit_Transport Models
begin

text \<open>
  The hash-chained audit ledger, \<^verbatim>\<open>src/bulldog/audit.py\<close>. The files of a ledger are its lines
  (each with its size in bytes and what the JSON parser makes of it), the head checkpoint, the local
  anchor and the remote checkpoint. Remote delivery is a function over a world of any type, one for
  the legacy HTTP endpoint and one for a versioned transport. Locking and fsync are not modelled:
  operations are atomic, each write succeeds.

  The lemmas show that the head hash commits to the whole history (two valid ledgers with the same
  head have the same records, or exhibit a hash collision), that a successful append extends a valid
  ledger by one record and leaves it valid, that an append on an invalid ledger is refused without any
  write, and that a failed remote delivery blocks every later append until it is reconciled.
\<close>

record audit_verification =
  av_valid :: bool
  av_records :: nat
  av_error_index :: "nat option"
  av_error :: "string option"
  av_head_hash :: "string option"

definition verified :: "nat \<Rightarrow> string option \<Rightarrow> audit_verification" where
  "verified n h = \<lparr>av_valid = True, av_records = n, av_error_index = None, av_error = None, av_head_hash = h\<rparr>"

definition invalid :: "nat \<Rightarrow> nat option \<Rightarrow> string \<Rightarrow> string option \<Rightarrow> audit_verification" where
  "invalid n i m h = \<lparr>av_valid = False, av_records = n, av_error_index = i, av_error = Some m, av_head_hash = h\<rparr>"

lemma verification_simps [simp]:
  "av_valid (verified n h)" "av_records (verified n h) = n" "av_head_hash (verified n h) = h"
  "\<not> av_valid (invalid n i m h)"
  by (simp_all add: verified_def invalid_def)

datatype ledger_line = Blank | Unparsable string | Parsed json

datatype doc = Absent | Garbage | Doc json

record ledger_files =
  lf_lines :: "(int \<times> ledger_line) list option"
  lf_head :: "string option"
  lf_anchor :: doc
  lf_remote :: doc

record ledger_config =
  lc_anchor_path :: bool
  lc_anchor_key :: "string option"
  lc_remote_url :: "string option"
  lc_remote_key :: "string option"
  lc_transport :: "anchor_identity option"
  lc_max_bytes :: int

abbreviation integrity_error :: "string \<Rightarrow> 'a res" where
  "integrity_error m \<equiv> raise AuditIntegrityError m"

text \<open>An argument, or else a non-empty environment variable.\<close>

definition or_env :: "string option \<Rightarrow> string option \<Rightarrow> string option" where
  "or_env x e = (case x of Some v \<Rightarrow> Some v | None \<Rightarrow> (case e of None \<Rightarrow> None | Some v \<Rightarrow> if v = [] then None else Some v))"

definition new_ledger_config ::
  "pylib \<Rightarrow> string dict \<Rightarrow> bool \<Rightarrow> string option \<Rightarrow> string option \<Rightarrow> string option
     \<Rightarrow> anchor_identity option \<Rightarrow> int \<Rightarrow> ledger_config res" where
  "new_ledger_config L env anchor_path anchor_key remote_url remote_key transport max_bytes =
     (if max_bytes < 1 then raise ValueError ''audit storage budget must be a positive integer''
      else
        let akey = or_env anchor_key (dict_get env ''BULL_AUDIT_ANCHOR_KEY'');
            url0 = py_strip (case remote_url of Some u \<Rightarrow> u
                     | None \<Rightarrow> (case dict_get env ''BULL_REMOTE_AUDIT_ANCHOR_URL'' of None \<Rightarrow> [] | Some u \<Rightarrow> u));
            url = (if transport \<noteq> None \<or> url0 = [] then None else Some url0);
            rkey = (if transport \<noteq> None then None
                    else or_env remote_key (dict_get env ''BULL_REMOTE_AUDIT_ANCHOR_KEY''));
            cfg = \<lparr>lc_anchor_path = anchor_path, lc_anchor_key = akey, lc_remote_url = url, lc_remote_key = rkey,
                   lc_transport = transport, lc_max_bytes = max_bytes\<rparr> in
        (case url of
           None \<Rightarrow> Inr cfg
         | Some u \<Rightarrow>
             (case urlsplit L u of
                Inl e \<Rightarrow> Inl e
              | Inr p \<Rightarrow>
                  if url_scheme p \<noteq> ''https'' \<or> \<not> opt_truthy (url_hostname L p)
                    then integrity_error ''remote audit anchor must be an absolute HTTPS URL''
                  else if opt_truthy (url_username p) \<or> opt_truthy (url_password p)
                    then integrity_error ''remote audit anchor URL credentials are forbidden''
                  else if \<not> opt_truthy rkey
                    then integrity_error ''remote audit anchor configured without authentication key''
                  else Inr cfg)))"

section \<open>Hashes and authentication codes\<close>

definition record_payload :: "jobj \<Rightarrow> jobj" where
  "record_payload r = filter (\<lambda>(k, v). k \<noteq> ''record_hash'') r"

definition calculate_hash :: "pylib \<Rightarrow> jobj \<Rightarrow> string" where
  "calculate_hash L r = sha256_hex L (dumps_compact L (JObj (record_payload r)))"

definition ledger_mac :: "pylib \<Rightarrow> string option \<Rightarrow> int \<Rightarrow> string \<Rightarrow> string res" where
  "ledger_mac L key sequence head_hash =
     (case key of
        None \<Rightarrow> integrity_error ''audit anchor key is missing''
      | Some k \<Rightarrow> if k = [] then integrity_error ''audit anchor key is missing''
                 else Inr (hmac_hex L k (int_str sequence @ '':'' @ head_hash)))"

text \<open>\<open>sequence\<close>, \<open>head_hash\<close> and \<open>mac\<close> of an anchor document, converted by \<open>int\<close> and \<open>str\<close>.\<close>

definition anchor_fields :: "pylib \<Rightarrow> json \<Rightarrow> (int \<times> string \<times> string) res" where
  "anchor_fields L j =
     (case jindex j ''sequence'' of Inl e \<Rightarrow> Inl e | Inr sv \<Rightarrow>
      (case int_of_json sv of Inl e \<Rightarrow> Inl e | Inr sequence \<Rightarrow>
      (case jindex j ''head_hash'' of Inl e \<Rightarrow> Inl e | Inr h \<Rightarrow>
      (case jindex j ''mac'' of Inl e \<Rightarrow> Inl e | Inr m \<Rightarrow>
        Inr (sequence, str_of_json L h, str_of_json L m)))))"

definition doc_fields :: "pylib \<Rightarrow> doc \<Rightarrow> (int \<times> string \<times> string) res" where
  "doc_fields L d = (case d of Doc j \<Rightarrow> anchor_fields L j | _ \<Rightarrow> raise ValueError ''Expecting value'')"

definition read_anchor :: "pylib \<Rightarrow> ledger_config \<Rightarrow> ledger_files \<Rightarrow> (int \<times> string) option res" where
  "read_anchor L cfg fs =
     (if \<not> lc_anchor_path cfg \<or> lf_anchor fs = Absent then Inr None
      else case doc_fields L (lf_anchor fs) of
        Inl e \<Rightarrow> integrity_error (''invalid external anchor: '' @ snd e)
      | Inr (sequence, head_hash, mac) \<Rightarrow>
          (case ledger_mac L (lc_anchor_key cfg) sequence head_hash of
             Inl e \<Rightarrow> Inl e
           | Inr expected \<Rightarrow>
               (case compare_digest mac expected of
                  Inl e \<Rightarrow> Inl e
                | Inr same \<Rightarrow> if same then Inr (Some (sequence, head_hash))
                              else integrity_error ''external audit anchor signature mismatch'')))"

definition anchor_doc :: "nat \<Rightarrow> string \<Rightarrow> string \<Rightarrow> jobj" where
  "anchor_doc sequence head_hash mac =
     [(''sequence'', JInt (int sequence)), (''head_hash'', JStr head_hash), (''mac'', JStr mac)]"

definition write_anchor :: "pylib \<Rightarrow> ledger_config \<Rightarrow> nat \<Rightarrow> string \<Rightarrow> ledger_files \<Rightarrow> unit res \<times> ledger_files" where
  "write_anchor L cfg sequence head_hash fs =
     (if \<not> lc_anchor_path cfg then (Inr (), fs)
      else case ledger_mac L (lc_anchor_key cfg) (int sequence) head_hash of
        Inl e \<Rightarrow> (Inl e, fs)
      | Inr mac \<Rightarrow> (Inr (), fs\<lparr>lf_anchor := Doc (JObj (anchor_doc sequence head_hash mac))\<rparr>))"

section \<open>Remote delivery\<close>

text \<open>
  The two remote channels: \<open>io_post\<close> returns the HTTP status of the legacy endpoint, \<open>io_submit\<close>
  is the transport's \<open>submit\<close> (\<open>https_submit\<close> of the identity for an HTTPS transport).
\<close>

record 'w ledger_io =
  io_post :: "jobj \<Rightarrow> 'w \<Rightarrow> int res \<times> 'w"
  io_submit :: "nat \<Rightarrow> jobj \<Rightarrow> 'w \<Rightarrow> jobj res \<times> 'w"

definition write_remote_anchor ::
  "pylib \<Rightarrow> ledger_config \<Rightarrow> 'w ledger_io \<Rightarrow> nat \<Rightarrow> string \<Rightarrow> jobj option \<Rightarrow> ledger_files \<Rightarrow> 'w
     \<Rightarrow> unit res \<times> ledger_files \<times> 'w" where
  "write_remote_anchor L cfg io sequence head_hash record fs w =
     (case lc_transport cfg of
        Some ident \<Rightarrow>
          (case record of
             None \<Rightarrow> (integrity_error
               ''remote audit anchor delivery failed: transport requires the complete audit record'', fs, w)
           | Some r \<Rightarrow>
               (case io_submit io sequence r w of
                  (Inl e, w') \<Rightarrow> (integrity_error (''remote audit anchor delivery failed: '' @ snd e), fs, w')
                | (Inr ack, w') \<Rightarrow>
                    (case check_ack L ident ack sequence (JStr head_hash) of
                       Inl e \<Rightarrow> (integrity_error (''remote audit anchor delivery failed: '' @ snd e), fs, w')
                     | Inr _ \<Rightarrow> (Inr (), fs\<lparr>lf_remote := Doc (JObj ack)\<rparr>, w'))))
      | None \<Rightarrow>
          (case lc_remote_url cfg of
             None \<Rightarrow> (Inr (), fs, w)
           | Some url \<Rightarrow>
               (case ledger_mac L (lc_remote_key cfg) (int sequence) head_hash of
                  Inl e \<Rightarrow> (Inl e, fs, w)
                | Inr mac \<Rightarrow>
                    let payload = (''format'', JStr ''bull-remote-anchor-v1'') # anchor_doc sequence head_hash mac in
                    (case io_post io payload w of
                       (Inl e, w') \<Rightarrow> (integrity_error (''remote audit anchor delivery failed: '' @ snd e), fs, w')
                     | (Inr status, w') \<Rightarrow>
                         if status < 200 \<or> status \<ge> 300
                         then (integrity_error (''remote audit anchor rejected update with HTTP '' @ int_str status), fs, w')
                         else (Inr (), fs\<lparr>lf_remote := Doc (JObj payload)\<rparr>, w')))))"

text \<open>\<open>None\<close> is success; the messages are those of the code, less the text of nested exceptions.\<close>

definition head_text :: "string option \<Rightarrow> string" where
  "head_text h = (case h of None \<Rightarrow> [] | Some s \<Rightarrow> s)"

definition verify_remote_checkpoint ::
  "pylib \<Rightarrow> ledger_config \<Rightarrow> ledger_files \<Rightarrow> nat \<Rightarrow> string option \<Rightarrow> string option res" where
  "verify_remote_checkpoint L cfg fs records head_hash =
     (case lc_transport cfg of
        Some ident \<Rightarrow>
          if records = 0 \<and> lf_remote fs = Absent then Inr None
          else (case lf_remote fs of
                  Doc (JObj d) \<Rightarrow>
                    (case check_ack L ident d records (JStr (head_text head_hash)) of
                       Inl e \<Rightarrow> Inr (Some (''remote audit checkpoint invalid: '' @ snd e))
                     | Inr _ \<Rightarrow> Inr None)
                | _ \<Rightarrow> Inr (Some ''remote audit checkpoint invalid: ''))
      | None \<Rightarrow>
          if lc_remote_url cfg = None then Inr None
          else if records = 0 \<and> lf_remote fs = Absent then Inr None
          else if lf_remote fs = Absent then Inr (Some ''remote audit checkpoint missing'')
          else (case doc_fields L (lf_remote fs) of
                  Inl e \<Rightarrow> Inr (Some (''invalid remote audit checkpoint: '' @ snd e))
                | Inr (sequence, remote_head, supplied) \<Rightarrow>
                    (case ledger_mac L (lc_remote_key cfg) sequence remote_head of
                       Inl e \<Rightarrow> Inr (Some (''invalid remote audit checkpoint: '' @ snd e))
                     | Inr expected \<Rightarrow>
                         (case compare_digest supplied expected of
                            Inl e \<Rightarrow> Inl e
                          | Inr same \<Rightarrow>
                              if \<not> same then Inr (Some ''remote audit checkpoint signature mismatch'')
                              else if sequence \<noteq> int records then Inr (Some ''remote audit checkpoint sequence mismatch'')
                              else if remote_head \<noteq> head_text head_hash
                                then Inr (Some ''remote audit checkpoint head mismatch'')
                              else Inr None))))"

section \<open>Verification\<close>

text \<open>
  One pass over the lines, from the running head and count: a verdict on failure, the final head
  and count otherwise; a line that is JSON but no object makes \<open>record.get\<close> raise.
\<close>

fun verify_lines ::
  "pylib \<Rightarrow> nat \<Rightarrow> string option \<Rightarrow> nat \<Rightarrow> (int \<times> ledger_line) list
     \<Rightarrow> (audit_verification + string option \<times> nat) res" where
  "verify_lines L i prev n [] = Inr (Inr (prev, n))"
| "verify_lines L i prev n ((_, Blank) # ls) = verify_lines L (Suc i) prev n ls"
| "verify_lines L i prev n ((_, Unparsable e) # ls) = Inr (Inl (invalid n (Some i) (''invalid JSON: '' @ e) prev))"
| "verify_lines L i prev n ((_, Parsed j) # ls) =
     (case j of
        JObj r \<Rightarrow>
          (case jget r ''record_hash'' of
             JStr stored \<Rightarrow>
               if jget r ''previous_hash'' \<noteq> opt_jstr prev
                 then Inr (Inl (invalid n (Some i) ''previous_hash mismatch'' prev))
               else if calculate_hash L r \<noteq> stored
                 then Inr (Inl (invalid n (Some i) ''record_hash mismatch'' prev))
               else verify_lines L (Suc i) (Some stored) (Suc n) ls
           | _ \<Rightarrow> Inr (Inl (invalid n (Some i) ''missing record_hash'' prev)))
      | _ \<Rightarrow> raise AttributeError ''object has no attribute get'')"

definition file_bytes :: "(int \<times> ledger_line) list \<Rightarrow> int" where
  "file_bytes ls = sum_list (map fst ls)"

definition verify_anchor_file ::
  "pylib \<Rightarrow> ledger_config \<Rightarrow> ledger_files \<Rightarrow> nat \<Rightarrow> string option \<Rightarrow> string option res" where
  "verify_anchor_file L cfg fs n prev =
     (case read_anchor L cfg fs of
        Inl (c, m) \<Rightarrow> if c = AuditIntegrityError then Inr (Some m) else Inl (c, m)
      | Inr None \<Rightarrow> Inr None
      | Inr (Some (sequence, head)) \<Rightarrow>
          Inr (if sequence \<noteq> int n then Some ''external anchor sequence mismatch''
               else if head \<noteq> head_text prev then Some ''external anchor head mismatch'' else None))"

definition verify_unlocked ::
  "pylib \<Rightarrow> ledger_config \<Rightarrow> bool \<Rightarrow> bool \<Rightarrow> ledger_files \<Rightarrow> audit_verification res" where
  "verify_unlocked L cfg verify_head verify_anchor fs =
     (case lf_lines fs of
        None \<Rightarrow>
          if verify_head \<and> (case lf_head fs of None \<Rightarrow> False | Some t \<Rightarrow> py_strip t \<noteq> [])
            then Inr (invalid 0 None ''ledger missing but head checkpoint exists'' None)
          else (case verify_remote_checkpoint L cfg fs 0 None of
                  Inl e \<Rightarrow> Inl e
                | Inr (Some m) \<Rightarrow> Inr (invalid 0 None m None)
                | Inr None \<Rightarrow> Inr (verified 0 None))
      | Some ls \<Rightarrow>
          if file_bytes ls > lc_max_bytes cfg then Inr (invalid 0 None ''audit storage budget exceeded'' None)
          else (case verify_lines L 0 None 0 ls of
                  Inl e \<Rightarrow> Inl e
                | Inr (Inl v) \<Rightarrow> Inr v
                | Inr (Inr (prev, n)) \<Rightarrow>
                    if verify_head \<and> (case lf_head fs of None \<Rightarrow> False | Some t \<Rightarrow> py_strip t \<noteq> head_text prev)
                      then Inr (invalid n None ''head checkpoint mismatch'' prev)
                    else if \<not> verify_anchor then Inr (verified n prev)
                    else (case (if lc_anchor_path cfg then verify_anchor_file L cfg fs n prev else Inr None) of
                            Inl e \<Rightarrow> Inl e
                          | Inr (Some m) \<Rightarrow> Inr (invalid n None m prev)
                          | Inr None \<Rightarrow>
                              (case verify_remote_checkpoint L cfg fs n prev of
                                 Inl e \<Rightarrow> Inl e
                               | Inr (Some m) \<Rightarrow> Inr (invalid n None m prev)
                               | Inr None \<Rightarrow> Inr (verified n prev)))))"

section \<open>Appending\<close>

definition newline :: string where
  "newline = [char_of (10::nat)]"

definition stamp_record :: "pylib \<Rightarrow> jobj \<Rightarrow> string option \<Rightarrow> jobj" where
  "stamp_record L payload head =
     (let r = dict_set ''previous_hash'' (opt_jstr head) payload
      in dict_set ''record_hash'' (JStr (calculate_hash L r)) r)"

definition encoded_size :: "pylib \<Rightarrow> jobj \<Rightarrow> int" where
  "encoded_size L record = int (length (dumps_spaced L (JObj record) @ newline))"

definition append_payload ::
  "pylib \<Rightarrow> ledger_config \<Rightarrow> 'w ledger_io \<Rightarrow> jobj \<Rightarrow> ledger_files \<times> 'w \<Rightarrow> string res \<times> ledger_files \<times> 'w" where
  "append_payload L cfg io payload s =
     (let (fs, w) = s in
      case verify_unlocked L cfg True True fs of
        Inl e \<Rightarrow> (Inl e, fs, w)
      | Inr existing \<Rightarrow>
          if \<not> av_valid existing
          then (integrity_error (''refusing append to invalid ledger: '' @ head_text (av_error existing)), fs, w)
          else
            let record = stamp_record L payload (av_head_hash existing);
                record_hash = calculate_hash L record;
                size = encoded_size L record;
                lines = (case lf_lines fs of None \<Rightarrow> [] | Some ls \<Rightarrow> ls) in
            if lc_transport cfg \<noteq> None \<and> size > 61440
              then (integrity_error ''audit record exceeds transport framing budget'', fs, w)
            else if file_bytes lines + size > lc_max_bytes cfg
              then (integrity_error ''audit storage budget exhausted'', fs, w)
            else
              let fs1 = fs\<lparr>lf_lines := Some (lines @ [(size, Parsed (JObj record))]), lf_head := Some (record_hash @ newline)\<rparr>;
                  sequence = av_records existing + 1 in
              (case write_anchor L cfg sequence record_hash fs1 of
                 (Inl e, fs2) \<Rightarrow> (Inl e, fs2, w)
               | (Inr _, fs2) \<Rightarrow>
                   (case write_remote_anchor L cfg io sequence record_hash (Some record) fs2 w of
                      (Inl e, fs3, w') \<Rightarrow> (Inl e, fs3, w')
                    | (Inr _, fs3, w') \<Rightarrow> (Inr record_hash, fs3, w'))))"

definition last_record :: "(int \<times> ledger_line) list \<Rightarrow> jobj option" where
  "last_record ls =
     (case filter (\<lambda>(n, l). l \<noteq> Blank) ls of
        [] \<Rightarrow> None
      | xs \<Rightarrow> (case snd (last xs) of Parsed (JObj r) \<Rightarrow> Some r | _ \<Rightarrow> None))"

definition reconcile_remote ::
  "pylib \<Rightarrow> ledger_config \<Rightarrow> 'w ledger_io \<Rightarrow> ledger_files \<times> 'w \<Rightarrow> unit res \<times> ledger_files \<times> 'w" where
  "reconcile_remote L cfg io s =
     (let (fs, w) = s in
      if lc_transport cfg = None then (integrity_error ''recovery requires a versioned audit transport'', fs, w)
      else case verify_unlocked L cfg True False fs of
        Inl e \<Rightarrow> (Inl e, fs, w)
      | Inr result \<Rightarrow>
          if \<not> av_valid result \<or> av_records result = 0
          then (integrity_error ''cannot recover an empty or invalid local ledger'', fs, w)
          else write_remote_anchor L cfg io (av_records result) (head_text (av_head_hash result))
                 (case lf_lines fs of None \<Rightarrow> None | Some ls \<Rightarrow> last_record ls) fs w)"

definition evaluation_payload :: "string \<Rightarrow> action_request \<Rightarrow> evaluation \<Rightarrow> jobj" where
  "evaluation_payload timestamp a e =
     [(''record_type'', JStr ''action_evaluation''), (''timestamp'', JStr timestamp), (''actor'', JStr (actor a)),
      (''task'', JStr (task a)), (''operation'', JStr (operation a)), (''resource'', JStr (resource a)),
      (''capability'', JStr (capability_value (capability a))),
      (''provenance'', JArr (map (JStr \<circ> provenance_value) (provenance a))),
      (''decision'', JStr (decision_value (e_decision e))), (''risk'', JFloat (e_risk e)),
      (''reasons'', JArr (map JStr (e_reasons e))), (''hard_block'', JBool (e_hard_block e)),
      (''metadata'', JObj (map (\<lambda>(k, v). (k, JStr v)) (sort_key fst (metadata a))))]"

definition append_evaluation ::
  "pylib \<Rightarrow> ledger_config \<Rightarrow> 'w ledger_io \<Rightarrow> string \<Rightarrow> action_request \<Rightarrow> evaluation
     \<Rightarrow> ledger_files \<times> 'w \<Rightarrow> string res \<times> ledger_files \<times> 'w" where
  "append_evaluation L cfg io timestamp a e s = append_payload L cfg io (evaluation_payload timestamp a e) s"

definition append_event ::
  "pylib \<Rightarrow> ledger_config \<Rightarrow> 'w ledger_io \<Rightarrow> string \<Rightarrow> string \<Rightarrow> jobj
     \<Rightarrow> ledger_files \<times> 'w \<Rightarrow> string res \<times> ledger_files \<times> 'w" where
  "append_event L cfg io timestamp event_type dat s =
     (if event_type = [] then (raise ValueError ''event_type cannot be empty'', s)
      else append_payload L cfg io
             [(''record_type'', JStr ''runtime_event''), (''timestamp'', JStr timestamp),
              (''event_type'', JStr event_type), (''data'', JObj dat)] s)"

definition last_hash :: "pylib \<Rightarrow> ledger_config \<Rightarrow> ledger_files \<Rightarrow> string option res" where
  "last_hash L cfg fs =
     (case verify_unlocked L cfg False False fs of
        Inl e \<Rightarrow> Inl e
      | Inr v \<Rightarrow> if av_valid v then Inr (av_head_hash v)
                 else integrity_error (case av_error v of None \<Rightarrow> ''invalid ledger'' | Some m \<Rightarrow> m))"

section \<open>The head commits to the history\<close>

definition records_of :: "(int \<times> ledger_line) list \<Rightarrow> jobj list" where
  "records_of ls = concat (map (\<lambda>(n, l). case l of Parsed (JObj r) \<Rightarrow> [r] | _ \<Rightarrow> []) ls)"

text \<open>A chain of records from one head to another.\<close>

inductive hash_chain :: "pylib \<Rightarrow> string option \<Rightarrow> jobj list \<Rightarrow> string option \<Rightarrow> bool" for L where
  chain_Nil: "hash_chain L h [] h"
| chain_snoc: "hash_chain L g rs h \<Longrightarrow> jget r ''previous_hash'' = opt_jstr h
    \<Longrightarrow> jget r ''record_hash'' = JStr k \<Longrightarrow> calculate_hash L r = k \<Longrightarrow> hash_chain L g (rs @ [r]) (Some k)"

inductive_cases hash_chain_NilE: "hash_chain L g [] h"
inductive_cases hash_chain_snocE: "hash_chain L g (rs @ [r]) h"

lemma hash_chain_Cons:
  assumes "jget r ''previous_hash'' = opt_jstr g" and "jget r ''record_hash'' = JStr k" and "calculate_hash L r = k"
    and "hash_chain L (Some k) rs h"
  shows "hash_chain L g (r # rs) h"
  using assms(4)
proof (induction "Some k" rs h rule: hash_chain.induct)
  case chain_Nil
  show ?case using hash_chain.chain_snoc [OF hash_chain.chain_Nil assms(1-3)] by simp
next
  case (chain_snoc rs h r' k')
  from hash_chain.chain_snoc [OF this(2) this(3-5)] show ?case by simp
qed

lemma verify_lines_chain:
  assumes "verify_lines L i prev n ls = Inr (Inr (h, m))"
  shows "hash_chain L prev (records_of ls) h \<and> m = n + length (records_of ls)
    \<and> (\<forall>(s, l) \<in> set ls. l = Blank \<or> (\<exists>r. l = Parsed (JObj r)))"
  using assms
proof (induction L i prev n ls rule: verify_lines.induct)
  case (4 L i prev n s j ls)
  then obtain r stored where r: "j = JObj r" "jget r ''record_hash'' = JStr stored"
      "jget r ''previous_hash'' = opt_jstr prev" "calculate_hash L r = stored"
      "verify_lines L (Suc i) (Some stored) (Suc n) ls = Inr (Inr (h, m))"
    by (auto split: json.split_asm if_split_asm)
  have "hash_chain L (Some stored) (records_of ls) h \<and> m = Suc n + length (records_of ls)
      \<and> (\<forall>(s, l) \<in> set ls. l = Blank \<or> (\<exists>r. l = Parsed (JObj r)))"
    using 4(1) [OF r(1,2)] r by simp
  with r hash_chain_Cons [OF r(3) r(2) r(4)] show ?case by (auto simp: records_of_def)
qed (auto simp: records_of_def intro: chain_Nil)

definition ledger_lines :: "ledger_files \<Rightarrow> (int \<times> ledger_line) list" where
  "ledger_lines fs = (case lf_lines fs of None \<Rightarrow> [] | Some ls \<Rightarrow> ls)"

lemma verify_lines_not_valid:
  "verify_lines L i prev n ls = Inr (Inl v) \<Longrightarrow> \<not> av_valid v"
  by (induction L i prev n ls rule: verify_lines.induct) (auto split: json.split_asm if_split_asm)

lemma verify_unlocked_lines:
  assumes "verify_unlocked L cfg vh va fs = Inr v" and "av_valid v"
  shows "verify_lines L 0 None 0 (ledger_lines fs) = Inr (Inr (av_head_hash v, av_records v))"
    and "v = verified (av_records v) (av_head_hash v)"
proof -
  have "verify_lines L 0 None 0 (ledger_lines fs) = Inr (Inr (av_head_hash v, av_records v))
      \<and> v = verified (av_records v) (av_head_hash v)"
  proof (cases "lf_lines fs")
    case None
    with assms show ?thesis
      by (auto simp: verify_unlocked_def ledger_lines_def split: if_split_asm sum.split_asm option.split_asm)
  next
    case (Some ls)
    with assms show ?thesis
      by (auto simp: verify_unlocked_def ledger_lines_def dest: verify_lines_not_valid
          split: if_split_asm sum.split_asm option.split_asm)
  qed
  then show "verify_lines L 0 None 0 (ledger_lines fs) = Inr (Inr (av_head_hash v, av_records v))"
    and "v = verified (av_records v) (av_head_hash v)" by simp_all
qed

lemma verify_unlocked_chain:
  assumes "verify_unlocked L cfg vh va fs = Inr v" and "av_valid v"
  shows "hash_chain L None (records_of (ledger_lines fs)) (av_head_hash v)"
    and "av_records v = length (records_of (ledger_lines fs))"
  using verify_lines_chain [OF verify_unlocked_lines(1) [OF assms]] by simp_all

lemma jget_record_payload: "jget (record_payload r) ''previous_hash'' = jget r ''previous_hash''"
proof -
  have "dict_get (record_payload r) ''previous_hash'' = dict_get r ''previous_hash''"
    unfolding record_payload_def by (induction r) auto
  then show ?thesis by (simp add: jget_def)
qed

definition hash_collision :: "pylib \<Rightarrow> jobj list \<Rightarrow> jobj list \<Rightarrow> bool" where
  "hash_collision L rs rs' \<longleftrightarrow>
     (\<exists>r \<in> set rs. \<exists>r' \<in> set rs'. record_payload r \<noteq> record_payload r' \<and> calculate_hash L r = calculate_hash L r')"

lemma hash_chain_None: "hash_chain L g rs None \<Longrightarrow> rs = []"
  by (cases rs rule: rev_cases) (auto elim: hash_chain_snocE)

lemma hash_chain_commits:
  assumes "hash_chain L None rs h" and "hash_chain L None rs' h"
  shows "map record_payload rs = map record_payload rs' \<or> hash_collision L rs rs'"
  using assms
proof (induction rs arbitrary: rs' h rule: rev_induct)
  case Nil
  then have "h = None" by (auto elim: hash_chain_NilE)
  with Nil hash_chain_None show ?case by blast
next
  case (snoc r rs)
  from snoc.prems(1) obtain g k where r: "hash_chain L None rs g" "jget r ''previous_hash'' = opt_jstr g"
      "calculate_hash L r = k" "h = Some k" by (auto elim: hash_chain_snocE)
  show ?case
  proof (cases rs' rule: rev_cases)
    case Nil
    with snoc.prems(2) r(4) show ?thesis by (auto elim: hash_chain_NilE)
  next
    case (snoc ss r')
    from snoc.prems(2) snoc r(4) obtain g' where r': "hash_chain L None ss g'"
        "jget r' ''previous_hash'' = opt_jstr g'" "calculate_hash L r' = k" by (auto elim: hash_chain_snocE)
    show ?thesis
    proof (cases "record_payload r = record_payload r'")
      case True
      then have "g = g'" using r(2) r'(2) by (metis jget_record_payload opt_jstr_inj)
      with snoc.IH [of g ss] r(1) r'(1) have "map record_payload rs = map record_payload ss \<or> hash_collision L rs ss" by simp
      with True snoc show ?thesis by (auto simp: hash_collision_def)
    next
      case False
      with r(3) r'(3) snoc show ?thesis by (auto simp: hash_collision_def)
    qed
  qed
qed


section \<open>Appending to a valid ledger\<close>

text \<open>Digests are 64 lower-case hexadecimal characters (\<open>hexdigest\<close> of SHA-256 and HMAC-SHA-256).\<close>

definition hex_digests :: "pylib \<Rightarrow> bool" where
  "hex_digests L \<longleftrightarrow> (\<forall>x. hex64 (sha256_hex L x)) \<and> (\<forall>k x. hex64 (hmac_hex L k x))"

lemma hex64_plain: "hex64 (replicate 64 (CHR ''0''))" "hex64 (replicate 64 (CHR ''1''))"
  by (simp_all add: hex64_def list_all_iff)

lemma hex_digests_plain: "hex_digests plain_lib"
  by (simp add: hex_digests_def plain_lib_def hex64_plain)

lemma hex64_calculate_hash: "hex_digests L \<Longrightarrow> hex64 (calculate_hash L r)"
  by (simp add: hex_digests_def calculate_hash_def)

lemma record_payload_set_hash [simp]: "record_payload (dict_set ''record_hash'' v r) = record_payload r"
  unfolding record_payload_def by (induction r) auto

lemma stamp_record_fields:
  "jget (stamp_record L payload head) ''record_hash'' = JStr (calculate_hash L (stamp_record L payload head))"
  "jget (stamp_record L payload head) ''previous_hash'' = opt_jstr head"
  by (simp_all add: stamp_record_def Let_def calculate_hash_def)

lemma verify_lines_append:
  assumes "verify_lines L i prev n ls = Inr (Inr (h, m))"
  shows "verify_lines L i prev n (ls @ ls') = verify_lines L (i + length ls) h m ls'"
  using assms
proof (induction L i prev n ls rule: verify_lines.induct)
  case (4 L i prev n s j ls)
  then obtain r stored where r: "j = JObj r" "jget r ''record_hash'' = JStr stored"
      "jget r ''previous_hash'' = opt_jstr prev" "calculate_hash L r = stored"
      "verify_lines L (Suc i) (Some stored) (Suc n) ls = Inr (Inr (h, m))"
    by (auto split: json.split_asm if_split_asm)
  with 4(1) [OF r(1,2)] show ?case by simp
qed simp_all

lemma records_of_append [simp]: "records_of (ls @ ls') = records_of ls @ records_of ls'"
  by (simp add: records_of_def)

lemma records_of_parsed [simp]: "records_of [(n, Parsed (JObj r))] = [r]"
  by (simp add: records_of_def)

lemma doc_fields_anchor_doc:
  "doc_fields L (Doc (JObj (anchor_doc n h m))) = Inr (int n, h, m)"
  "doc_fields L (Doc (JObj ((''format'', JStr f) # anchor_doc n h m))) = Inr (int n, h, m)"
  by (simp_all add: doc_fields_def anchor_fields_def anchor_doc_def jindex_def)

lemma ledger_mac_ascii:
  "hex_digests L \<Longrightarrow> ledger_mac L key n h = Inr m \<Longrightarrow> ascii_text m"
  by (auto simp: ledger_mac_def hex_digests_def intro: hex64_ascii split: option.split_asm if_split_asm)

lemma compare_digest_same: "ascii_text m \<Longrightarrow> compare_digest m m = Inr True"
  by (simp add: compare_digest_def)

lemma write_anchor_Inr:
  assumes "hex_digests L" and "write_anchor L cfg n h fs = (Inr (), fs')"
  shows "lc_anchor_path cfg \<Longrightarrow> verify_anchor_file L cfg fs' n (Some h) = Inr None"
    and "lf_lines fs' = lf_lines fs" and "lf_head fs' = lf_head fs" and "lf_remote fs' = lf_remote fs"
proof -
  show "lc_anchor_path cfg \<Longrightarrow> verify_anchor_file L cfg fs' n (Some h) = Inr None"
  proof -
    assume path: "lc_anchor_path cfg"
    then obtain mac where mac: "ledger_mac L (lc_anchor_key cfg) (int n) h = Inr mac"
        "fs' = fs\<lparr>lf_anchor := Doc (JObj (anchor_doc n h mac))\<rparr>"
      using assms(2) by (auto simp: write_anchor_def split: sum.split_asm)
    then have "read_anchor L cfg fs' = Inr (Some (int n, h))"
      using path ledger_mac_ascii [OF assms(1) mac(1)]
      by (simp add: read_anchor_def doc_fields_anchor_doc compare_digest_same)
    then show ?thesis by (simp add: verify_anchor_file_def head_text_def)
  qed
qed (use assms(2) in \<open>auto simp: write_anchor_def split: if_split_asm sum.split_asm\<close>)

lemma write_remote_anchor_Inr:
  assumes "hex_digests L" and "write_remote_anchor L cfg io n h r fs w = (Inr (), fs', w')"
  shows "verify_remote_checkpoint L cfg fs' n (Some h) = Inr None"
    and "lf_lines fs' = lf_lines fs" and "lf_head fs' = lf_head fs" and "lf_anchor fs' = lf_anchor fs"
proof -
  have "verify_remote_checkpoint L cfg fs' n (Some h) = Inr None \<and> lf_lines fs' = lf_lines fs
      \<and> lf_head fs' = lf_head fs \<and> lf_anchor fs' = lf_anchor fs"
  proof (cases "lc_transport cfg")
    case (Some ident)
    then obtain ack where "check_ack L ident ack n (JStr h) = Inr ()" "fs' = fs\<lparr>lf_remote := Doc (JObj ack)\<rparr>"
      using assms(2) unfolding write_remote_anchor_def
      by (auto split: option.split_asm sum.split_asm prod.split_asm)
    with Some show ?thesis by (simp add: verify_remote_checkpoint_def head_text_def)
  next
    case None
    show ?thesis
    proof (cases "lc_remote_url cfg")
      case url: (Some u)
      then obtain mac where mac: "ledger_mac L (lc_remote_key cfg) (int n) h = Inr mac"
        "fs' = fs\<lparr>lf_remote := Doc (JObj ((''format'', JStr ''bull-remote-anchor-v1'') # anchor_doc n h mac))\<rparr>"
        using assms(2) None unfolding write_remote_anchor_def Let_def
        by (auto split: sum.split_asm prod.split_asm if_split_asm)
      then show ?thesis
        using None url ledger_mac_ascii [OF assms(1) mac(1)]
        by (simp add: verify_remote_checkpoint_def doc_fields_anchor_doc compare_digest_same head_text_def)
    qed (use assms(2) None in \<open>auto simp: write_remote_anchor_def verify_remote_checkpoint_def\<close>)
  qed
  then show "verify_remote_checkpoint L cfg fs' n (Some h) = Inr None"
    and "lf_lines fs' = lf_lines fs" and "lf_head fs' = lf_head fs" and "lf_anchor fs' = lf_anchor fs" by simp_all
qed

text \<open>What a successful append has done, step by step.\<close>

lemma append_payload_Inr:
  assumes "append_payload L cfg io payload (fs, w) = (Inr h, fs', w')"
  obtains v size fs2 where "verify_unlocked L cfg True True fs = Inr v" and "av_valid v"
    and "h = calculate_hash L (stamp_record L payload (av_head_hash v))"
    and "file_bytes (ledger_lines fs) + size \<le> lc_max_bytes cfg"
    and "write_anchor L cfg (av_records v + 1) h
          (fs\<lparr>lf_lines := Some (ledger_lines fs @ [(size, Parsed (JObj (stamp_record L payload (av_head_hash v))))]),
              lf_head := Some (h @ newline)\<rparr>) = (Inr (), fs2)"
    and "write_remote_anchor L cfg io (av_records v + 1) h (Some (stamp_record L payload (av_head_hash v))) fs2 w
          = (Inr (), fs', w')"
  using assms unfolding append_payload_def Let_def ledger_lines_def [symmetric]
  by (auto simp: not_less split: sum.split_asm if_split_asm prod.split_asm)

lemma verify_unlocked_verified:
  assumes "lf_lines fs = Some ls" and "file_bytes ls \<le> lc_max_bytes cfg"
    and "verify_lines L 0 None 0 ls = Inr (Inr (Some h, n))" and "hex64 h" and "lf_head fs = Some (h @ newline)"
    and "lc_anchor_path cfg \<Longrightarrow> verify_anchor_file L cfg fs n (Some h) = Inr None"
    and "verify_remote_checkpoint L cfg fs n (Some h) = Inr None"
  shows "verify_unlocked L cfg True True fs = Inr (verified n (Some h))"
  using assms strip_hex_line [OF assms(4)]
  by (auto simp: verify_unlocked_def head_text_def newline_def not_less)

lemma append_payload_valid:
  assumes "hex_digests L" and "append_payload L cfg io payload (fs, w) = (Inr h, fs', w')"
  obtains v size where "verify_unlocked L cfg True True fs = Inr v" and "av_valid v"
    and "h = calculate_hash L (stamp_record L payload (av_head_hash v))"
    and "ledger_lines fs' = ledger_lines fs @ [(size, Parsed (JObj (stamp_record L payload (av_head_hash v))))]"
    and "verify_unlocked L cfg True True fs' = Inr (verified (av_records v + 1) (Some h))"
  using assms(2)
proof (rule append_payload_Inr)
  fix v :: audit_verification and size :: int and fs2 :: ledger_files
  let ?r = "stamp_record L payload (av_head_hash v)"
  let ?ls = "ledger_lines fs @ [(size, Parsed (JObj ?r))]"
  let ?fs1 = "fs\<lparr>lf_lines := Some ?ls, lf_head := Some (h @ newline)\<rparr>"
  assume v: "verify_unlocked L cfg True True fs = Inr v" "av_valid v" and h: "h = calculate_hash L ?r"
    and size: "file_bytes (ledger_lines fs) + size \<le> lc_max_bytes cfg"
    and anc: "write_anchor L cfg (av_records v + 1) h ?fs1 = (Inr (), fs2)"
    and rem: "write_remote_anchor L cfg io (av_records v + 1) h (Some ?r) fs2 w = (Inr (), fs', w')"
  note a = write_anchor_Inr [OF assms(1) anc] and r = write_remote_anchor_Inr [OF assms(1) rem]
  have hx: "hex64 h" using assms(1) h by (simp add: hex64_calculate_hash)
  have lines: "lf_lines fs' = Some ?ls" "lf_head fs' = Some (h @ newline)" using a r by simp_all
  have chain: "verify_lines L 0 None 0 ?ls = Inr (Inr (Some h, av_records v + 1))"
    using verify_lines_append [OF verify_unlocked_lines(1) [OF v]] by (simp add: stamp_record_fields h)
  have "verify_anchor_file L cfg fs' (av_records v + 1) (Some h)
      = verify_anchor_file L cfg fs2 (av_records v + 1) (Some h)"
    using r(4) by (simp add: verify_anchor_file_def read_anchor_def)
  then have valid: "verify_unlocked L cfg True True fs' = Inr (verified (av_records v + 1) (Some h))"
    using verify_unlocked_verified [OF lines(1) _ chain hx lines(2) _ r(1)] size a(1)
    by (simp add: file_bytes_def)
  show thesis using that [OF v h] valid lines(1) by (simp add: ledger_lines_def)
qed


text \<open>
  An append never builds on a ledger that does not verify, and never writes then: whatever made
  verification fail (a broken chain, a stale head, anchor or remote checkpoint, an exhausted budget),
  the call raises and all files and the remote side stay as they were.
\<close>

theorem append_refuses_invalid_ledger:
  assumes "\<forall>v. verify_unlocked L cfg True True fs = Inr v \<longrightarrow> \<not> av_valid v"
  shows "\<exists>e. append_payload L cfg io payload (fs, w) = (Inl e, fs, w)"
  using assms by (cases "verify_unlocked L cfg True True fs") (auto simp: append_payload_def)

section \<open>Failed remote deliveries\<close>

lemma sort_ack_fields:
  "sort_key fst [(''version'', a :: string), (''session'', b), (''sequence'', c), (''head_hash'', d), (''accepted'', e)]
   = [(''accepted'', e), (''head_hash'', d), (''sequence'', c), (''session'', b), (''version'', a)]"
  by code_simp

lemma canonical_expected_ack:
  "\<exists>post. canonical L (expected_ack ident n (JStr g)) =
     ''{'' @ json_string ''accepted'' @ '':true,'' @ json_string ''head_hash'' @ '':'' @ json_string g
     @ '','' @ json_string ''sequence'' @ '':'' @ nat_str n @ CHR '','' # post"
  unfolding canonical_def expected_ack_def by (simp add: sort_ack_fields)

lemma quote_not_hex: "quote_char \<notin> set ''0123456789abcdef''"
  by code_simp

lemma expected_ack_sequence:
  assumes eq: "canonical L (expected_ack ident n (JStr g)) = canonical L (expected_ack ident m (JStr h))"
    and g: "g = [] \<or> hex64 g" and h: "hex64 h"
  shows "n = m"
proof -
  let ?tail = "\<lambda>k post. '','' @ json_string ''sequence'' @ '':'' @ nat_str k @ CHR '','' # post"
  obtain x where x: "canonical L (expected_ack ident n (JStr g)) = ''{'' @ json_string ''accepted'' @ '':true,''
      @ json_string ''head_hash'' @ '':'' @ json_string g @ ?tail n x" using canonical_expected_ack by blast
  obtain y where y: "canonical L (expected_ack ident m (JStr h)) = ''{'' @ json_string ''accepted'' @ '':true,''
      @ json_string ''head_hash'' @ '':'' @ json_string h @ ?tail m y" using canonical_expected_ack by blast
  have xy: "json_string g @ ?tail n x = json_string h @ ?tail m y" using eq x y by simp
  have "h \<noteq> []" using h by (auto simp: hex64_def)
  moreover from this have "hd h \<in> set ''0123456789abcdef''"
    using h hd_in_set unfolding hex64_def list_all_iff by blast
  ultimately have hne: "h \<noteq> []" "hd h \<noteq> quote_char" using quote_not_hex by metis+
  show ?thesis
  proof (cases "g = []")
    case True
    with xy have "quote_char # ?tail n x = h @ quote_char # ?tail m y"
      by (simp add: json_string_hex64 [OF h] json_string_def [of "[]"])
    then have "hd h = quote_char" using hne(1) by (cases h) simp_all
    with hne(2) show ?thesis by simp
  next
    case False
    with g have g: "hex64 g" by simp
    then have "length g = length h" using h by (simp add: hex64_def)
    with xy have "?tail n x = ?tail m y" by (simp add: json_string_hex64 [OF g] json_string_hex64 [OF h])
    then show ?thesis by (auto dest: nat_str_comma)
  qed
qed

lemma hash_chain_head: "hash_chain L g rs h \<Longrightarrow> rs \<noteq> [] \<Longrightarrow> \<exists>r. h = Some (calculate_hash L r)"
  by (cases rule: hash_chain.cases) auto

lemma verified_head_hex:
  assumes "hex_digests L" and "verify_unlocked L cfg vh va fs = Inr v" and "av_valid v"
  shows "head_text (av_head_hash v) = [] \<or> hex64 (head_text (av_head_hash v))"
proof (cases "records_of (ledger_lines fs) = []")
  case True
  with verify_unlocked_chain(1) [OF assms(2,3)] show ?thesis
    by (auto simp: head_text_def elim: hash_chain_NilE)
next
  case False
  from hash_chain_head [OF verify_unlocked_chain(1) [OF assms(2,3)] False] assms(1) show ?thesis
    by (auto simp: head_text_def hex64_calculate_hash)
qed

lemma stale_remote_checkpoint:
  assumes "lc_transport cfg \<noteq> None \<or> lc_remote_url cfg \<noteq> None"
    and "verify_remote_checkpoint L cfg fs n g = Inr None" and "lf_remote fs' = lf_remote fs"
    and "head_text g = [] \<or> hex64 (head_text g)" and "hex64 h"
  shows "verify_remote_checkpoint L cfg fs' (Suc n) (Some h) \<noteq> Inr None"
proof (cases "lc_transport cfg")
  case (Some ident)
  show ?thesis
  proof
    assume now: "verify_remote_checkpoint L cfg fs' (Suc n) (Some h) = Inr None"
    then obtain d where d: "lf_remote fs = Doc (JObj d)" "check_ack L ident d (Suc n) (JStr h) = Inr ()"
      using Some assms(3) unfolding verify_remote_checkpoint_def
      by (auto simp: head_text_def split: if_split_asm doc.split_asm json.split_asm sum.split_asm)
    moreover from d(1) assms(2) have "check_ack L ident d n (JStr (head_text g)) = Inr ()"
      using Some unfolding verify_remote_checkpoint_def
      by (auto split: if_split_asm sum.split_asm)
    ultimately have "canonical L (expected_ack ident n (JStr (head_text g)))
        = canonical L (expected_ack ident (Suc n) (JStr h))"
      using check_ack_Inr(2) by metis
    then show False using expected_ack_sequence assms(4,5) by (metis n_not_Suc_n)
  qed
next
  case None
  with assms(1) have url: "lc_remote_url cfg \<noteq> None" by simp
  show ?thesis
  proof
    assume now: "verify_remote_checkpoint L cfg fs' (Suc n) (Some h) = Inr None"
    then obtain hd m where "lf_remote fs \<noteq> Absent" "doc_fields L (lf_remote fs) = Inr (int (Suc n), hd, m)"
      using None url assms(3) unfolding verify_remote_checkpoint_def
      by (auto split: if_split_asm sum.split_asm prod.split_asm)
    with assms(2) None url show False unfolding verify_remote_checkpoint_def
      by (auto split: if_split_asm sum.split_asm prod.split_asm)
  qed
qed

lemma verify_valid_remote:
  assumes "verify_unlocked L cfg vh True fs = Inr v" and "av_valid v"
  shows "verify_remote_checkpoint L cfg fs (av_records v) (av_head_hash v) = Inr None"
proof (cases "lf_lines fs")
  case None
  with assms show ?thesis
    by (auto simp: verify_unlocked_def split: if_split_asm sum.split_asm option.split_asm)
next
  case (Some ls)
  with assms show ?thesis
    by (auto simp: verify_unlocked_def dest: verify_lines_not_valid
        split: if_split_asm sum.split_asm option.split_asm)
qed

lemma append_payload_failed:
  assumes "append_payload L cfg io payload (fs, w) = (Inl e, fs', w')" and "lf_lines fs' \<noteq> lf_lines fs"
  obtains v size where "verify_unlocked L cfg True True fs = Inr v" and "av_valid v" and "lf_remote fs' = lf_remote fs"
    and "lf_lines fs' = Some (ledger_lines fs @ [(size, Parsed (JObj (stamp_record L payload (av_head_hash v))))])"
  using assms unfolding append_payload_def Let_def ledger_lines_def [symmetric] write_anchor_def
    write_remote_anchor_def
  by (auto split: sum.split_asm if_split_asm prod.split_asm option.split_asm)

text \<open>
  Fail-closed anchoring. If an append with a configured remote anchor raised after it had already
  written its record, then no later append (of any payload, with any behaviour of the remote side)
  succeeds or writes anything: the ledger stays blocked on the missing acknowledgement.
\<close>

theorem failed_delivery_blocks_appends:
  assumes "hex_digests L" and "lc_transport cfg \<noteq> None \<or> lc_remote_url cfg \<noteq> None"
    and "append_payload L cfg io payload (fs, w) = (Inl e, fs', w')" and "lf_lines fs' \<noteq> lf_lines fs"
  shows "\<exists>e'. append_payload L cfg io' payload' (fs', w2) = (Inl e', fs', w2)"
  using assms(3,4)
proof (rule append_payload_failed)
  fix v :: audit_verification and size
  let ?r = "stamp_record L payload (av_head_hash v)"
  assume v: "verify_unlocked L cfg True True fs = Inr v" "av_valid v" and rem: "lf_remote fs' = lf_remote fs"
    and lines: "lf_lines fs' = Some (ledger_lines fs @ [(size, Parsed (JObj ?r))])"
  let ?h = "calculate_hash L ?r"
  have chain: "verify_lines L 0 None 0 (ledger_lines fs') = Inr (Inr (Some ?h, Suc (av_records v)))"
    using verify_lines_append [OF verify_unlocked_lines(1) [OF v]] lines
    by (simp add: stamp_record_fields ledger_lines_def)
  have stale: "verify_remote_checkpoint L cfg fs' (Suc (av_records v)) (Some ?h) \<noteq> Inr None"
    using stale_remote_checkpoint [OF assms(2) verify_valid_remote [OF v] rem verified_head_hex [OF assms(1) v]]
      hex64_calculate_hash [OF assms(1)] by blast
  have "\<not> av_valid v'" if v': "verify_unlocked L cfg True True fs' = Inr v'" for v'
  proof
    assume "av_valid v'"
    from verify_unlocked_lines(1) [OF v' this] chain verify_valid_remote [OF v' this] stale show False by simp
  qed
  then show ?thesis
    by (cases "verify_unlocked L cfg True True fs'") (auto simp: append_payload_def)
qed

lemma reconcile_remote_Inr:
  assumes "reconcile_remote L cfg io (fs, w) = (Inr (), fs', w')"
  obtains v r where "verify_unlocked L cfg True False fs = Inr v" and "av_valid v" and "av_records v \<noteq> 0"
    and "write_remote_anchor L cfg io (av_records v) (head_text (av_head_hash v)) r fs w = (Inr (), fs', w')"
  using assms unfolding reconcile_remote_def Let_def by (auto split: sum.split_asm if_split_asm)

lemma verify_with_remote:
  assumes "verify_unlocked L cfg True False fs = Inr v" and "av_valid v" and "av_records v \<noteq> 0"
    and "\<not> lc_anchor_path cfg" and "lf_lines fs' = lf_lines fs" and "lf_head fs' = lf_head fs"
    and "verify_remote_checkpoint L cfg fs' (av_records v) (av_head_hash v) = Inr None"
  shows "verify_unlocked L cfg True True fs' = Inr v"
proof (cases "lf_lines fs")
  case None
  with assms(1-3) have False
    by (auto simp: verify_unlocked_def split: if_split_asm sum.split_asm option.split_asm)
  then show ?thesis ..
next
  case (Some ls)
  note l = verify_unlocked_lines [OF assms(1,2)]
  have "verify_lines L 0 None 0 ls = Inr (Inr (av_head_hash v, av_records v))"
    using l(1) Some by (simp add: ledger_lines_def)
  with Some assms l(2) show ?thesis
    by (auto simp: verify_unlocked_def split: if_split_asm)
qed


section \<open>Concrete ledgers\<close>

definition demo_config :: ledger_config where
  "demo_config = \<lparr>lc_anchor_path = False, lc_anchor_key = None, lc_remote_url = None, lc_remote_key = None,
     lc_transport = None, lc_max_bytes = 100000\<rparr>"

definition remote_config :: ledger_config where
  "remote_config = demo_config\<lparr>lc_remote_url := Some ''https://anchor.example'', lc_remote_key := Some ''key''\<rparr>"

definition transport_config :: ledger_config where
  "transport_config = demo_config\<lparr>lc_transport := Some demo_identity\<rparr>"

definition empty_files :: ledger_files where
  "empty_files = \<lparr>lf_lines = None, lf_head = None, lf_anchor = Absent, lf_remote = Absent\<rparr>"

definition status_io :: "int \<Rightarrow> 'w ledger_io" where
  "status_io n = \<lparr>io_post = (\<lambda>m w. (Inr n, w)), io_submit = (\<lambda>k r w. (anchor_error ''offline'', w))\<rparr>"

text \<open>The ledger's transport connected to the collector.\<close>

definition collector_io :: "pylib \<Rightarrow> (checkpoint_row list \<Rightarrow> int) \<Rightarrow> anchor_identity \<Rightarrow> anchor_store ledger_io" where
  "collector_io L db_bytes ident = \<lparr>io_post = (\<lambda>m w. (anchor_error ''not used'', w)),
     io_submit = (\<lambda>n r w. https_submit L (collector_exchange L db_bytes) ident n r w)\<rparr>"

definition demo_payload :: jobj where
  "demo_payload = [(''event'', JStr ''x'')]"

lemma demo_append:
  obtains h fs' where "append_payload plain_lib demo_config (status_io 200) demo_payload (empty_files, ()) = (Inr h, fs', ())"
proof -
  have "returns (fst (append_payload plain_lib demo_config (status_io 200) demo_payload (empty_files, ())))"
    by code_simp
  then show thesis using that by (metis prod.collapse returns_iff unit.exhaust)
qed

lemma demo_verified: "verify_unlocked plain_lib demo_config True True empty_files = Inr (verified 0 None)"
  by (simp add: verify_unlocked_def empty_files_def demo_config_def verify_remote_checkpoint_def)



theorem append_refuses_invalid_ledger_witness:
  "\<exists>e. append_payload plain_lib demo_config (status_io 200) demo_payload (empty_files\<lparr>lf_head := Some ''ab''\<rparr>, ())
     = (Inl e, empty_files\<lparr>lf_head := Some ''ab''\<rparr>, ())"
proof (rule append_refuses_invalid_ledger)
  have s: "py_strip ''ab'' \<noteq> []" by code_simp
  show "\<forall>v. verify_unlocked plain_lib demo_config True True (empty_files\<lparr>lf_head := Some ''ab''\<rparr>) = Inr v \<longrightarrow> \<not> av_valid v"
    by (simp add: verify_unlocked_def empty_files_def s)
qed

theorem failed_delivery_blocks_appends_witness:
  "\<exists>e fs' e'. append_payload plain_lib remote_config (status_io 500) demo_payload (empty_files, ()) = (Inl e, fs', ())
     \<and> append_payload plain_lib remote_config (status_io 200) demo_payload (fs', ()) = (Inl e', fs', ())"
proof -
  obtain x fs' u where e: "append_payload plain_lib remote_config (status_io 500) demo_payload (empty_files, ()) = (x, fs', u)"
    by (cases "append_payload plain_lib remote_config (status_io 500) demo_payload (empty_files, ())") auto
  have "\<not> returns (fst (append_payload plain_lib remote_config (status_io 500) demo_payload (empty_files, ())))
      \<and> lf_lines (fst (snd (append_payload plain_lib remote_config (status_io 500) demo_payload (empty_files, ()))))
        \<noteq> lf_lines empty_files" by code_simp
  then obtain err where x: "x = Inl err" and l: "lf_lines fs' \<noteq> lf_lines empty_files"
    unfolding e by (cases x) simp_all
  have "lc_transport remote_config \<noteq> None \<or> lc_remote_url remote_config \<noteq> None" by (simp add: remote_config_def)
  from failed_delivery_blocks_appends [OF hex_digests_plain this e [unfolded x] l] e x show ?thesis by auto
qed

text \<open>A ledger whose transport was offline during the first append, then reconciled.\<close>

definition offline_files :: ledger_files where
  "offline_files = fst (snd (append_payload plain_lib transport_config (status_io 0) demo_payload (empty_files, demo_store)))"




text \<open>
  What verification does not notice. Without a remote anchor, deleting the ledger together with
  its head checkpoint makes verification succeed with zero records, whatever the local signed anchor
  says: the anchor is consulted only when the ledger file exists.
\<close>

theorem deleted_ledger_verifies:
  "verify_unlocked L (cfg\<lparr>lc_transport := None, lc_remote_url := None\<rparr>) True True
     (fs\<lparr>lf_lines := None, lf_head := None\<rparr>) = Inr (verified 0 None)"
  by (simp add: verify_unlocked_def verify_remote_checkpoint_def)

end
