(* ===== verification/Engine.thy ===== *)
theory Engine
  imports Session_Guard Audit_Ledger
begin

text \<open>
  The decision engine, \<^verbatim>\<open>src/bulldog/engine.py\<close> with \<^verbatim>\<open>src/bulldog/advisory.py\<close>: policy, optional
  advisory model, session guard and audit ledger composed in that order. The advisory model is any
  function from actions to advisories. The engine's mutable state is the guard's histories, the
  ledger's files and the remote world.

  The lemmas show that neither the advisory model nor the guard can make a decision milder than the
  deterministic policy, and that with a ledger every returned evaluation has been recorded durably.
\<close>

record advisory =
  adv_risk :: rat
  adv_recommendation :: decision
  adv_reason :: string

definition null_advisory :: "action_request \<Rightarrow> advisory" where
  "null_advisory a = \<lparr>adv_risk = 0, adv_recommendation = ALLOW, adv_reason = ''no advisory model configured''\<rparr>"

definition combine_advisory :: "evaluation \<Rightarrow> advisory \<Rightarrow> evaluation" where
  "combine_advisory hard adv =
     evaluation_of (max (e_decision hard) (adv_recommendation adv))
       (max (e_risk hard) (min (max (adv_risk adv) 0) 1))
       (if adv_reason adv \<noteq> [] \<and> adv_reason adv \<noteq> ''no advisory model configured''
        then e_reasons hard @ [''advisory: '' @ adv_reason adv] else e_reasons hard)
       False"

record engine_config =
  en_policy :: deterministic_policy
  en_advisory :: "action_request \<Rightarrow> advisory"
  en_ledger :: "ledger_config option"

record 'w engine_state =
  es_guard :: session_guard
  es_files :: ledger_files
  es_world :: 'w

definition engine_judge :: "pylib \<Rightarrow> engine_config \<Rightarrow> action_request \<Rightarrow> evaluation" where
  "engine_judge L en a =
     (let hard = policy_evaluate L (en_policy en) a
      in if e_hard_block hard then hard else combine_advisory hard (en_advisory en a))"

definition engine_evaluate ::
  "pylib \<Rightarrow> engine_config \<Rightarrow> 'w ledger_io \<Rightarrow> string \<Rightarrow> action_request \<Rightarrow> 'w engine_state
     \<Rightarrow> evaluation res \<times> 'w engine_state" where
  "engine_evaluate L en io timestamp a s =
     (let (result, g) = enforce (es_guard s) a (engine_judge L en a) in
      case en_ledger en of
        None \<Rightarrow> (Inr result, s\<lparr>es_guard := g\<rparr>)
      | Some cfg \<Rightarrow>
          (case append_evaluation L cfg io timestamp a result (es_files s, es_world s) of
             (Inl e, fs, w) \<Rightarrow> (Inl e, s\<lparr>es_guard := g, es_files := fs, es_world := w\<rparr>)
           | (Inr _, fs, w) \<Rightarrow> (Inr result, s\<lparr>es_guard := g, es_files := fs, es_world := w\<rparr>)))"

definition clear_session :: "string option \<Rightarrow> 'w engine_state \<Rightarrow> 'w engine_state" where
  "clear_session sid s = s\<lparr>es_guard := clear sid (es_guard s)\<rparr>"

lemma engine_evaluate_Inr:
  assumes "engine_evaluate L en io ts a s = (Inr e, s')"
  shows "e = fst (enforce (es_guard s) a (engine_judge L en a))"
    and "es_guard s' = snd (enforce (es_guard s) a (engine_judge L en a))"
  using assms unfolding engine_evaluate_def Let_def
  by (auto simp: case_prod_beta split: option.split_asm sum.split_asm prod.split_asm)

lemma guard_result_le:
  "e_decision e \<le> e_decision (fst (enforce g a e))" "e_hard_block (fst (enforce g a e)) = e_hard_block e"
  by (simp_all add: enforce_def Let_def apply_flags_le)

lemma engine_judge_le:
  "e_decision (policy_evaluate L (en_policy en) a) \<le> e_decision (engine_judge L en a)"
  "e_hard_block (engine_judge L en a) = e_hard_block (policy_evaluate L (en_policy en) a)"
  "e_hard_block (engine_judge L en a) \<Longrightarrow> engine_judge L en a = policy_evaluate L (en_policy en) a"
  by (auto simp: engine_judge_def combine_advisory_def Let_def split: if_splits)

text \<open>
  C11. Only the policy grants. Whatever the advisory model answers and whatever the session history
  holds, an evaluation that the engine returns is at least as strict as the deterministic policy's own;
  a hard block is returned unchanged; and the engine's ALLOW implies that the policy allowed, that the
  advisory model recommended ALLOW and that the session guard raised no flag.
\<close>

theorem engine_never_weakens_policy:
  assumes "engine_evaluate L en io ts a s = (Inr e, s')"
  shows "e_decision (policy_evaluate L (en_policy en) a) \<le> e_decision e
    \<and> e_hard_block e = e_hard_block (policy_evaluate L (en_policy en) a)
    \<and> (e_hard_block e \<longrightarrow> e = policy_evaluate L (en_policy en) a)
    \<and> (e_decision e = ALLOW \<longrightarrow> e_decision (policy_evaluate L (en_policy en) a) = ALLOW
        \<and> adv_recommendation (en_advisory en a) = ALLOW
        \<and> session_flags (events_of (es_guard s) (session_key a)) a = [])"
proof -
  let ?p = "policy_evaluate L (en_policy en) a" and ?j = "engine_judge L en a"
  note e = engine_evaluate_Inr(1) [OF assms]
  have le: "e_decision ?p \<le> e_decision e" and hb: "e_hard_block e = e_hard_block ?p"
    using engine_judge_le [of L en a] guard_result_le [where e = ?j and g = "es_guard s" and a = a] e by (auto intro: order_trans)
  have same: "e = ?p" if "e_hard_block e"
    using that hb engine_judge_le(2,3) [of L en a] e by (simp add: enforce_def Let_def)
  have "e_decision ?p = ALLOW \<and> adv_recommendation (en_advisory en a) = ALLOW
        \<and> session_flags (events_of (es_guard s) (session_key a)) a = []" if allow: "e_decision e = ALLOW"
  proof -
    have p: "e_decision ?p = ALLOW" using le allow by (metis ALLOW_le_decision order_antisym)
    have j: "e_decision ?j = ALLOW" using guard_result_le(1) [where e = ?j and g = "es_guard s" and a = a] e allow
      by (metis ALLOW_le_decision order_antisym)
    have nb: "\<not> e_hard_block ?p" using p conjunct1 [OF conjunct2 [OF policy_block_is_deny [of L "en_policy en" a]]] by simp
    then have "max (e_decision ?p) (adv_recommendation (en_advisory en a)) = ALLOW"
      using j by (simp add: engine_judge_def Let_def combine_advisory_def)
    then have adv: "adv_recommendation (en_advisory en a) = ALLOW"
      by (metis ALLOW_le_decision max.cobounded2 order_antisym)
    have "session_flags (events_of (es_guard s) (session_key a)) a = []"
    proof (rule ccontr)
      assume "session_flags (events_of (es_guard s) (session_key a)) a \<noteq> []"
      then have "e_decision e = max (e_decision ?j) ESCALATE"
        using e nb engine_judge_le(2) [of L en a] by (simp add: enforce_def Let_def apply_flags_def)
      with allow show False by (metis decision.distinct(5) decision_le_simps(3) max.cobounded2)
    qed
    with p adv show ?thesis by simp
  qed
  with le hb same show ?thesis by blast
qed

definition demo_engine :: engine_config where
  "demo_engine = \<lparr>en_policy = default_policy, en_advisory = null_advisory, en_ledger = Some demo_config\<rparr>"

definition demo_engine_state :: "unit engine_state" where
  "demo_engine_state = \<lparr>es_guard = new_session_guard, es_files = empty_files, es_world = ()\<rparr>"

lemma demo_engine_run:
  obtains e s where "engine_evaluate plain_lib demo_engine (status_io 200) ''now'' demo_action demo_engine_state = (Inr e, s)"
proof -
  have "returns (fst (engine_evaluate plain_lib demo_engine (status_io 200) ''now'' demo_action demo_engine_state))"
    by code_simp
  then show thesis using that by (metis prod.collapse returns_iff)
qed

theorem engine_never_weakens_policy_witness:
  "\<exists>e s. engine_evaluate plain_lib demo_engine (status_io 200) ''now'' demo_action demo_engine_state = (Inr e, s)
     \<and> e_decision (policy_evaluate plain_lib default_policy demo_action) \<le> e_decision e"
proof (rule demo_engine_run)
  fix e s
  assume r: "engine_evaluate plain_lib demo_engine (status_io 200) ''now'' demo_action demo_engine_state = (Inr e, s)"
  from engine_never_weakens_policy [OF r] r show ?thesis by (auto simp: demo_engine_def)
qed

text \<open>
  Nothing is decided off the record. With a ledger configured, the engine returns an evaluation
  only after a record of the action and of exactly that decision has been appended to a valid ledger,
  which verifies afterwards; if the append fails the engine raises and returns no decision.
\<close>

theorem engine_result_is_recorded:
  assumes "hex_digests L" and "en_ledger en = Some cfg" and "engine_evaluate L en io ts a s = (Inr e, s')"
  shows "\<exists>size r v. ledger_lines (es_files s') = ledger_lines (es_files s) @ [(size, Parsed (JObj r))]
    \<and> jget r ''actor'' = JStr (actor a) \<and> jget r ''operation'' = JStr (operation a) \<and> jget r ''resource'' = JStr (resource a)
    \<and> jget r ''decision'' = JStr (decision_value (e_decision e)) \<and> jget r ''hard_block'' = JBool (e_hard_block e)
    \<and> verify_unlocked L cfg True True (es_files s') = Inr v \<and> av_valid v"
proof -
  note e = engine_evaluate_Inr(1) [OF assms(3)]
  obtain x fs w where ap: "append_payload L cfg io (evaluation_payload ts a e) (es_files s, es_world s) = (x, fs, w)"
    by (cases "append_payload L cfg io (evaluation_payload ts a e) (es_files s, es_world s)") auto
  obtain h where "x = Inr h" "s' = s\<lparr>es_guard := es_guard s', es_files := fs, es_world := w\<rparr>"
    using assms(2,3) ap engine_evaluate_Inr(2) [OF assms(3)]
    unfolding engine_evaluate_def Let_def append_evaluation_def case_prod_beta e [symmetric]
    by (cases x) (simp_all)
  then have app: "append_payload L cfg io (evaluation_payload ts a e) (es_files s, es_world s)
      = (Inr h, es_files s', es_world s')" using ap by (cases s') simp
  show ?thesis
    using assms(1) app
  proof (rule append_payload_valid)
    fix v :: audit_verification and size :: int
    let ?r = "stamp_record L (evaluation_payload ts a e) (av_head_hash v)"
    assume v: "ledger_lines (es_files s') = ledger_lines (es_files s) @ [(size, Parsed (JObj ?r))]"
      "verify_unlocked L cfg True True (es_files s') = Inr (verified (av_records v + 1) (Some h))"
    have "jget ?r ''actor'' = JStr (actor a) \<and> jget ?r ''operation'' = JStr (operation a)
      \<and> jget ?r ''resource'' = JStr (resource a) \<and> jget ?r ''decision'' = JStr (decision_value (e_decision e))
      \<and> jget ?r ''hard_block'' = JBool (e_hard_block e)"
      by (simp add: stamp_record_def Let_def) (simp add: evaluation_payload_def jget_def)
    with v show ?thesis by (intro exI [of _ size] exI [of _ ?r] exI) auto
  qed
qed

theorem engine_result_is_recorded_witness:
  "\<exists>e s size r. engine_evaluate plain_lib demo_engine (status_io 200) ''now'' demo_action demo_engine_state = (Inr e, s)
     \<and> ledger_lines (es_files s) = [(size, Parsed (JObj r))]
     \<and> jget r ''decision'' = JStr (decision_value (e_decision e))"
proof (rule demo_engine_run)
  fix e s
  assume r: "engine_evaluate plain_lib demo_engine (status_io 200) ''now'' demo_action demo_engine_state = (Inr e, s)"
  have "en_ledger demo_engine = Some demo_config" by (simp add: demo_engine_def)
  moreover have "ledger_lines (es_files demo_engine_state) = []"
    by (simp add: demo_engine_state_def ledger_lines_def empty_files_def)
  ultimately show ?thesis using engine_result_is_recorded [OF hex_digests_plain _ r, of demo_config] r by auto
qed

end
