(* ===== verification/Security_Domain.thy ===== *)
theory Security_Domain
  imports Canonicalizer Audit_Ledger
begin

text \<open>
  The security-domain registry, \<^verbatim>\<open>src/bulldog/security_domain.py\<close>: host-issued authority boundaries
  with lineage, freezing, goal transitions and audit events. Identifiers come from the operating
  system's random source; each creating operation takes the identifier it drew as an argument. The
  registry's state is the table of domains, the events handed to the audit callback and the ledger's
  files; an event that the ledger refuses makes the operation raise after the table was changed, as in
  the code.

  The lemmas show that along every run with fresh identifiers each child holds a subset of its
  parent's, and hence of its root's, capabilities and egress hosts, that depth is bounded, that the
  identity of a domain never changes, and that a frozen lineage can never act or grow again.
\<close>

record goal_transition =
  gt_sequence :: nat
  gt_previous_intent_hash :: string
  gt_next_intent_hash :: string
  gt_reason :: string
  gt_approved_by :: string

record security_domain =
  domain_id :: string
  root_domain_id :: string
  parent_domain_id :: "string option"
  d_actor :: string
  capability_ceiling :: "capability set"
  egress_hosts :: "string set"
  d_provenance :: "provenance list"
  initial_intent_hash :: string
  current_intent_hash :: string
  initial_command_hash :: "string option"
  model_id :: "string option"
  model_id_hash :: "string option"
  domain_fingerprint :: string
  spawn_depth :: int
  frozen :: bool
  freeze_reason :: "string option"
  transitions :: "goal_transition list"

abbreviation domain_error :: "string \<Rightarrow> 'a res" where
  "domain_error m \<equiv> raise SecurityDomainError m"

section \<open>Hashes of identities\<close>

definition hash_intent :: "pylib \<Rightarrow> string \<Rightarrow> string res" where
  "hash_intent L text =
     (let normalized = py_join '' '' (py_words [] text) in
      if normalized = [] then domain_error ''initial intent cannot be empty''
      else Inr (sha256_hex L normalized))"

text \<open>\<open>json.dumps([...], ensure_ascii=False)\<close> of a list of strings.\<close>

definition raw_json_string :: "string \<Rightarrow> string" where
  "raw_json_string s =
     quote_char # concat (map (\<lambda>c. if is_ascii c \<and> code c \<noteq> 127 then escape_ascii c else [c]) s) @ [quote_char]"

definition hash_command :: "pylib \<Rightarrow> string list option \<Rightarrow> string option" where
  "hash_command L command =
     map_option (\<lambda>items. sha256_hex L (''['' @ py_join '','' (map raw_json_string items) @ '']'')) command"

definition hash_model_id :: "pylib \<Rightarrow> string option \<Rightarrow> string option res" where
  "hash_model_id L mid =
     (case mid of
        None \<Rightarrow> Inr None
      | Some m \<Rightarrow> let normalized = py_strip m in
                  if normalized = [] then domain_error ''model_id cannot be empty''
                  else Inr (Some (sha256_hex L normalized)))"

definition jlist :: "string list \<Rightarrow> json" where
  "jlist xs = JArr (map JStr xs)"

definition sorted_caps :: "capability set \<Rightarrow> json" where
  "sorted_caps C = jlist (sort (map capability_value (filter (\<lambda>c. c \<in> C) all_capabilities)))"

definition sorted_hosts :: "string set \<Rightarrow> json" where
  "sorted_hosts H = jlist (sorted_list_of_set H)"

definition compute_fingerprint ::
  "pylib \<Rightarrow> string \<Rightarrow> string \<Rightarrow> string option \<Rightarrow> string \<Rightarrow> string option \<Rightarrow> string \<Rightarrow> string option
     \<Rightarrow> capability set \<Rightarrow> string set \<Rightarrow> string" where
  "compute_fingerprint L did rid parent act mhash ihash chash caps hosts =
     sha256_hex L (dumps_compact L (JObj
       [(''domain_id'', JStr did), (''root_domain_id'', JStr rid), (''parent_domain_id'', opt_jstr parent),
        (''actor'', JStr act), (''model_id_hash'', opt_jstr mhash), (''initial_intent_hash'', JStr ihash),
        (''initial_command_hash'', opt_jstr chash), (''capability_ceiling'', sorted_caps caps),
        (''egress_hosts'', sorted_hosts hosts)]))"

section \<open>The registry\<close>

record 'w domain_registry =
  max_spawn_depth :: int
  strict_identity_binding :: bool
  dr_ledger :: "ledger_config option"
  domains :: "security_domain dict"
  dr_events :: "jobj list"
  dr_files :: ledger_files
  dr_world :: 'w

definition new_registry ::
  "int \<Rightarrow> bool \<Rightarrow> ledger_config option \<Rightarrow> ledger_files \<Rightarrow> 'w \<Rightarrow> 'w domain_registry res" where
  "new_registry depth strict led fs w =
     (if depth < 0 then raise ValueError ''max_spawn_depth must be >= 0''
      else Inr \<lparr>max_spawn_depth = depth, strict_identity_binding = strict, dr_ledger = led, domains = [],
             dr_events = [], dr_files = fs, dr_world = w\<rparr>)"

definition event_name :: "jobj \<Rightarrow> string" where
  "event_name ev = (case jget ev ''event'' of JStr s \<Rightarrow> s | _ \<Rightarrow> ''security_domain_event'')"

definition emit_event ::
  "pylib \<Rightarrow> 'w ledger_io \<Rightarrow> string \<Rightarrow> jobj \<Rightarrow> 'w domain_registry \<Rightarrow> unit res \<times> 'w domain_registry" where
  "emit_event L io ts ev reg =
     (case dr_ledger reg of
        None \<Rightarrow> (Inr (), reg\<lparr>dr_events := dr_events reg @ [ev]\<rparr>)
      | Some cfg \<Rightarrow>
          (case append_event L cfg io ts (event_name ev) ev (dr_files reg, dr_world reg) of
             (Inl e, fs, w) \<Rightarrow> (Inl e, reg\<lparr>dr_files := fs, dr_world := w\<rparr>)
           | (Inr _, fs, w) \<Rightarrow> (Inr (), reg\<lparr>dr_files := fs, dr_world := w, dr_events := dr_events reg @ [ev]\<rparr>)))"

fun normalize_hosts :: "pylib \<Rightarrow> string list \<Rightarrow> string set res" where
  "normalize_hosts L [] = Inr {}"
| "normalize_hosts L (h # hs) =
     (let value = rstrip_char (CHR ''.'') (py_lower L (py_strip h)) in
      if value = [] then domain_error ''empty egress host''
      else if contains ''/'' value \<or> contains ''://'' value
        then domain_error ''egress authority must be an exact hostname''
      else case normalize_hosts L hs of Inl e \<Rightarrow> Inl e | Inr vs \<Rightarrow> Inr (insert value vs))"

definition validate_identity_binding :: "'w domain_registry \<Rightarrow> string option \<Rightarrow> string list option \<Rightarrow> unit res" where
  "validate_identity_binding reg mid cmd =
     (if \<not> strict_identity_binding reg then Inr ()
      else if (case mid of None \<Rightarrow> True | Some m \<Rightarrow> py_strip m = [])
        then domain_error ''strict identity binding requires model_id''
      else if (case cmd of None \<Rightarrow> True | Some c \<Rightarrow> c = [])
        then domain_error ''strict identity binding requires initial_command''
      else Inr ())"

definition get_domain :: "'w domain_registry \<Rightarrow> string \<Rightarrow> security_domain res" where
  "get_domain reg did =
     (case dict_get (domains reg) did of
        None \<Rightarrow> domain_error ''unknown security domain'' | Some d \<Rightarrow> Inr d)"

definition require_active :: "'w domain_registry \<Rightarrow> string \<Rightarrow> security_domain res" where
  "require_active reg did =
     (case get_domain reg did of
        Inl e \<Rightarrow> Inl e
      | Inr d \<Rightarrow>
          if frozen d
          then domain_error (''security domain is frozen''
                 @ (case freeze_reason d of None \<Rightarrow> [] | Some r \<Rightarrow> if r = [] then [] else '': '' @ r))
          else Inr d)"

definition domain_event :: "string \<Rightarrow> security_domain \<Rightarrow> jobj" where
  "domain_event ev d =
     [(''event'', JStr ev), (''domain_id'', JStr (domain_id d)), (''root_domain_id'', JStr (root_domain_id d)),
      (''parent_domain_id'', opt_jstr (parent_domain_id d)), (''actor'', JStr (d_actor d)),
      (''model_id'', opt_jstr (model_id d)), (''model_id_hash'', opt_jstr (model_id_hash d)),
      (''domain_fingerprint'', JStr (domain_fingerprint d)),
      (''capability_ceiling'', sorted_caps (capability_ceiling d)), (''egress_hosts'', sorted_hosts (egress_hosts d)),
      (''initial_intent_hash'', JStr (initial_intent_hash d)),
      (''initial_command_hash'', opt_jstr (initial_command_hash d)), (''spawn_depth'', JInt (spawn_depth d))]"

text \<open>The request fields shared by \<open>create_root\<close> and \<open>spawn_child\<close>.\<close>

record domain_request =
  rq_actor :: string
  rq_initial_prompt :: string
  rq_capabilities :: "capability set"
  rq_provenance :: "provenance list"
  rq_egress_hosts :: "string list"
  rq_initial_command :: "string list option"
  rq_model_id :: "string option"

text \<open>Intent, command and model hashes, in the order in which the code may raise.\<close>

definition identity_hashes ::
  "pylib \<Rightarrow> domain_request \<Rightarrow> (string \<times> string option \<times> string option \<times> string option) res" where
  "identity_hashes L rq =
     (case hash_intent L (rq_initial_prompt rq) of
        Inl e \<Rightarrow> Inl e
      | Inr intent_hash \<Rightarrow>
          let normalized_model = map_option py_strip (rq_model_id rq) in
          (case hash_model_id L normalized_model of
             Inl e \<Rightarrow> Inl e
           | Inr model_hash \<Rightarrow>
               Inr (intent_hash, hash_command L (rq_initial_command rq), normalized_model, model_hash)))"

definition make_domain ::
  "pylib \<Rightarrow> string \<Rightarrow> string \<Rightarrow> string option \<Rightarrow> domain_request \<Rightarrow> string set \<Rightarrow> provenance list
     \<Rightarrow> string \<times> string option \<times> string option \<times> string option \<Rightarrow> int \<Rightarrow> security_domain" where
  "make_domain L did rid parent rq hosts prov ids depth =
     (let (ihash, chash, model, mhash) = ids in
      \<lparr>domain_id = did, root_domain_id = rid, parent_domain_id = parent, d_actor = rq_actor rq,
       capability_ceiling = rq_capabilities rq, egress_hosts = hosts, d_provenance = prov,
       initial_intent_hash = ihash, current_intent_hash = ihash, initial_command_hash = chash, model_id = model,
       model_id_hash = mhash,
       domain_fingerprint = compute_fingerprint L did rid parent (rq_actor rq) mhash ihash chash (rq_capabilities rq) hosts,
       spawn_depth = depth, frozen = False, freeze_reason = None, transitions = []\<rparr>)"

definition create_root ::
  "pylib \<Rightarrow> 'w ledger_io \<Rightarrow> string \<Rightarrow> string \<Rightarrow> domain_request \<Rightarrow> 'w domain_registry
     \<Rightarrow> security_domain res \<times> 'w domain_registry" where
  "create_root L io ts did rq reg =
     (case validate_identity_binding reg (rq_model_id rq) (rq_initial_command rq) of
        Inl e \<Rightarrow> (Inl e, reg)
      | Inr _ \<Rightarrow>
     (case identity_hashes L rq of
        Inl e \<Rightarrow> (Inl e, reg)
      | Inr ids \<Rightarrow>
     (case normalize_hosts L (rq_egress_hosts rq) of
        Inl e \<Rightarrow> (Inl e, reg)
      | Inr hosts \<Rightarrow>
          let d = make_domain L did did None rq hosts (rq_provenance rq) ids 0;
              reg1 = reg\<lparr>domains := dict_set did d (domains reg)\<rparr> in
          (case emit_event L io ts (domain_event ''security_domain_created'' d) reg1 of
             (Inl e, reg2) \<Rightarrow> (Inl e, reg2)
           | (Inr _, reg2) \<Rightarrow> (Inr d, reg2)))))"

definition spawn_child ::
  "pylib \<Rightarrow> 'w ledger_io \<Rightarrow> string \<Rightarrow> string \<Rightarrow> string \<Rightarrow> domain_request \<Rightarrow> 'w domain_registry
     \<Rightarrow> security_domain res \<times> 'w domain_registry" where
  "spawn_child L io ts did pid rq reg =
     (case validate_identity_binding reg (rq_model_id rq) (rq_initial_command rq) of
        Inl e \<Rightarrow> (Inl e, reg)
      | Inr _ \<Rightarrow>
     (case require_active reg pid of
        Inl e \<Rightarrow> (Inl e, reg)
      | Inr parent \<Rightarrow>
          if AGENT_SPAWN \<notin> capability_ceiling parent
            then (domain_error ''parent domain lacks agent.spawn authority'', reg)
          else if \<not> rq_capabilities rq \<subseteq> capability_ceiling parent
            then (domain_error ''child capability ceiling exceeds parent authority'', reg)
          else (case normalize_hosts L (rq_egress_hosts rq) of
                  Inl e \<Rightarrow> (Inl e, reg)
                | Inr hosts \<Rightarrow>
                    if \<not> hosts \<subseteq> egress_hosts parent
                      then (domain_error ''child egress authority exceeds parent authority'', reg)
                    else if spawn_depth parent + 1 > max_spawn_depth reg
                      then (domain_error ''maximum agent spawn depth exceeded'', reg)
                    else (case identity_hashes L rq of
                            Inl e \<Rightarrow> (Inl e, reg)
                          | Inr ids \<Rightarrow>
                              let d = make_domain L did (root_domain_id parent) (Some (domain_id parent)) rq hosts
                                        (d_provenance parent @ rq_provenance rq) ids (spawn_depth parent + 1);
                                  reg1 = reg\<lparr>domains := dict_set did d (domains reg)\<rparr> in
                              (case emit_event L io ts (domain_event ''security_domain_spawned'' d) reg1 of
                                 (Inl e, reg2) \<Rightarrow> (Inl e, reg2)
                               | (Inr _, reg2) \<Rightarrow> (Inr d, reg2))))))"

definition assert_capabilities :: "'w domain_registry \<Rightarrow> string \<Rightarrow> capability set \<Rightarrow> unit res" where
  "assert_capabilities reg did requested =
     (case require_active reg did of
        Inl e \<Rightarrow> Inl e
      | Inr d \<Rightarrow> if \<not> requested \<subseteq> capability_ceiling d
                then domain_error ''dispatch requested authority outside domain ceiling'' else Inr ())"

definition domain_parent_capabilities :: "'w domain_registry \<Rightarrow> string \<Rightarrow> capability set option res" where
  "domain_parent_capabilities reg did =
     (case require_active reg did of
        Inl e \<Rightarrow> Inl e
      | Inr d \<Rightarrow> (case parent_domain_id d of
                  None \<Rightarrow> Inr None
                | Some p \<Rightarrow> (case get_domain reg p of Inl e \<Rightarrow> Inl e | Inr pd \<Rightarrow> Inr (Some (capability_ceiling pd)))))"

definition trusted_context_of :: "'w domain_registry \<Rightarrow> string \<Rightarrow> trusted_context res" where
  "trusted_context_of reg did =
     (case require_active reg did of
        Inl e \<Rightarrow> Inl e
      | Inr d \<Rightarrow> Inr
          \<lparr>tc_actor = d_actor d, tc_provenance = d_provenance d,
           tc_security_context_id = ''root-domain:'' @ root_domain_id d, tc_domain_id = Some (domain_id d),
           tc_root_domain_id = Some (root_domain_id d), tc_parent_domain_id = parent_domain_id d,
           tc_initial_intent_hash = Some (initial_intent_hash d), tc_initial_command_hash = initial_command_hash d,
           tc_model_id = model_id d, tc_model_id_hash = model_id_hash d,
           tc_domain_fingerprint = Some (domain_fingerprint d), tc_spawn_depth = spawn_depth d\<rparr>)"

section \<open>Life cycle\<close>

definition domain_ref :: "security_domain \<Rightarrow> jobj" where
  "domain_ref d = [(''domain_id'', JStr (domain_id d)), (''root_domain_id'', JStr (root_domain_id d)),
     (''domain_fingerprint'', JStr (domain_fingerprint d))]"

definition transition_goal ::
  "pylib \<Rightarrow> 'w ledger_io \<Rightarrow> string \<Rightarrow> string \<Rightarrow> string \<Rightarrow> string \<Rightarrow> string \<Rightarrow> 'w domain_registry
     \<Rightarrow> goal_transition res \<times> 'w domain_registry" where
  "transition_goal L io ts did next_goal reason approved_by reg =
     (if py_strip reason = [] \<or> py_strip approved_by = []
      then (domain_error ''goal transition requires reason and trusted approver'', reg)
      else case require_active reg did of
        Inl e \<Rightarrow> (Inl e, reg)
      | Inr d \<Rightarrow>
          (case hash_intent L next_goal of
             Inl e \<Rightarrow> (Inl e, reg)
           | Inr h \<Rightarrow>
               let t = \<lparr>gt_sequence = length (transitions d) + 1, gt_previous_intent_hash = current_intent_hash d,
                        gt_next_intent_hash = h, gt_reason = reason, gt_approved_by = approved_by\<rparr>;
                   d' = d\<lparr>current_intent_hash := h, transitions := transitions d @ [t]\<rparr>;
                   reg1 = reg\<lparr>domains := dict_set did d' (domains reg)\<rparr> in
               (case emit_event L io ts
                       ((''event'', JStr ''security_domain_goal_transition'') # domain_ref d'
                        @ [(''sequence'', JInt (int (gt_sequence t))),
                           (''previous_intent_hash'', JStr (gt_previous_intent_hash t)),
                           (''next_intent_hash'', JStr h), (''reason'', JStr reason), (''approved_by'', JStr approved_by)]) reg1 of
                  (Inl e, reg2) \<Rightarrow> (Inl e, reg2)
                | (Inr _, reg2) \<Rightarrow> (Inr t, reg2))))"

definition assert_egress :: "pylib \<Rightarrow> 'w domain_registry \<Rightarrow> string \<Rightarrow> string \<Rightarrow> unit res" where
  "assert_egress L reg did url =
     (case require_active reg did of
        Inl e \<Rightarrow> Inl e
      | Inr d \<Rightarrow>
          (case urlsplit L url of
             Inl e \<Rightarrow> Inl e
           | Inr u \<Rightarrow>
               let hostname = rstrip_char (CHR ''.'') (py_lower L (head_text (url_hostname L u))) in
               if hostname = [] \<or> hostname \<notin> egress_hosts d
               then domain_error ''egress destination is outside domain authority'' else Inr ()))"

definition freeze ::
  "pylib \<Rightarrow> 'w ledger_io \<Rightarrow> string \<Rightarrow> string \<Rightarrow> string \<Rightarrow> 'w domain_registry \<Rightarrow> unit res \<times> 'w domain_registry" where
  "freeze L io ts did reason reg =
     (case get_domain reg did of
        Inl e \<Rightarrow> (Inl e, reg)
      | Inr d \<Rightarrow>
          let d' = d\<lparr>frozen := True, freeze_reason := Some reason\<rparr> in
          emit_event L io ts
            ((''event'', JStr ''security_domain_frozen'') # domain_ref d' @ [(''reason'', JStr reason)])
            (reg\<lparr>domains := dict_set did d' (domains reg)\<rparr>))"

definition freeze_root ::
  "pylib \<Rightarrow> 'w ledger_io \<Rightarrow> string \<Rightarrow> string \<Rightarrow> string \<Rightarrow> 'w domain_registry \<Rightarrow> unit res \<times> 'w domain_registry" where
  "freeze_root L io ts rid reason reg =
     (let hit = (\<lambda>d. root_domain_id d = rid);
          ids = map (domain_id \<circ> snd) (filter (hit \<circ> snd) (domains reg)) in
      emit_event L io ts
        [(''event'', JStr ''security_domain_root_frozen''), (''root_domain_id'', JStr rid),
         (''domain_ids'', jlist (sort ids)), (''reason'', JStr reason)]
        (reg\<lparr>domains := map (\<lambda>(k, d). (k, if hit d then d\<lparr>frozen := True, freeze_reason := Some reason\<rparr> else d)) (domains reg)\<rparr>))"

definition record_dispatch ::
  "pylib \<Rightarrow> 'w ledger_io \<Rightarrow> string \<Rightarrow> string \<Rightarrow> capability \<Rightarrow> string \<Rightarrow> string list \<Rightarrow> 'w domain_registry
     \<Rightarrow> unit res \<times> 'w domain_registry" where
  "record_dispatch L io ts did cap res command reg =
     (case require_active reg did of
        Inl e \<Rightarrow> (Inl e, reg)
      | Inr d \<Rightarrow> emit_event L io ts
          ((''event'', JStr ''security_domain_dispatch'') # domain_ref d
           @ [(''model_id_hash'', opt_jstr (model_id_hash d)), (''current_intent_hash'', JStr (current_intent_hash d)),
              (''initial_command_hash'', opt_jstr (initial_command_hash d)),
              (''command_hash'', opt_jstr (hash_command L (Some command))),
              (''capability'', JStr (capability_value cap)), (''resource'', JStr res)]) reg)"

definition record_broker_event ::
  "pylib \<Rightarrow> 'w ledger_io \<Rightarrow> string \<Rightarrow> string \<Rightarrow> string \<Rightarrow> string \<Rightarrow> bool \<Rightarrow> jobj \<Rightarrow> 'w domain_registry
     \<Rightarrow> unit res \<times> 'w domain_registry" where
  "record_broker_event L io ts did broker oper allowed detail reg =
     (case require_active reg did of
        Inl e \<Rightarrow> (Inl e, reg)
      | Inr d \<Rightarrow> emit_event L io ts
          ((''event'', JStr ''security_domain_broker'') # domain_ref d
           @ [(''model_id_hash'', opt_jstr (model_id_hash d)), (''broker'', JStr broker), (''operation'', JStr oper),
              (''allowed'', JBool allowed), (''detail'', JObj detail)]) reg)"

section \<open>Runs\<close>

datatype domain_op =
    CreateRoot string domain_request
  | SpawnChild string string domain_request
  | TransitionGoal string string string string
  | Freeze string string
  | FreezeRoot string string
  | RecordDispatch string capability string "string list"
  | RecordBroker string string string bool jobj

definition forget :: "'a res \<times> 's \<Rightarrow> unit res \<times> 's" where
  "forget r = (map_sum id (\<lambda>_. ()) (fst r), snd r)"

lemma snd_forget [simp]: "snd (forget r) = snd r"
  by (simp add: forget_def)

fun domain_step ::
  "pylib \<Rightarrow> 'w ledger_io \<Rightarrow> string \<Rightarrow> domain_op \<Rightarrow> 'w domain_registry \<Rightarrow> unit res \<times> 'w domain_registry" where
  "domain_step L io ts (CreateRoot did rq) reg = forget (create_root L io ts did rq reg)"
| "domain_step L io ts (SpawnChild did pid rq) reg = forget (spawn_child L io ts did pid rq reg)"
| "domain_step L io ts (TransitionGoal did g r a) reg = forget (transition_goal L io ts did g r a reg)"
| "domain_step L io ts (Freeze did r) reg = freeze L io ts did r reg"
| "domain_step L io ts (FreezeRoot rid r) reg = freeze_root L io ts rid r reg"
| "domain_step L io ts (RecordDispatch did c r cmd) reg = record_dispatch L io ts did c r cmd reg"
| "domain_step L io ts (RecordBroker did b oper ok det) reg = record_broker_event L io ts did b oper ok det reg"

text \<open>The identifier that a creating operation drew is new to the registry.\<close>

fun fresh_id :: "domain_op \<Rightarrow> 'w domain_registry \<Rightarrow> bool" where
  "fresh_id (CreateRoot did rq) reg = (dict_get (domains reg) did = None)"
| "fresh_id (SpawnChild did pid rq) reg = (dict_get (domains reg) did = None)"
| "fresh_id _ reg = True"

lemma snd_case_res [simp]:
  "snd (case r of (Inl e, s) \<Rightarrow> (Inl e, s) | (Inr u, s) \<Rightarrow> (Inr d, s)) = snd r"
  by (auto split: prod.split sum.split)

lemma emit_event_keeps [simp]:
  "domains (snd (emit_event L io ts ev reg)) = domains reg"
  "max_spawn_depth (snd (emit_event L io ts ev reg)) = max_spawn_depth reg"
  by (auto simp: emit_event_def split: option.split sum.split prod.split)

text \<open>
  Every operation either leaves the table alone, adds one new domain, or rewrites domains in their
  mutable fields only.
\<close>

definition same_identity :: "security_domain \<Rightarrow> security_domain \<Rightarrow> bool" where
  "same_identity d d' \<longleftrightarrow>
     d' = d\<lparr>current_intent_hash := current_intent_hash d', transitions := transitions d',
            frozen := frozen d', freeze_reason := freeze_reason d'\<rparr>
     \<and> (frozen d \<longrightarrow> frozen d') \<and> prefix (transitions d) (transitions d')"

lemma same_identity_refl [simp]: "same_identity d d"
  by (simp add: same_identity_def)

lemma same_identity_trans: "same_identity a b \<Longrightarrow> same_identity b c \<Longrightarrow> same_identity a c"
  by (cases a; cases b; cases c) (auto simp: same_identity_def intro: prefix_order.trans)

lemma same_identityD:
  assumes "same_identity d d'"
  shows "domain_id d' = domain_id d" "root_domain_id d' = root_domain_id d" "parent_domain_id d' = parent_domain_id d"
    "capability_ceiling d' = capability_ceiling d" "egress_hosts d' = egress_hosts d" "spawn_depth d' = spawn_depth d"
    "d_provenance d' = d_provenance d" "frozen d \<Longrightarrow> frozen d'"
  using assms by (cases d; cases d'; simp add: same_identity_def)+

section \<open>Lineage\<close>

definition child_ok :: "security_domain \<Rightarrow> security_domain \<Rightarrow> bool" where
  "child_ok pd d \<longleftrightarrow> AGENT_SPAWN \<in> capability_ceiling pd \<and> capability_ceiling d \<subseteq> capability_ceiling pd
     \<and> egress_hosts d \<subseteq> egress_hosts pd \<and> root_domain_id d = root_domain_id pd
     \<and> spawn_depth d = spawn_depth pd + 1 \<and> prefix (d_provenance pd) (d_provenance d)"

definition domain_ok :: "int \<Rightarrow> security_domain dict \<Rightarrow> string \<Rightarrow> security_domain \<Rightarrow> bool" where
  "domain_ok m ds k d \<longleftrightarrow> domain_id d = k \<and> 0 \<le> spawn_depth d \<and> spawn_depth d \<le> m
     \<and> (case parent_domain_id d of
          None \<Rightarrow> root_domain_id d = k \<and> spawn_depth d = 0
        | Some p \<Rightarrow> (\<exists>pd. dict_get ds p = Some pd \<and> child_ok pd d))"

definition lineage_inv :: "'w domain_registry \<Rightarrow> bool" where
  "lineage_inv reg \<longleftrightarrow> 0 \<le> max_spawn_depth reg
     \<and> (\<forall>k d. dict_get (domains reg) k = Some d \<longrightarrow> domain_ok (max_spawn_depth reg) (domains reg) k d)"

definition table_rewritten :: "security_domain dict \<Rightarrow> security_domain dict \<Rightarrow> bool" where
  "table_rewritten ds ds' \<longleftrightarrow> (\<forall>k. rel_option same_identity (dict_get ds k) (dict_get ds' k))"

definition table_extended :: "int \<Rightarrow> security_domain dict \<Rightarrow> security_domain dict \<Rightarrow> bool" where
  "table_extended m ds ds' \<longleftrightarrow>
     (\<exists>did d. dict_get ds did = None \<and> ds' = dict_set did d ds \<and> domain_ok m ds' did d
        \<and> (root_domain_id d = did
           \<or> (\<exists>p pd. dict_get ds p = Some pd \<and> \<not> frozen pd \<and> root_domain_id d = root_domain_id pd)))"

lemma table_rewritten_refl [simp]: "table_rewritten ds ds"
  by (simp add: table_rewritten_def option.rel_refl)

lemma table_rewritten_set:
  assumes "dict_get ds k = Some d" and "same_identity d d'"
  shows "table_rewritten ds (dict_set k d' ds)"
  using assms by (auto simp: table_rewritten_def option.rel_refl)

lemma require_active_Inr: "require_active reg k = Inr d \<longleftrightarrow> dict_get (domains reg) k = Some d \<and> \<not> frozen d"
  by (auto simp: require_active_def get_domain_def split: option.split)

lemma get_domain_Inr: "get_domain reg k = Inr d \<longleftrightarrow> dict_get (domains reg) k = Some d"
  by (auto simp: get_domain_def split: option.split)

lemma create_root_table:
  assumes "lineage_inv reg" and "dict_get (domains reg) did = None"
  shows "domains (snd (create_root L io ts did rq reg)) = domains reg
    \<or> table_extended (max_spawn_depth reg) (domains reg) (domains (snd (create_root L io ts did rq reg)))"
proof -
  let ?new = "\<lambda>hosts ids. make_domain L did did None rq hosts (rq_provenance rq) ids 0"
  have "domain_ok (max_spawn_depth reg) ds did (?new hosts ids)" for hosts ids ds
    using assms(1) by (simp add: domain_ok_def make_domain_def lineage_inv_def case_prod_beta)
  moreover have "root_domain_id (?new hosts ids) = did" for hosts ids
    by (simp add: make_domain_def case_prod_beta)
  ultimately have "table_extended (max_spawn_depth reg) (domains reg) (dict_set did (?new hosts ids) (domains reg))"
    for hosts ids using assms(2) unfolding table_extended_def by blast
  then show ?thesis
    by (cases "validate_identity_binding reg (rq_model_id rq) (rq_initial_command rq)"; cases "identity_hashes L rq";
        cases "normalize_hosts L (rq_egress_hosts rq)") (simp_all add: create_root_def Let_def)
qed

lemma spawn_child_table:
  assumes inv: "lineage_inv reg" and fresh: "dict_get (domains reg) did = None"
  shows "domains (snd (spawn_child L io ts did pid rq reg)) = domains reg
    \<or> table_extended (max_spawn_depth reg) (domains reg) (domains (snd (spawn_child L io ts did pid rq reg)))"
proof (cases "require_active reg pid")
  case (Inl e)
  then show ?thesis
    by (cases "validate_identity_binding reg (rq_model_id rq) (rq_initial_command rq)")
      (simp_all add: spawn_child_def)
next
  case (Inr parent)
  then have p: "dict_get (domains reg) pid = Some parent" "\<not> frozen parent" by (simp_all add: require_active_Inr)
  with inv have pid: "domain_id parent = pid" and depth: "0 \<le> spawn_depth parent"
    by (auto simp: lineage_inv_def domain_ok_def)
  let ?new = "\<lambda>hosts ids. make_domain L did (root_domain_id parent) (Some (domain_id parent)) rq hosts
      (d_provenance parent @ rq_provenance rq) ids (spawn_depth parent + 1)"
  have ext: "table_extended (max_spawn_depth reg) (domains reg) (dict_set did (?new hosts ids) (domains reg))"
    if "AGENT_SPAWN \<in> capability_ceiling parent" "rq_capabilities rq \<subseteq> capability_ceiling parent"
      "hosts \<subseteq> egress_hosts parent" "spawn_depth parent + 1 \<le> max_spawn_depth reg" for hosts ids
  proof -
    have "pid \<noteq> did" using fresh p by auto
    then have "domain_ok (max_spawn_depth reg) (dict_set did (?new hosts ids) (domains reg)) did (?new hosts ids)"
      using that depth p pid by (simp add: domain_ok_def make_domain_def case_prod_beta child_ok_def)
    moreover have "root_domain_id (?new hosts ids) = root_domain_id parent" by (simp add: make_domain_def case_prod_beta)
    ultimately show ?thesis unfolding table_extended_def using fresh p by blast
  qed
  show ?thesis
    by (cases "validate_identity_binding reg (rq_model_id rq) (rq_initial_command rq)"; cases "identity_hashes L rq";
        cases "normalize_hosts L (rq_egress_hosts rq)") (use ext in \<open>simp_all add: spawn_child_def Let_def Inr not_less\<close>)
qed

lemma transition_goal_table:
  "table_rewritten (domains reg) (domains (snd (transition_goal L io ts did g r a reg)))"
proof (cases "require_active reg did")
  case (Inl e)
  then show ?thesis by (simp add: transition_goal_def)
next
  case (Inr d)
  then have d: "dict_get (domains reg) did = Some d" by (simp add: require_active_Inr)
  have "same_identity d (d\<lparr>current_intent_hash := h, transitions := transitions d @ [t]\<rparr>)" for h t
    by (simp add: same_identity_def)
  with table_rewritten_set [OF d] show ?thesis
    by (cases "hash_intent L g") (simp_all add: transition_goal_def Let_def Inr)
qed

lemma freeze_table: "table_rewritten (domains reg) (domains (snd (freeze L io ts did r reg)))"
proof (cases "get_domain reg did")
  case (Inl e)
  then show ?thesis by (simp add: freeze_def)
next
  case (Inr d)
  then have d: "dict_get (domains reg) did = Some d" by (simp add: get_domain_Inr)
  have "same_identity d (d\<lparr>frozen := True, freeze_reason := Some r\<rparr>)" by (simp add: same_identity_def)
  with table_rewritten_set [OF d] show ?thesis by (simp add: freeze_def Let_def Inr)
qed

lemma freeze_root_get:
  "dict_get (domains (snd (freeze_root L io ts rid r reg))) k =
     map_option (\<lambda>d. if root_domain_id d = rid then d\<lparr>frozen := True, freeze_reason := Some r\<rparr> else d)
       (dict_get (domains reg) k)"
  by (simp add: freeze_root_def Let_def dict_get_map_values)

lemma freeze_root_table: "table_rewritten (domains reg) (domains (snd (freeze_root L io ts rid r reg)))"
  unfolding table_rewritten_def freeze_root_get
  by (auto simp: option.rel_map same_identity_def intro: option.rel_refl)

lemma domain_step_table:
  assumes "lineage_inv reg" and "fresh_id x reg"
  shows "max_spawn_depth (snd (domain_step L io ts x reg)) = max_spawn_depth reg"
    and "table_rewritten (domains reg) (domains (snd (domain_step L io ts x reg)))
      \<or> table_extended (max_spawn_depth reg) (domains reg) (domains (snd (domain_step L io ts x reg)))"
proof -
  show "table_rewritten (domains reg) (domains (snd (domain_step L io ts x reg)))
      \<or> table_extended (max_spawn_depth reg) (domains reg) (domains (snd (domain_step L io ts x reg)))"
  proof (cases x)
    case (CreateRoot did rq)
    then show ?thesis using assms create_root_table [of reg did L io ts rq] by auto
  next
    case (SpawnChild did pid rq)
    then show ?thesis using assms spawn_child_table [of reg did L io ts pid rq] by auto
  next
    case (RecordDispatch did c r cmd)
    then show ?thesis by (cases "require_active reg did") (simp_all add: record_dispatch_def)
  next
    case (RecordBroker did b oper ok det)
    then show ?thesis by (cases "require_active reg did") (simp_all add: record_broker_event_def)
  qed (simp_all add: transition_goal_table freeze_table freeze_root_table)
  show "max_spawn_depth (snd (domain_step L io ts x reg)) = max_spawn_depth reg"
    by (cases x) (simp_all add: create_root_def spawn_child_def transition_goal_def freeze_def freeze_root_def
        record_dispatch_def record_broker_event_def Let_def split: sum.split)
qed

lemma domain_ok_rewritten:
  assumes "table_rewritten ds ds'" and "dict_get ds k = Some d" and "domain_ok m ds k d" and "same_identity d d'"
  shows "domain_ok m ds' k d'"
proof -
  note eq = same_identityD [OF assms(4)]
  have parent: "\<exists>pd'. dict_get ds' p = Some pd' \<and> child_ok pd' d'"
    if pd: "dict_get ds p = Some pd" "child_ok pd d" for p pd
  proof -
    have "rel_option same_identity (dict_get ds p) (dict_get ds' p)" using assms(1) by (simp add: table_rewritten_def)
    then obtain pd' where pd': "dict_get ds' p = Some pd'" "same_identity pd pd'"
      unfolding pd(1) by (auto simp: option_rel_Some1)
    with pd(2) same_identityD [OF pd'(2)] eq show ?thesis by (simp add: child_ok_def)
  qed
  show ?thesis
  proof (cases "parent_domain_id d")
    case None
    with assms(3) eq show ?thesis by (simp add: domain_ok_def)
  next
    case (Some p)
    with assms(3) obtain pd where "dict_get ds p = Some pd" "child_ok pd d" by (auto simp: domain_ok_def)
    from parent [OF this] assms(3) eq Some show ?thesis by (simp add: domain_ok_def)
  qed
qed

lemma domain_ok_extended:
  assumes "dict_get ds did = None" and "domain_ok m ds k d"
  shows "domain_ok m (dict_set did e ds) k d"
proof (cases "parent_domain_id d")
  case None
  with assms(2) show ?thesis by (simp add: domain_ok_def)
next
  case (Some p)
  with assms obtain pd where pd: "dict_get ds p = Some pd" "child_ok pd d" by (auto simp: domain_ok_def)
  with assms(1) have "p \<noteq> did" by auto
  with Some pd assms(2) show ?thesis by (auto simp: domain_ok_def)
qed

lemma rewritten_Some:
  assumes "table_rewritten ds ds'" and "dict_get ds' k = Some d'"
  obtains d where "dict_get ds k = Some d" and "same_identity d d'"
proof -
  have "rel_option same_identity (dict_get ds k) (dict_get ds' k)" using assms(1) by (simp add: table_rewritten_def)
  then show ?thesis using that assms(2) by (auto simp: option_rel_Some2)
qed

lemma domain_step_inv:
  assumes inv: "lineage_inv reg" and fresh: "fresh_id x reg"
  shows "lineage_inv (snd (domain_step L io ts x reg))"
proof -
  let ?r = "snd (domain_step L io ts x reg)"
  note m = domain_step_table(1) [OF assms, of L io ts]
  have "domain_ok (max_spawn_depth reg) (domains ?r) k d'" if d': "dict_get (domains ?r) k = Some d'" for k d'
    using domain_step_table(2) [OF assms, of L io ts]
  proof
    assume rw: "table_rewritten (domains reg) (domains ?r)"
    from rewritten_Some [OF rw d'] obtain d where "dict_get (domains reg) k = Some d" "same_identity d d'" .
    with inv show ?thesis by (intro domain_ok_rewritten [OF rw]) (auto simp: lineage_inv_def)
  next
    assume "table_extended (max_spawn_depth reg) (domains reg) (domains ?r)"
    then obtain did d where new: "dict_get (domains reg) did = None" "domains ?r = dict_set did d (domains reg)"
        "domain_ok (max_spawn_depth reg) (domains ?r) did d" by (auto simp: table_extended_def)
    show ?thesis
    proof (cases "k = did")
      case True
      with d' new show ?thesis by simp
    next
      case False
      with d' new have "dict_get (domains reg) k = Some d'" by simp
      with inv have "domain_ok (max_spawn_depth reg) (domains reg) k d'" by (simp add: lineage_inv_def)
      with new show ?thesis by (simp add: domain_ok_extended)
    qed
  qed
  with inv m show ?thesis by (simp add: lineage_inv_def)
qed

text \<open>Domains persist, with their identity.\<close>

definition domains_persist :: "'w domain_registry \<Rightarrow> 'w domain_registry \<Rightarrow> bool" where
  "domains_persist reg reg' \<longleftrightarrow>
     (\<forall>k d. dict_get (domains reg) k = Some d \<longrightarrow> (\<exists>d'. dict_get (domains reg') k = Some d' \<and> same_identity d d'))"

lemma domain_step_persist:
  assumes "lineage_inv reg" and "fresh_id x reg"
  shows "domains_persist reg (snd (domain_step L io ts x reg))"
  using domain_step_table(2) [OF assms, of L io ts]
proof
  assume "table_rewritten (domains reg) (domains (snd (domain_step L io ts x reg)))"
  then show ?thesis unfolding table_rewritten_def domains_persist_def by (metis option_rel_Some1)
next
  assume "table_extended (max_spawn_depth reg) (domains reg) (domains (snd (domain_step L io ts x reg)))"
  then show ?thesis unfolding table_extended_def domains_persist_def by (metis dict_get_set option.distinct(1) same_identity_refl)
qed

interpretation registry: guarded_object "domain_step L io ts" fresh_id lineage_inv domains_persist
  for L and io :: "'w ledger_io" and ts
proof (unfold_locales, goal_cases)
  case (1 s x)
  then show ?case by (rule domain_step_inv)
next
  case (2 s x)
  then show ?case by (rule domain_step_persist)
next
  case (3 s)
  show ?case by (simp add: domains_persist_def)
next
  case (4 r s t)
  then show ?case unfolding domains_persist_def by (metis same_identity_trans)
qed

section \<open>Authority\<close>

text \<open>Every domain descends from a root whose authority bounds its own.\<close>

lemma descends_from_root:
  assumes "lineage_inv reg" and "dict_get (domains reg) k = Some d"
  shows "\<exists>r. dict_get (domains reg) (root_domain_id d) = Some r \<and> parent_domain_id r = None
    \<and> capability_ceiling d \<subseteq> capability_ceiling r \<and> egress_hosts d \<subseteq> egress_hosts r
    \<and> prefix (d_provenance r) (d_provenance d)"
  using assms(2)
proof (induction "nat (spawn_depth d)" arbitrary: k d)
  case 0
  with assms(1) have ok: "domain_ok (max_spawn_depth reg) (domains reg) k d" by (simp add: lineage_inv_def)
  have "parent_domain_id d = None"
  proof (rule ccontr)
    assume "parent_domain_id d \<noteq> None"
    then obtain p pd where "dict_get (domains reg) p = Some pd" "child_ok pd d"
      using ok by (auto simp: domain_ok_def)
    with assms(1) have "0 < spawn_depth d" by (fastforce simp: lineage_inv_def domain_ok_def child_ok_def)
    with 0(1) show False by simp
  qed
  with ok 0(2) show ?case by (auto simp: domain_ok_def)
next
  case (Suc n)
  with assms(1) have ok: "domain_ok (max_spawn_depth reg) (domains reg) k d" by (simp add: lineage_inv_def)
  then obtain p pd where pd: "dict_get (domains reg) p = Some pd" "child_ok pd d"
    using Suc(2) by (auto simp: domain_ok_def split: option.split_asm)
  then have "n = nat (spawn_depth pd)" using Suc(2) by (simp add: child_ok_def)
  from Suc(1) [OF this pd(1)] pd(2) show ?case unfolding child_ok_def by (metis order_trans prefix_order.trans)
qed

definition registry_run ::
  "pylib \<Rightarrow> 'w ledger_io \<Rightarrow> string \<Rightarrow> domain_op list \<Rightarrow> 'w domain_registry \<Rightarrow> 'w domain_registry" where
  "registry_run L io ts xs reg = snd (run_ops (domain_step L io ts) xs reg)"

abbreviation fresh_run ::
  "pylib \<Rightarrow> 'w ledger_io \<Rightarrow> string \<Rightarrow> domain_op list \<Rightarrow> 'w domain_registry \<Rightarrow> bool" where
  "fresh_run L io ts \<equiv> run_ok fresh_id (domain_step L io ts)"

lemma new_registry_inv: "new_registry n strict led fs w = Inr reg \<Longrightarrow> lineage_inv reg"
  by (auto simp: new_registry_def lineage_inv_def split: if_splits)

text \<open>
  Lineage. From a new registry, along any run whose drawn identifiers are fresh (whatever the ledger
  does), every domain is either a root at depth 0 or the child of a registered domain that holds
  \<open>agent.spawn\<close>, with a subset of that parent's capabilities and egress hosts, the same root, depth one
  more (never above the limit) and the parent's provenance as a prefix of its own; and no operation
  removes a domain, unfreezes it or changes its identity.
\<close>

theorem registry_lineage:
  assumes "new_registry n strict led fs w = Inr reg" and "fresh_run L io ts (xs @ ys) reg"
  shows "lineage_inv (registry_run L io ts xs reg)
    \<and> domains_persist (registry_run L io ts xs reg) (registry_run L io ts (xs @ ys) reg)"
proof -
  note inv = new_registry_inv [OF assms(1)]
  from assms(2) have ok: "fresh_run L io ts xs reg" "fresh_run L io ts ys (registry_run L io ts xs reg)"
    by (simp_all add: run_ok_append registry_run_def)
  have i: "lineage_inv (registry_run L io ts xs reg)"
    unfolding registry_run_def by (rule registry.run_inv [OF inv ok(1)])
  with registry.run_below [OF i ok(2)] show ?thesis by (simp add: registry_run_def run_ops_append)
qed

definition demo_request :: domain_request where
  "demo_request = \<lparr>rq_actor = ''planner'', rq_initial_prompt = ''build it'', rq_capabilities = {AGENT_SPAWN, FS_READ_PROJECT},
     rq_provenance = [HUMAN], rq_egress_hosts = [''Example.org.''], rq_initial_command = None, rq_model_id = None\<rparr>"

definition demo_registry :: "unit domain_registry" where
  "demo_registry = \<lparr>max_spawn_depth = 1, strict_identity_binding = False, dr_ledger = None, domains = [],
     dr_events = [], dr_files = empty_files, dr_world = ()\<rparr>"

definition demo_ops :: "domain_op list" where
  "demo_ops = [CreateRoot ''r1'' demo_request,
     SpawnChild ''c1'' ''r1'' (demo_request\<lparr>rq_capabilities := {FS_READ_PROJECT}, rq_egress_hosts := []\<rparr>)]"

lemma new_demo_registry: "new_registry 1 False None empty_files () = Inr demo_registry"
  by (simp add: new_registry_def demo_registry_def)

lemma demo_registry_run:
  "fresh_run plain_lib (status_io 200) ''now'' demo_ops demo_registry
   \<and> map fst (domains (registry_run plain_lib (status_io 200) ''now'' demo_ops demo_registry)) = [''r1'', ''c1'']"
  by code_simp

theorem registry_lineage_witness:
  "lineage_inv (registry_run plain_lib (status_io 200) ''now'' demo_ops demo_registry)
   \<and> length (domains (registry_run plain_lib (status_io 200) ''now'' demo_ops demo_registry)) = 2"
proof -
  have "fresh_run plain_lib (status_io 200) ''now'' (demo_ops @ []) demo_registry" using demo_registry_run by simp
  from registry_lineage [OF new_demo_registry this] show ?thesis
    using demo_registry_run by (metis length_map list.size(3,4) One_nat_def numeral_2_eq_2 add_Suc_right add_0_right)
qed

lemma assert_capabilities_Inr:
  "assert_capabilities reg did C = Inr () \<longleftrightarrow> (\<exists>d. require_active reg did = Inr d \<and> C \<subseteq> capability_ceiling d)"
  by (auto simp: assert_capabilities_def split: sum.split)



section \<open>Frozen lineages\<close>

definition lineage_frozen :: "string \<Rightarrow> 'w domain_registry \<Rightarrow> bool" where
  "lineage_frozen rid reg \<longleftrightarrow> lineage_inv reg
     \<and> (\<exists>k d. dict_get (domains reg) k = Some d \<and> root_domain_id d = rid)
     \<and> (\<forall>k d. dict_get (domains reg) k = Some d \<and> root_domain_id d = rid \<longrightarrow> frozen d)"

lemma domain_step_frozen:
  assumes fr: "lineage_frozen rid reg" and fresh: "fresh_id x reg"
  shows "lineage_frozen rid (snd (domain_step L io ts x reg))"
proof -
  let ?r = "snd (domain_step L io ts x reg)"
  from fr have inv: "lineage_inv reg"
    and all: "\<And>k d. dict_get (domains reg) k = Some d \<Longrightarrow> root_domain_id d = rid \<Longrightarrow> frozen d"
    by (auto simp: lineage_frozen_def)
  from fr obtain k0 d0 where k0: "dict_get (domains reg) k0 = Some d0" "root_domain_id d0 = rid"
    by (auto simp: lineage_frozen_def)
  then obtain d0' where "dict_get (domains ?r) k0 = Some d0'" "root_domain_id d0' = rid"
    using domain_step_persist [OF inv fresh, of L io ts] unfolding domains_persist_def by (metis same_identityD(2))
  moreover have "frozen d'" if d': "dict_get (domains ?r) k = Some d'" "root_domain_id d' = rid" for k d'
    using domain_step_table(2) [OF inv fresh, of L io ts]
  proof
    assume rw: "table_rewritten (domains reg) (domains ?r)"
    from rewritten_Some [OF rw d'(1)] obtain d where "dict_get (domains reg) k = Some d" "same_identity d d'" .
    with all d'(2) show ?thesis by (metis same_identityD(2,8))
  next
    assume "table_extended (max_spawn_depth reg) (domains reg) (domains ?r)"
    then obtain did d where new: "dict_get (domains reg) did = None" "domains ?r = dict_set did d (domains reg)"
        "root_domain_id d = did \<or> (\<exists>p pd. dict_get (domains reg) p = Some pd \<and> \<not> frozen pd \<and> root_domain_id d = root_domain_id pd)"
      by (auto simp: table_extended_def)
    have "dict_get (domains reg) rid \<noteq> None" using descends_from_root [OF inv k0(1)] k0(2) by auto
    with new all have "root_domain_id d \<noteq> rid" by metis
    with d' new all show ?thesis by (auto split: if_split_asm)
  qed
  ultimately show ?thesis using domain_step_inv [OF inv fresh] unfolding lineage_frozen_def by blast
qed

interpretation frozen: guarded_object "domain_step L io ts" fresh_id "lineage_frozen rid" "\<lambda>r s. True"
  for L and io :: "'w ledger_io" and ts rid
  by unfold_locales (auto simp: domain_step_frozen)

lemma freeze_root_frozen:
  assumes "lineage_inv reg" and "dict_get (domains reg) k = Some d" and "root_domain_id d = rid"
  shows "lineage_frozen rid (snd (freeze_root L io ts rid reason reg))"
proof -
  have "lineage_inv (snd (freeze_root L io ts rid reason reg))"
    using domain_step_inv [OF assms(1), of "FreezeRoot rid reason" L io ts] by simp
  moreover have "\<exists>k d. dict_get (domains (snd (freeze_root L io ts rid reason reg))) k = Some d \<and> root_domain_id d = rid"
    using assms(2,3) by (intro exI [of _ k]) (simp add: freeze_root_get)
  moreover have "frozen d'" if "dict_get (domains (snd (freeze_root L io ts rid reason reg))) k' = Some d'"
    "root_domain_id d' = rid" for k' d'
    using that by (cases "dict_get (domains reg) k'") (auto simp: freeze_root_get split: if_split_asm)
  ultimately show ?thesis unfolding lineage_frozen_def by blast
qed

text \<open>
  C27. A frozen lineage is dead for good. Once \<open>freeze_root\<close> has been called for the root of a registered
  domain, even if writing the audit event failed, then after any further operations with fresh
  identifiers every domain of that lineage is frozen, \<open>require_active\<close> refuses it, and with it every
  dispatch, broker event, goal transition and spawn.
\<close>

theorem frozen_lineage_stays_frozen:
  assumes "lineage_inv reg" and "dict_get (domains reg) k = Some d"
    and "fresh_run L io ts xs (snd (freeze_root L io ts (root_domain_id d) reason reg))"
    and "dict_get (domains (registry_run L io ts xs (snd (freeze_root L io ts (root_domain_id d) reason reg)))) did = Some d'"
    and "root_domain_id d' = root_domain_id d"
  defines "final \<equiv> registry_run L io ts xs (snd (freeze_root L io ts (root_domain_id d) reason reg))"
  shows "\<not> returns (require_active final did)
    \<and> \<not> returns (fst (spawn_child L io ts new did rq final)) \<and> domains (snd (spawn_child L io ts new did rq final)) = domains final
    \<and> \<not> returns (fst (record_dispatch L io ts did cap res cmd final)) \<and> \<not> returns (trusted_context_of final did)"
proof -
  have "lineage_frozen (root_domain_id d) final"
    unfolding final_def registry_run_def
    by (rule frozen.run_inv [OF freeze_root_frozen [OF assms(1,2) refl] assms(3)])
  with assms(4,5) have "frozen d'" unfolding final_def lineage_frozen_def by blast
  then obtain e where e: "require_active final did = Inl e"
    using assms(4) by (cases "require_active final did") (auto simp: require_active_Inr final_def)
  then show ?thesis
    by (cases "validate_identity_binding final (rq_model_id rq) (rq_initial_command rq)")
      (simp_all add: spawn_child_def record_dispatch_def trusted_context_of_def)
qed

definition demo_root :: "unit domain_registry" where
  "demo_root = registry_run plain_lib (status_io 200) ''now'' [CreateRoot ''r1'' demo_request] demo_registry"

definition demo_frozen :: "unit domain_registry" where
  "demo_frozen = snd (freeze_root plain_lib (status_io 200) ''now'' ''r1'' ''violation'' demo_root)"

theorem frozen_lineage_stays_frozen_witness:
  "\<not> returns (require_active (registry_run plain_lib (status_io 200) ''now'' [Freeze ''r1'' ''again''] demo_frozen) ''r1'')"
proof -
  have i: "lineage_inv demo_root"
    unfolding demo_root_def registry_run_def
    by (intro registry.run_inv [OF new_registry_inv [OF new_demo_registry]]) (simp add: demo_registry_def)
  have "map_option root_domain_id (dict_get (domains demo_root) ''r1'') = Some ''r1''" by code_simp
  then obtain d where d: "dict_get (domains demo_root) ''r1'' = Some d" "root_domain_id d = ''r1''" by auto
  let ?fin = "registry_run plain_lib (status_io 200) ''now'' [Freeze ''r1'' ''again''] demo_frozen"
  have run: "fresh_run plain_lib (status_io 200) ''now'' [Freeze ''r1'' ''again''] demo_frozen" by simp
  have fr: "lineage_inv demo_frozen"
    using freeze_root_frozen [OF i d] by (simp add: demo_frozen_def lineage_frozen_def)
  have "\<exists>d1. dict_get (domains demo_frozen) ''r1'' = Some d1 \<and> root_domain_id d1 = ''r1''"
    by (simp add: demo_frozen_def freeze_root_get d)
  then obtain d1 where d1: "dict_get (domains demo_frozen) ''r1'' = Some d1" "root_domain_id d1 = ''r1''" by blast
  have "domains_persist demo_frozen ?fin" unfolding registry_run_def by (rule registry.run_below [OF fr run])
  with d1(1) obtain d' where "dict_get (domains ?fin) ''r1'' = Some d'" and same: "same_identity d1 d'"
    unfolding domains_persist_def by blast
  with same_identityD(2) [OF same] d1(2) have d': "dict_get (domains ?fin) ''r1'' = Some d'" "root_domain_id d' = ''r1''"
    by simp_all
  from frozen_lineage_stays_frozen [OF i d(1), unfolded d(2), OF run [unfolded demo_frozen_def]
      d'(1) [unfolded demo_frozen_def] d'(2)] show ?thesis unfolding demo_frozen_def by blast
qed

end
