(* ===== verification/Secret_Broker.thy ===== *)
theory Secret_Broker
  imports Trace_Model Py_Json
begin

text \<open>
  The host-side secret broker, \<^verbatim>\<open>src/bulldog/secret_broker.py\<close>, and its hardened subclass,
  \<^verbatim>\<open>src/bulldog/broker_hardening.py\<close>. Grant tokens come from the operating system's random source and
  are arguments of the issuing operations, as is the clock; \<open>json.loads\<close> is an argument of the request
  handler. Events handed to the audit callback are recorded. Socket set-up, the server thread and
  locking are not modelled.

  The lemmas show under which conditions a secret leaves the broker, that no grant is used more often
  than it allows, that revocation is final, and that one broker object releases at most one secret
  because its trace verifier is never reset.
\<close>

abbreviation broker_error :: "string \<Rightarrow> 'a res" where
  "broker_error m \<equiv> raise SecretBrokerError m"

record secret_grant =
  sg_token :: string
  sg_allowed_names :: "string set"
  sg_expires_at :: rat
  sg_sandbox_id :: "string option"
  sg_max_uses :: "int option"

record secret_broker =
  sb_trace :: trace_verifier
  sb_require_peer :: bool
  sb_allowed_uids :: "int set"
  sb_secrets :: "string dict"
  sb_grants :: "secret_grant dict"
  sb_uses :: "int dict"
  sb_events :: "jobj list"

definition new_secret_broker :: "trace_verifier option \<Rightarrow> int set option \<Rightarrow> bool \<Rightarrow> int \<Rightarrow> secret_broker res" where
  "new_secret_broker tv uids require_peer own_uid =
     (let allowed = (case uids of Some us \<Rightarrow> us | None \<Rightarrow> if require_peer then {own_uid} else {}) in
      if require_peer \<and> allowed = {}
      then broker_error ''peer credential enforcement requires a UID allowlist''
      else Inr \<lparr>sb_trace = (case tv of Some v \<Rightarrow> v | None \<Rightarrow> new_verifier), sb_require_peer = require_peer,
             sb_allowed_uids = allowed, sb_secrets = [], sb_grants = [], sb_uses = [], sb_events = []\<rparr>)"

definition broker_event :: "jobj \<Rightarrow> secret_broker \<Rightarrow> secret_broker" where
  "broker_event ev b = b\<lparr>sb_events := sb_events b @ [ev]\<rparr>"

definition broker_trace :: "string \<Rightarrow> secret_broker \<Rightarrow> unit res \<times> secret_broker" where
  "broker_trace n b =
     (case emit (event_of n []) (sb_trace b) of
        (Inl e, v) \<Rightarrow> (Inl e, b\<lparr>sb_trace := v\<rparr>)
      | (Inr _, v) \<Rightarrow> (Inr (), b\<lparr>sb_trace := v\<rparr>))"

definition put_secret :: "string \<Rightarrow> string \<Rightarrow> secret_broker \<Rightarrow> unit res \<times> secret_broker" where
  "put_secret name value b =
     (if name = [] then (raise ValueError ''secret name cannot be empty'', b)
      else (Inr (), b\<lparr>sb_secrets := dict_set name value (sb_secrets b)\<rparr>))"

definition known_names :: "secret_broker \<Rightarrow> string set" where
  "known_names b = fst ` set (sb_secrets b)"

definition issue_grant ::
  "string \<Rightarrow> rat \<Rightarrow> string set \<Rightarrow> rat \<Rightarrow> string option \<Rightarrow> int option \<Rightarrow> secret_broker \<Rightarrow> secret_grant res \<times> secret_broker" where
  "issue_grant token now names ttl sandbox max_uses b =
     (if (case max_uses of None \<Rightarrow> False | Some m \<Rightarrow> m < 1) then (raise ValueError ''max_uses must be >= 1'', b)
      else if ttl \<le> 0 then (raise ValueError ''ttl_seconds must be > 0'', b)
      else if \<not> names \<subseteq> known_names b
        then (broker_error (''grant references unknown secrets: ''
               @ py_join '', '' (sorted_list_of_set (names - known_names b))), b)
      else
        let grant = \<lparr>sg_token = token, sg_allowed_names = names, sg_expires_at = now + ttl,
                     sg_sandbox_id = sandbox, sg_max_uses = max_uses\<rparr>;
            b1 = b\<lparr>sb_grants := dict_set token grant (sb_grants b), sb_uses := dict_set token 0 (sb_uses b)\<rparr> in
        (case broker_trace ''GrantSecret'' b1 of
           (Inl e, b2) \<Rightarrow> (Inl e, b2)
         | (Inr _, b2) \<Rightarrow>
             (Inr grant, broker_event
                [(''event'', JStr ''grant_issued''), (''allowed_names'', JArr (map JStr (sorted_list_of_set names))),
                 (''expires_at'', JFloat (sg_expires_at grant)), (''sandbox_id'', opt_jstr sandbox),
                 (''max_uses'', case max_uses of None \<Rightarrow> JNull | Some m \<Rightarrow> JInt m)] b2)))"

definition revoke :: "string \<Rightarrow> secret_broker \<Rightarrow> secret_broker" where
  "revoke token b =
     broker_event [(''event'', JStr ''grant_revoked'')]
       (b\<lparr>sb_grants := dict_pop token (sb_grants b), sb_uses := dict_pop token (sb_uses b)\<rparr>)"

definition authorize_peer :: "secret_broker \<Rightarrow> int \<times> int \<times> int \<Rightarrow> (int \<times> int \<times> int) option res" where
  "authorize_peer b peer =
     (if \<not> sb_require_peer b then Inr None
      else if fst (snd peer) \<notin> sb_allowed_uids b then broker_error ''secret broker peer UID is not authorized''
      else Inr (Some peer))"

text \<open>The scan over the stored tokens; comparing with a non-ASCII token raises.\<close>

fun find_grant :: "string \<Rightarrow> secret_grant dict \<Rightarrow> (string \<times> secret_grant) option res" where
  "find_grant token [] = Inr None"
| "find_grant token ((k, g) # gs) =
     (case compare_digest k token of
        Inl e \<Rightarrow> Inl e
      | Inr same \<Rightarrow> if same then Inr (Some (k, g)) else find_grant token gs)"

definition authorize_and_get ::
  "rat \<Rightarrow> string \<Rightarrow> string \<Rightarrow> string option \<Rightarrow> secret_broker \<Rightarrow> string res \<times> secret_broker" where
  "authorize_and_get now token name sandbox b =
     (case find_grant token (sb_grants b) of
        Inl e \<Rightarrow> (Inl e, b)
      | Inr None \<Rightarrow> (broker_error ''invalid secret grant'', b)
      | Inr (Some (k, grant)) \<Rightarrow>
          if now > sg_expires_at grant
            then (broker_error ''secret grant expired'',
                  b\<lparr>sb_grants := dict_pop k (sb_grants b), sb_uses := dict_pop k (sb_uses b)\<rparr>)
          else if sg_sandbox_id grant \<noteq> None \<and> sandbox \<noteq> sg_sandbox_id grant
            then (broker_error ''secret grant belongs to another sandbox'', b)
          else if name \<notin> sg_allowed_names grant then (broker_error ''secret not granted'', b)
          else
            let uses = (case dict_get (sb_uses b) k of None \<Rightarrow> 0 | Some n \<Rightarrow> n) in
            if (case sg_max_uses grant of None \<Rightarrow> False | Some m \<Rightarrow> uses \<ge> m)
              then (broker_error ''secret grant usage exhausted'', b)
            else (case dict_get (sb_secrets b) name of
                    None \<Rightarrow> (broker_error ''secret unavailable'', b)
                  | Some value \<Rightarrow>
                      (case broker_trace ''ReturnSecret'' (b\<lparr>sb_uses := dict_set k (uses + 1) (sb_uses b)\<rparr>) of
                         (Inl e, b2) \<Rightarrow> (Inl e, b2)
                       | (Inr _, b2) \<Rightarrow> (Inr value, b2))))"

section \<open>Requests\<close>

text \<open>\<open>_read_line\<close>: chunks until a newline, the end of input or the limit.\<close>

fun read_chunks :: "nat \<Rightarrow> string \<Rightarrow> string list \<Rightarrow> string" where
  "read_chunks limit acc [] = acc"
| "read_chunks limit acc (c # cs) =
     (if length acc \<ge> limit \<or> c = [] then acc
      else if char_of (10::nat) \<in> set c then acc @ c
      else read_chunks limit (acc @ c) cs)"

definition read_line :: "nat \<Rightarrow> string list \<Rightarrow> string res" where
  "read_line limit cs =
     (let d = read_chunks limit [] cs in
      if length d \<ge> limit then broker_error ''request too large''
      else Inr (takeWhile (\<lambda>c. c \<noteq> char_of (10::nat)) d))"

definition req_str :: "pylib \<Rightarrow> jobj \<Rightarrow> string \<Rightarrow> string" where
  "req_str L d k = (case dict_get d k of None \<Rightarrow> [] | Some v \<Rightarrow> str_of_json L v)"

definition parse_request ::
  "pylib \<Rightarrow> (string \<Rightarrow> json res) \<Rightarrow> string list \<Rightarrow> (string \<times> string \<times> string option) res" where
  "parse_request L loads cs =
     (case read_line 16384 cs of
        Inl e \<Rightarrow> Inl e
      | Inr line \<Rightarrow>
          (case loads line of
             Inl e \<Rightarrow> Inl e
           | Inr (JObj d) \<Rightarrow>
               if jget d ''op'' \<noteq> JStr ''get'' then broker_error ''unsupported operation''
               else Inr (req_str L d ''token'', req_str L d ''name'',
                      case jget d ''sandbox_id'' of JNull \<Rightarrow> None | v \<Rightarrow> Some (str_of_json L v))
           | Inr _ \<Rightarrow> raise AttributeError ''object has no attribute get''))"

definition refusal :: "exn \<Rightarrow> secret_broker \<Rightarrow> jobj \<times> secret_broker" where
  "refusal e b =
     ([(''ok'', JBool False), (''error'', JStr (snd e))],
      broker_event [(''event'', JStr ''secret_access''), (''allowed'', JBool False), (''error'', JStr (snd e))] b)"

definition handle ::
  "pylib \<Rightarrow> (string \<Rightarrow> json res) \<Rightarrow> rat \<Rightarrow> int \<times> int \<times> int \<Rightarrow> string list \<Rightarrow> secret_broker \<Rightarrow> jobj \<times> secret_broker" where
  "handle L loads now peer cs b =
     (case authorize_peer b peer of
        Inl e \<Rightarrow> refusal e b
      | Inr who \<Rightarrow>
          (case parse_request L loads cs of
             Inl e \<Rightarrow> refusal e b
           | Inr (token, name, sandbox) \<Rightarrow>
               (case authorize_and_get now token name sandbox b of
                  (Inl e, b1) \<Rightarrow> refusal e b1
                | (Inr value, b1) \<Rightarrow>
                    ([(''ok'', JBool True), (''name'', JStr name), (''value'', JStr value)],
                     broker_event
                       ([(''event'', JStr ''secret_access''), (''name'', JStr name), (''allowed'', JBool True),
                         (''sandbox_id'', opt_jstr sandbox)]
                        @ (case who of None \<Rightarrow> []
                           | Some (pid, uid, gid) \<Rightarrow> [(''peer_pid'', JInt pid), (''peer_uid'', JInt uid), (''peer_gid'', JInt gid)])) b1))))"

text \<open>The client function \<open>request_secret\<close>, on the broker's response.\<close>

definition client_request :: "string \<Rightarrow> string \<Rightarrow> string option \<Rightarrow> jobj" where
  "client_request token name sandbox =
     [(''op'', JStr ''get''), (''token'', JStr token), (''name'', JStr name)]
     @ (case sandbox of None \<Rightarrow> [] | Some s \<Rightarrow> [(''sandbox_id'', JStr s)])"

definition json_truthy :: "json \<Rightarrow> bool" where
  "json_truthy j = (case j of JNull \<Rightarrow> False | JBool v \<Rightarrow> v | JInt i \<Rightarrow> i \<noteq> 0 | JFloat q \<Rightarrow> q \<noteq> 0
     | JStr s \<Rightarrow> s \<noteq> [] | JArr xs \<Rightarrow> xs \<noteq> [] | JObj d \<Rightarrow> d \<noteq> [])"

definition client_response :: "pylib \<Rightarrow> jobj \<Rightarrow> string res" where
  "client_response L response =
     (if \<not> json_truthy (jget response ''ok'')
      then broker_error (case dict_get response ''error'' of None \<Rightarrow> ''secret request failed'' | Some v \<Rightarrow> str_of_json L v)
      else case dict_get response ''value'' of
        None \<Rightarrow> raise KeyError ''value'' | Some v \<Rightarrow> Inr (str_of_json L v))"

section \<open>When a secret leaves the broker\<close>

lemma find_grant_Some: "find_grant token gs = Inr (Some (k, g)) \<Longrightarrow> k = token \<and> dict_get gs token = Some g"
  by (induction token gs rule: find_grant.induct)
    (auto simp: compare_digest_def split: sum.split_asm if_split_asm)

lemma broker_trace_frame:
  assumes "broker_trace n b = (r, b')"
  shows "b' = b\<lparr>sb_trace := sb_trace b'\<rparr>" and "sb_trace b' = snd (emit (event_of n []) (sb_trace b))"
    and "returns r \<longleftrightarrow> returns (fst (emit (event_of n []) (sb_trace b)))"
  using assms by (auto simp: broker_trace_def split: prod.split_asm sum.split_asm)

definition current_uses :: "secret_broker \<Rightarrow> string \<Rightarrow> int" where
  "current_uses b k = (case dict_get (sb_uses b) k of None \<Rightarrow> 0 | Some n \<Rightarrow> n)"

lemma authorize_and_get_Inr:
  assumes "authorize_and_get now token name sandbox b = (Inr value, b')"
  obtains grant where "dict_get (sb_grants b) token = Some grant" and "now \<le> sg_expires_at grant"
    and "sg_sandbox_id grant = None \<or> sandbox = sg_sandbox_id grant" and "name \<in> sg_allowed_names grant"
    and "\<forall>m. sg_max_uses grant = Some m \<longrightarrow> current_uses b token < m"
    and "dict_get (sb_secrets b) name = Some value"
    and "broker_trace ''ReturnSecret'' (b\<lparr>sb_uses := dict_set token (current_uses b token + 1) (sb_uses b)\<rparr>) = (Inr (), b')"
proof -
  from assms obtain k g where f: "find_grant token (sb_grants b) = Inr (Some (k, g))"
    unfolding authorize_and_get_def by (auto split: sum.split_asm option.split_asm)
  note kg = find_grant_Some [OF f]
  show ?thesis
    using assms f kg that [of g] unfolding authorize_and_get_def current_uses_def [symmetric] Let_def
    by (auto simp: not_less not_le split: option.split_asm if_split_asm sum.split_asm prod.split_asm)
qed

lemma handle_released:
  assumes "handle L loads now peer cs b = (r, b')" and "jget r ''ok'' = JBool True"
  obtains token name sandbox secret b1 who where "authorize_peer b peer = Inr who"
    and "parse_request L loads cs = Inr (token, name, sandbox)"
    and "authorize_and_get now token name sandbox b = (Inr secret, b1)" and "sb_trace b' = sb_trace b1"
    and "sb_grants b' = sb_grants b1" and "sb_uses b' = sb_uses b1"
    and "jget r ''value'' = JStr secret"
  using assms unfolding handle_def
  by (auto simp: refusal_def broker_event_def jget_def split: sum.split_asm prod.split_asm)


definition demo_broker :: secret_broker where
  "demo_broker = \<lparr>sb_trace = new_verifier\<lparr>tv_state := initial_trace_state\<lparr>secret_granted := True\<rparr>\<rparr>, sb_require_peer = True,
     sb_allowed_uids = {1000}, sb_secrets = [(''db'', ''s3cret'')],
     sb_grants = [(''tok'', \<lparr>sg_token = ''tok'', sg_allowed_names = {''db''}, sg_expires_at = 60,
        sg_sandbox_id = Some ''sbx'', sg_max_uses = Some 1\<rparr>)],
     sb_uses = [(''tok'', 0)], sb_events = []\<rparr>"


section \<open>One release per broker object\<close>

datatype broker_op =
    BPut string string
  | BIssue string rat "string set" rat "string option" "int option"
  | BRevoke string
  | BHandle rat "int \<times> int \<times> int" "string list"

datatype broker_reply =
    Stored "unit res"
  | Granted "secret_grant res"
  | Revoked
  | Response jobj

fun broker_step :: "pylib \<Rightarrow> (string \<Rightarrow> json res) \<Rightarrow> broker_op \<Rightarrow> secret_broker \<Rightarrow> broker_reply \<times> secret_broker" where
  "broker_step L loads (BPut n v) b = map_prod Stored id (put_secret n v b)"
| "broker_step L loads (BIssue t now ns ttl s m) b = map_prod Granted id (issue_grant t now ns ttl s m b)"
| "broker_step L loads (BRevoke t) b = (Revoked, revoke t b)"
| "broker_step L loads (BHandle now peer cs) b = map_prod Response id (handle L loads now peer cs b)"

fun released :: "broker_reply \<Rightarrow> bool" where
  "released (Response r) = (jget r ''ok'' = JBool True)"
| "released _ = False"

fun granted :: "broker_reply \<Rightarrow> bool" where
  "granted (Granted r) = returns r"
| "granted _ = False"

abbreviation trace_of :: "secret_broker \<Rightarrow> bull_trace_state" where
  "trace_of b \<equiv> tv_state (sb_trace b)"

lemma secret_transitions:
  "guarded_update s (event_of ''GrantSecret'' []) = t_GrantSecret s"
  "guarded_update s (event_of ''ReturnSecret'' []) = t_ReturnSecret s"
  by (simp_all add: guarded_update_def TRANSITIONS_def Let_def)

lemma emit_secret:
  "returns (fst (emit (event_of ''GrantSecret'' []) v)) \<Longrightarrow>
     \<not> secret_granted (tv_state v) \<and> secret_granted (tv_state (snd (emit (event_of ''GrantSecret'' []) v)))"
  "returns (fst (emit (event_of ''ReturnSecret'' []) v)) \<Longrightarrow>
     \<not> secret_returned (tv_state v) \<and> secret_returned (tv_state (snd (emit (event_of ''ReturnSecret'' []) v)))"
  by (auto simp: emit_def apply_transition_def secret_transitions t_GrantSecret_def t_ReturnSecret_def
      split: sum.split_asm if_split_asm)

lemma emit_secret_keeps:
  assumes "n = ''GrantSecret'' \<or> n = ''ReturnSecret''"
  shows "secret_granted (tv_state v) \<Longrightarrow> secret_granted (tv_state (snd (emit (event_of n []) v)))"
    and "secret_returned (tv_state v) \<Longrightarrow> secret_returned (tv_state (snd (emit (event_of n []) v)))"
  using assms by (auto simp: emit_def apply_transition_def secret_transitions t_GrantSecret_def t_ReturnSecret_def
      split: sum.splits if_splits)

lemma authorize_and_get_trace:
  assumes "authorize_and_get now token name sandbox b = (r, b')"
  shows "sb_trace b' = sb_trace b \<or> sb_trace b' = snd (emit (event_of ''ReturnSecret'' []) (sb_trace b))"
proof -
  have tr: "sb_trace x = snd (emit (event_of ''ReturnSecret'' []) (sb_trace b))"
    if "broker_trace ''ReturnSecret'' (b\<lparr>sb_uses := u\<rparr>) = (q, x)" for u q x
    using broker_trace_frame(2) [OF that] by simp
  show ?thesis
    using assms unfolding authorize_and_get_def Let_def
    by (auto split: sum.split_asm option.split_asm if_split_asm prod.split_asm dest: tr)
qed

lemma handle_trace:
  "sb_trace (snd (handle L loads now peer cs b)) = sb_trace b
   \<or> sb_trace (snd (handle L loads now peer cs b)) = snd (emit (event_of ''ReturnSecret'' []) (sb_trace b))"
proof (cases "authorize_peer b peer")
  case (Inl e)
  then show ?thesis by (simp add: handle_def refusal_def broker_event_def)
next
  case peer: (Inr who)
  show ?thesis
  proof (cases "parse_request L loads cs")
    case (Inl e)
    with peer show ?thesis by (simp add: handle_def refusal_def broker_event_def)
  next
    case (Inr q)
    obtain token name sandbox where q: "q = (token, name, sandbox)" by (cases q)
    obtain r b1 where a: "authorize_and_get now token name sandbox b = (r, b1)" by fastforce
    from authorize_and_get_trace [OF a] show ?thesis
      by (cases r) (simp_all add: handle_def peer Inr q a refusal_def broker_event_def)
  qed
qed

lemma issue_grant_trace:
  assumes "issue_grant t now ns ttl s m b = (r, b')"
  shows "sb_trace b' = sb_trace b \<and> \<not> returns r
    \<or> sb_trace b' = snd (emit (event_of ''GrantSecret'' []) (sb_trace b))
      \<and> (returns r \<longrightarrow> returns (fst (emit (event_of ''GrantSecret'' []) (sb_trace b))))"
proof -
  have tr: "sb_trace x = snd (emit (event_of ''GrantSecret'' []) (sb_trace b))
      \<and> (returns q \<longleftrightarrow> returns (fst (emit (event_of ''GrantSecret'' []) (sb_trace b))))"
    if "broker_trace ''GrantSecret'' (b\<lparr>sb_grants := g, sb_uses := u\<rparr>) = (q, x)" for g u q x
    using broker_trace_frame(2,3) [OF that] by simp
  show ?thesis
    using assms unfolding issue_grant_def Let_def
    by (auto simp: broker_event_def split: sum.split_asm option.split_asm if_split_asm prod.split_asm dest: tr)
qed

lemma broker_step_release:
  assumes "broker_step L loads x b = (r, b')"
  shows "secret_returned (trace_of b) \<Longrightarrow> secret_returned (trace_of b')"
    and "released r \<Longrightarrow> \<not> secret_returned (trace_of b) \<and> secret_returned (trace_of b')"
proof -
  show "secret_returned (trace_of b) \<Longrightarrow> secret_returned (trace_of b')"
  proof (cases x)
    case (BIssue t now ns ttl s m)
    assume "secret_returned (trace_of b)"
    moreover obtain q where "issue_grant t now ns ttl s m b = (q, b')" using assms BIssue by (auto simp: map_prod_def split: prod.split_asm)
    ultimately show ?thesis using issue_grant_trace emit_secret_keeps(2) [of "''GrantSecret''"] by metis
  next
    case (BHandle now peer cs)
    assume "secret_returned (trace_of b)"
    moreover have "b' = snd (handle L loads now peer cs b)" using assms BHandle by (metis broker_step.simps(4) snd_conv snd_map_prod id_apply)
    ultimately show ?thesis using handle_trace emit_secret_keeps(2) [of "''ReturnSecret''"] by metis
  qed (use assms in \<open>auto simp: put_secret_def revoke_def broker_event_def map_prod_def split: if_split_asm\<close>)
  show "released r \<Longrightarrow> \<not> secret_returned (trace_of b) \<and> secret_returned (trace_of b')"
  proof -
    assume rel: "released r"
    then obtain resp where r: "r = Response resp" "jget resp ''ok'' = JBool True" by (cases r) simp_all
    with assms obtain now peer cs where h: "handle L loads now peer cs b = (resp, b')"
      by (cases x) (auto simp: map_prod_def split: prod.split_asm)
    from h r(2) show ?thesis
    proof (rule handle_released)
      fix token name sandbox secret b1 who
      assume "authorize_and_get now token name sandbox b = (Inr secret, b1)" and b1: "sb_trace b' = sb_trace b1"
      then show ?thesis
      proof (elim authorize_and_get_Inr)
        assume t: "broker_trace ''ReturnSecret'' (b\<lparr>sb_uses := dict_set token (current_uses b token + 1) (sb_uses b)\<rparr>) = (Inr (), b1)"
        from broker_trace_frame(2,3) [OF t] b1 emit_secret(2) [of "sb_trace b"] show ?thesis by simp
      qed
    qed
  qed
qed

lemma broker_step_grant:
  assumes "broker_step L loads x b = (r, b')"
  shows "secret_granted (trace_of b) \<Longrightarrow> secret_granted (trace_of b')"
    and "granted r \<Longrightarrow> \<not> secret_granted (trace_of b) \<and> secret_granted (trace_of b')"
proof -
  show "secret_granted (trace_of b) \<Longrightarrow> secret_granted (trace_of b')"
  proof (cases x)
    case (BIssue t now ns ttl s m)
    assume "secret_granted (trace_of b)"
    moreover obtain q where "issue_grant t now ns ttl s m b = (q, b')" using assms BIssue by (auto simp: map_prod_def split: prod.split_asm)
    ultimately show ?thesis using issue_grant_trace emit_secret_keeps(1) [of "''GrantSecret''"] by metis
  next
    case (BHandle now peer cs)
    assume "secret_granted (trace_of b)"
    moreover have "b' = snd (handle L loads now peer cs b)" using assms BHandle by (metis broker_step.simps(4) snd_conv snd_map_prod id_apply)
    ultimately show ?thesis using handle_trace emit_secret_keeps(1) [of "''ReturnSecret''"] by metis
  qed (use assms in \<open>auto simp: put_secret_def revoke_def broker_event_def map_prod_def split: if_split_asm\<close>)
  show "granted r \<Longrightarrow> \<not> secret_granted (trace_of b) \<and> secret_granted (trace_of b')"
  proof -
    assume g: "granted r"
    then obtain q where r: "r = Granted q" "returns q" by (cases r) simp_all
    with assms obtain t now ns ttl s m where h: "issue_grant t now ns ttl s m b = (q, b')"
      by (cases x) (auto simp: map_prod_def split: prod.split_asm)
    from issue_grant_trace [OF h] r(2) emit_secret(1) [of "sb_trace b"] show ?thesis by auto
  qed
qed


section \<open>The hardened broker\<close>

record scoped_grant =
  sc_grant_id :: string
  sc_sandbox_id :: string
  sc_names :: "string set"
  sc_expires_at :: rat
  sc_max_uses :: int
  sc_uses :: int
  sc_revoked :: bool

record hardened_broker =
  hb_base :: secret_broker
  hb_scoped :: "scoped_grant dict"

abbreviation grant_error :: "string \<Rightarrow> 'a res" where
  "grant_error m \<equiv> raise BrokerGrantError m"

definition issue_scoped_grant ::
  "string \<Rightarrow> rat \<Rightarrow> string \<Rightarrow> string set \<Rightarrow> rat \<Rightarrow> int \<Rightarrow> hardened_broker \<Rightarrow> scoped_grant res \<times> hardened_broker" where
  "issue_scoped_grant gid now sandbox names ttl max_uses h =
     (if max_uses < 1 then (raise ValueError ''max_uses must be >= 1'', h)
      else if \<not> names \<subseteq> known_names (hb_base h)
        then (broker_error (''unknown secrets: '' @ py_join '', '' (sorted_list_of_set (names - known_names (hb_base h)))), h)
      else
        let grant = \<lparr>sc_grant_id = gid, sc_sandbox_id = sandbox, sc_names = names, sc_expires_at = now + ttl,
                     sc_max_uses = max_uses, sc_uses = 0, sc_revoked = False\<rparr>
        in (Inr grant, h\<lparr>hb_scoped := dict_set gid grant (hb_scoped h)\<rparr>))"

definition revoke_scoped :: "string \<Rightarrow> hardened_broker \<Rightarrow> hardened_broker" where
  "revoke_scoped gid h =
     (case dict_get (hb_scoped h) gid of
        None \<Rightarrow> h
      | Some g \<Rightarrow> h\<lparr>hb_scoped := dict_set gid (g\<lparr>sc_revoked := True\<rparr>) (hb_scoped h)\<rparr>)"

definition get_scoped :: "rat \<Rightarrow> string \<Rightarrow> string \<Rightarrow> string \<Rightarrow> hardened_broker \<Rightarrow> string res \<times> hardened_broker" where
  "get_scoped now gid sandbox name h =
     (case dict_get (hb_scoped h) gid of
        None \<Rightarrow> (grant_error ''unknown grant'', h)
      | Some g \<Rightarrow>
          if sc_revoked g then (grant_error ''grant revoked'', h)
          else if now > sc_expires_at g then (grant_error ''grant expired'', h)
          else if sandbox \<noteq> sc_sandbox_id g then (grant_error ''grant belongs to another sandbox'', h)
          else if name \<notin> sc_names g then (grant_error ''secret not granted'', h)
          else if sc_uses g \<ge> sc_max_uses g then (grant_error ''grant usage exhausted'', h)
          else
            let h' = h\<lparr>hb_scoped := dict_set gid (g\<lparr>sc_uses := sc_uses g + 1\<rparr>) (hb_scoped h)\<rparr> in
            (case dict_get (sb_secrets (hb_base h)) name of
               None \<Rightarrow> (raise KeyError name, h')
             | Some v \<Rightarrow> (Inr v, h')))"

datatype scoped_op =
    SPut string string
  | SIssue string rat string "string set" rat int
  | SRevoke string
  | SGet rat string string string

fun scoped_step :: "scoped_op \<Rightarrow> hardened_broker \<Rightarrow> string res \<times> hardened_broker" where
  "scoped_step (SPut n v) h =
     (case put_secret n v (hb_base h) of (r, b) \<Rightarrow> (map_sum id (\<lambda>_. []) r, h\<lparr>hb_base := b\<rparr>))"
| "scoped_step (SIssue gid now s ns ttl m) h =
     (case issue_scoped_grant gid now s ns ttl m h of (r, h') \<Rightarrow> (map_sum id sc_grant_id r, h'))"
| "scoped_step (SRevoke gid) h = (Inr [], revoke_scoped gid h)"
| "scoped_step (SGet now gid s n) h = get_scoped now gid s n h"

fun fresh_grant :: "scoped_op \<Rightarrow> hardened_broker \<Rightarrow> bool" where
  "fresh_grant (SIssue gid now s ns ttl m) h = (dict_get (hb_scoped h) gid = None)"
| "fresh_grant _ h = True"

definition scoped_inv :: "hardened_broker \<Rightarrow> bool" where
  "scoped_inv h \<longleftrightarrow>
     (\<forall>gid g. dict_get (hb_scoped h) gid = Some g \<longrightarrow>
        sc_grant_id g = gid \<and> 0 \<le> sc_uses g \<and> sc_uses g \<le> sc_max_uses g \<and> sc_names g \<subseteq> known_names (hb_base h))"

text \<open>Grants persist with their terms; uses only grow, revocation is final.\<close>

definition grants_persist :: "hardened_broker \<Rightarrow> hardened_broker \<Rightarrow> bool" where
  "grants_persist h h' \<longleftrightarrow>
     (\<forall>gid g. dict_get (hb_scoped h) gid = Some g \<longrightarrow>
        (\<exists>g'. dict_get (hb_scoped h') gid = Some g' \<and> g' = g\<lparr>sc_uses := sc_uses g', sc_revoked := sc_revoked g'\<rparr>
            \<and> sc_uses g \<le> sc_uses g' \<and> (sc_revoked g \<longrightarrow> sc_revoked g' \<and> sc_uses g' = sc_uses g)))"

lemma known_names_get: "n \<in> known_names b \<longleftrightarrow> (\<exists>v. dict_get (sb_secrets b) n = Some v)"
  unfolding known_names_def by (metis domIff dom_map_of_conv_image_fst option.exhaust option.distinct(1))

lemma put_secret_names: "known_names b \<subseteq> known_names (snd (put_secret n v b))"
  by (auto simp: put_secret_def known_names_def)

lemma get_scoped_table:
  "hb_base (snd (get_scoped now gid s n h)) = hb_base h
   \<and> (hb_scoped (snd (get_scoped now gid s n h)) = hb_scoped h
      \<or> (\<exists>g. dict_get (hb_scoped h) gid = Some g \<and> \<not> sc_revoked g \<and> sc_uses g < sc_max_uses g
           \<and> hb_scoped (snd (get_scoped now gid s n h)) = dict_set gid (g\<lparr>sc_uses := sc_uses g + 1\<rparr>) (hb_scoped h)))"
  by (auto simp: get_scoped_def Let_def not_le split: option.split)


lemma get_scoped_success:
  assumes inv: "scoped_inv h" and g: "dict_get (hb_scoped h) gid = Some g"
  shows "\<exists>g'. dict_get (hb_scoped (snd (get_scoped now gid s n h))) gid = Some g'
    \<and> g' = g\<lparr>sc_uses := sc_uses g + (if returns (fst (get_scoped now gid s n h)) then 1 else 0)\<rparr>
    \<and> (returns (fst (get_scoped now gid s n h)) \<longrightarrow>
         \<not> sc_revoked g \<and> now \<le> sc_expires_at g \<and> s = sc_sandbox_id g \<and> n \<in> sc_names g \<and> sc_uses g < sc_max_uses g)"
proof -
  have "n \<in> sc_names g \<Longrightarrow> \<exists>v. dict_get (sb_secrets (hb_base h)) n = Some v"
    using inv g unfolding scoped_inv_def known_names_get [symmetric] by blast
  then show ?thesis using g by (auto simp: get_scoped_def Let_def split: option.split)
qed

lemma grants_persist_refl: "grants_persist h h"
  by (auto simp: grants_persist_def)

lemma grants_persist_trans:
  assumes "grants_persist h h'" and "grants_persist h' h''"
  shows "grants_persist h h''"
  unfolding grants_persist_def
proof (intro allI impI)
  fix gid g
  assume "dict_get (hb_scoped h) gid = Some g"
  with assms(1) obtain g' where g': "dict_get (hb_scoped h') gid = Some g'"
      "g' = g\<lparr>sc_uses := sc_uses g', sc_revoked := sc_revoked g'\<rparr>" "sc_uses g \<le> sc_uses g'"
      "sc_revoked g \<longrightarrow> sc_revoked g' \<and> sc_uses g' = sc_uses g"
    unfolding grants_persist_def by blast
  with assms(2) obtain g'' where g'': "dict_get (hb_scoped h'') gid = Some g''"
      "g'' = g'\<lparr>sc_uses := sc_uses g'', sc_revoked := sc_revoked g''\<rparr>" "sc_uses g' \<le> sc_uses g''"
      "sc_revoked g' \<longrightarrow> sc_revoked g'' \<and> sc_uses g'' = sc_uses g'"
    unfolding grants_persist_def by blast
  have "g'' = g\<lparr>sc_uses := sc_uses g'', sc_revoked := sc_revoked g''\<rparr>"
    using g'(2) g''(2) by (cases g; cases g'; cases g'') simp
  then show "\<exists>u. dict_get (hb_scoped h'') gid = Some u \<and> u = g\<lparr>sc_uses := sc_uses u, sc_revoked := sc_revoked u\<rparr>
      \<and> sc_uses g \<le> sc_uses u \<and> (sc_revoked g \<longrightarrow> sc_revoked u \<and> sc_uses u = sc_uses g)"
    using g' g'' by (intro exI [of _ g'']) auto
qed

lemma scoped_step_inv:
  assumes "scoped_inv h" and "fresh_grant x h"
  shows "scoped_inv (snd (scoped_step x h))"
proof (cases x)
  case (SPut n v)
  obtain r b where b: "put_secret n v (hb_base h) = (r, b)" by fastforce
  with put_secret_names [of "hb_base h" n v] have "known_names (hb_base h) \<subseteq> known_names b" by simp
  then show ?thesis using assms SPut b unfolding scoped_inv_def by simp (meson subset_trans)
next
  case (SIssue gid now s ns ttl m)
  then show ?thesis using assms by (auto simp: scoped_inv_def issue_scoped_grant_def Let_def split: if_split_asm)
next
  case (SRevoke gid)
  then show ?thesis using assms by (auto simp: scoped_inv_def revoke_scoped_def split: option.split if_split_asm)
next
  case (SGet now gid s n)
  then show ?thesis using assms(1) get_scoped_table [of now gid s n h] unfolding scoped_inv_def
    by (elim conjE disjE exE) simp_all
qed

lemma scoped_step_persist:
  assumes "fresh_grant x h"
  shows "grants_persist h (snd (scoped_step x h))"
proof (cases x)
  case (SPut n v)
  then show ?thesis by (auto simp: grants_persist_def split: prod.split)
next
  case (SIssue gid now s ns ttl m)
  then show ?thesis using assms by (auto simp: grants_persist_def issue_scoped_grant_def Let_def)
next
  case (SRevoke gid)
  then show ?thesis by (auto simp: grants_persist_def revoke_scoped_def split: option.split)
next
  case (SGet now gid s n)
  then show ?thesis using get_scoped_table [of now gid s n h]
    by (auto simp: grants_persist_def)
qed

interpretation scoped: guarded_object scoped_step fresh_grant scoped_inv grants_persist
  by unfold_locales (blast intro: scoped_step_inv scoped_step_persist grants_persist_refl grants_persist_trans)+

fun reads_grant :: "string \<Rightarrow> scoped_op \<Rightarrow> bool" where
  "reads_grant gid (SGet now gid' s n) = (gid' = gid)"
| "reads_grant gid _ = False"

definition scoped_reads :: "string \<Rightarrow> scoped_op list \<Rightarrow> hardened_broker \<Rightarrow> nat" where
  "scoped_reads gid xs h =
     length (filter (\<lambda>(x, r). reads_grant gid x \<and> returns r) (zip xs (fst (run_ops scoped_step xs h))))"

lemma scoped_reads_simps [simp]:
  "scoped_reads gid [] h = 0"
  "scoped_reads gid (x # xs) h =
     (if reads_grant gid x \<and> returns (fst (scoped_step x h)) then 1 else 0) + scoped_reads gid xs (snd (scoped_step x h))"
  by (simp_all add: scoped_reads_def)

lemma scoped_step_uses:
  assumes inv: "scoped_inv h" and ok: "fresh_grant x h" and g: "dict_get (hb_scoped h) gid = Some g"
  shows "\<exists>g'. dict_get (hb_scoped (snd (scoped_step x h))) gid = Some g'
    \<and> sc_uses g' = sc_uses g + (if reads_grant gid x \<and> returns (fst (scoped_step x h)) then 1 else 0)"
proof (cases x)
  case (SPut n v)
  then show ?thesis using g by (auto split: prod.split)
next
  case (SIssue gid' now s ns ttl m)
  then show ?thesis using g ok by (auto simp: issue_scoped_grant_def Let_def)
next
  case (SRevoke gid')
  then show ?thesis using g by (auto simp: revoke_scoped_def split: option.split)
next
  case (SGet now gid' s n)
  show ?thesis
  proof (cases "gid' = gid")
    case True
    then show ?thesis using SGet get_scoped_success [OF inv g, of now s n] by auto
  next
    case False
    then show ?thesis using SGet g get_scoped_table [of now gid' s n h] by auto
  qed
qed

lemma scoped_run_uses:
  assumes "scoped_inv h" and "run_ok fresh_grant scoped_step xs h" and "dict_get (hb_scoped h) gid = Some g"
  shows "\<exists>g'. dict_get (hb_scoped (snd (run_ops scoped_step xs h))) gid = Some g'
    \<and> sc_uses g' = sc_uses g + int (scoped_reads gid xs h)"
  using assms
proof (induction xs arbitrary: h g)
  case Nil
  then show ?case by simp
next
  case (Cons x xs)
  then have x: "fresh_grant x h" and xs: "run_ok fresh_grant scoped_step xs (snd (scoped_step x h))" by simp_all
  from scoped_step_uses [OF Cons.prems(1) x Cons.prems(3)]
  obtain g1 where g1: "dict_get (hb_scoped (snd (scoped_step x h))) gid = Some g1"
    and u1: "sc_uses g1 = sc_uses g + (if reads_grant gid x \<and> returns (fst (scoped_step x h)) then 1 else 0)" by blast
  from Cons.IH [OF scoped_step_inv [OF Cons.prems(1) x] xs g1] u1 show ?case by auto
qed

text \<open>
  Scoped grants are usage limited. Over any sequence of operations of the hardened broker in which
  issued grant identifiers are fresh, the recorded use count of a grant goes up by exactly the number of
  reads through it that succeeded; that number never takes it past \<open>max_uses\<close>, the grant keeps its
  sandbox, names, expiry and limit, and a revoked grant yields no further read.
\<close>

theorem scoped_grant_usage:
  assumes "scoped_inv h" and "run_ok fresh_grant scoped_step xs h" and "dict_get (hb_scoped h) gid = Some g"
  shows "\<exists>g'. dict_get (hb_scoped (snd (run_ops scoped_step xs h))) gid = Some g'
    \<and> g' = g\<lparr>sc_uses := sc_uses g + int (scoped_reads gid xs h), sc_revoked := sc_revoked g'\<rparr>
    \<and> sc_uses g + int (scoped_reads gid xs h) \<le> sc_max_uses g
    \<and> (sc_revoked g \<longrightarrow> sc_revoked g' \<and> scoped_reads gid xs h = 0)"
proof -
  obtain g' where g': "dict_get (hb_scoped (snd (run_ops scoped_step xs h))) gid = Some g'"
    and u: "sc_uses g' = sc_uses g + int (scoped_reads gid xs h)"
    using scoped_run_uses [OF assms] by blast
  from scoped.run_below [OF assms(1,2)] assms(3) g'
  have t: "g' = g\<lparr>sc_uses := sc_uses g', sc_revoked := sc_revoked g'\<rparr>"
      "sc_revoked g \<longrightarrow> sc_revoked g' \<and> sc_uses g' = sc_uses g"
    unfolding grants_persist_def by force+
  have "sc_uses g' \<le> sc_max_uses g'"
    using scoped.run_inv [OF assms(1,2)] g' unfolding scoped_inv_def by blast
  moreover have "sc_max_uses g' = sc_max_uses g" by (subst t(1)) simp
  ultimately show ?thesis using g' t u by (intro exI [of _ g']) auto
qed


definition scoped_example :: hardened_broker where
  "scoped_example =
     \<lparr>hb_base = \<lparr>sb_trace = new_verifier, sb_require_peer = False, sb_allowed_uids = {}, sb_secrets = [(''API'', ''s3cret'')],
                 sb_grants = [], sb_uses = [], sb_events = []\<rparr>,
      hb_scoped = [(''g1'', \<lparr>sc_grant_id = ''g1'', sc_sandbox_id = ''box'', sc_names = {''API''}, sc_expires_at = 10,
                             sc_max_uses = 2, sc_uses = 0, sc_revoked = False\<rparr>)]\<rparr>"

definition scoped_example_ops :: "scoped_op list" where
  "scoped_example_ops = [SGet 1 ''g1'' ''box'' ''API'', SGet 2 ''g1'' ''other'' ''API'', SGet 3 ''g1'' ''box'' ''API'',
     SGet 4 ''g1'' ''box'' ''API'', SRevoke ''g1'', SGet 5 ''g1'' ''box'' ''API'']"

lemma scoped_example_inv: "scoped_inv scoped_example"
  by (simp add: scoped_inv_def scoped_example_def known_names_def)

theorem scoped_grant_usage_witness:
  "scoped_reads ''g1'' scoped_example_ops scoped_example = 2
   \<and> (\<exists>g'. dict_get (hb_scoped (snd (run_ops scoped_step scoped_example_ops scoped_example))) ''g1'' = Some g'
        \<and> sc_uses g' = 2 \<and> sc_max_uses g' = 2)"
proof -
  let ?g = "the (dict_get (hb_scoped scoped_example) ''g1'')"
  have n: "scoped_reads ''g1'' scoped_example_ops scoped_example = 2" by code_simp
  have "run_ok fresh_grant scoped_step scoped_example_ops scoped_example" by code_simp
  moreover have g: "dict_get (hb_scoped scoped_example) ''g1'' = Some ?g" "sc_uses ?g = 0" "sc_max_uses ?g = 2"
    by (simp_all add: scoped_example_def)
  ultimately obtain g' where
      "dict_get (hb_scoped (snd (run_ops scoped_step scoped_example_ops scoped_example))) ''g1'' = Some g'"
      and g': "g' = ?g\<lparr>sc_uses := 2, sc_revoked := sc_revoked g'\<rparr>"
    using scoped_grant_usage [OF scoped_example_inv _ g(1), of scoped_example_ops] n by auto
  moreover have "sc_uses g' = 2 \<and> sc_max_uses g' = 2" by (subst (1 2) g') (simp add: g(3))
  ultimately show ?thesis using n by blast
qed

end
