(* ===== verification/Runtime.thy ===== *)
theory Runtime
  imports Trace_Model Canonicalizer Engine Security_Domain
begin

text \<open>
  The runtime, \<^verbatim>\<open>src/bulldog/runtime.py\<close>, with the workspace budget of
  \<^verbatim>\<open>src/bulldog/workspace_limits.py\<close> and the resource budget of \<^verbatim>\<open>src/bulldog/resource_limits.py\<close>:
  binding of the command to the authorised action, evaluation, snapshot, manifest, malware scan,
  snapshot hash check, sandboxed execution and clean-up, in the order of the code, with every early
  return and every exception.

  What touches the operating system is an argument: the record \<open>host_ops\<close> holds the snapshot,
  manifest, hash, sandbox and clean-up operations, the record \<open>scanner\<close> the malware scanner. Each of
  them may raise and changes an arbitrary host state. Nothing is assumed about them.
\<close>

section \<open>Budgets\<close>

record workspace_budget =
  max_files :: int
  max_total_bytes :: int
  max_file_bytes :: int
  max_depth :: int
  max_path_bytes :: int
  manifest_timeout_seconds :: rat
  snapshot_timeout_seconds :: rat
  malware_scan_timeout_seconds :: rat
  snapshot_min_free_bytes :: int

definition default_budget :: workspace_budget where
  "default_budget = \<lparr>max_files = 50000, max_total_bytes = 2 * 1024 * 1024 * 1024,
     max_file_bytes = 128 * 1024 * 1024, max_depth = 32, max_path_bytes = 4096, manifest_timeout_seconds = 20,
     snapshot_timeout_seconds = 30, malware_scan_timeout_seconds = 60, snapshot_min_free_bytes = 512 * 1024 * 1024\<rparr>"

definition validate_budget :: "workspace_budget \<Rightarrow> unit res" where
  "validate_budget b =
     (if list_ex (\<lambda>v. v < 1) [max_files b, max_total_bytes b, max_file_bytes b, max_depth b, max_path_bytes b,
           snapshot_min_free_bytes b]
      then raise WorkspaceLimitViolation ''workspace limits must be positive''
      else if max_file_bytes b > max_total_bytes b
        then raise WorkspaceLimitViolation ''maximum file size cannot exceed maximum workspace size''
      else if min (manifest_timeout_seconds b) (min (snapshot_timeout_seconds b) (malware_scan_timeout_seconds b)) \<le> 0
        then raise WorkspaceLimitViolation ''workspace timeouts must be positive''
      else Inr ())"

record resource_budget =
  memory_bytes :: int
  cpu_seconds :: int
  processes :: int
  open_files :: int
  file_bytes_limit :: int
  core_bytes :: int

definition default_resources :: resource_budget where
  "default_resources = \<lparr>memory_bytes = 512 * 1024 * 1024, cpu_seconds = 30, processes = 64, open_files = 256,
     file_bytes_limit = 64 * 1024 * 1024, core_bytes = 0\<rparr>"

section \<open>The host\<close>

record project_snapshot =
  source_root :: string
  snapshot_root :: string
  source_hash :: string
  snapshot_hash :: string
  cleanup_root :: "string option"

record file_scan =
  fs_path :: string
  fs_signature :: "string option"

record project_scan =
  ps_clean :: bool
  ps_detections :: "file_scan list"

record sandbox_result =
  sr_returncode :: int
  sr_stdout :: string
  sr_stderr :: string
  sr_attestation :: string
  sr_setup_ms :: "rat option"
  sr_reap_ms :: "rat option"

record sandbox_call =
  call_command :: "string list"
  call_root :: string
  call_writable :: bool
  call_timeout :: "rat option"
  call_env :: "string dict"
  call_budget :: resource_budget

record 'h host_ops =
  resolve_strict :: "string \<Rightarrow> 'h \<Rightarrow> string res"
  environ_get :: "string \<Rightarrow> 'h \<Rightarrow> string option"
  create_snapshot :: "string \<Rightarrow> workspace_budget \<Rightarrow> string option \<Rightarrow> 'h \<Rightarrow> project_snapshot res \<times> 'h"
  create_snapshot_isolated :: "string \<Rightarrow> workspace_budget \<Rightarrow> string \<Rightarrow> 'h \<Rightarrow> project_snapshot res \<times> 'h"
  build_manifest :: "string \<Rightarrow> workspace_budget \<Rightarrow> 'h \<Rightarrow> unit res \<times> 'h"
  hash_tree :: "string \<Rightarrow> workspace_budget \<Rightarrow> 'h \<Rightarrow> string res \<times> 'h"
  sandbox_run :: "sandbox_call \<Rightarrow> 'h \<Rightarrow> sandbox_result res \<times> 'h"
  destroy_snapshot :: "project_snapshot \<Rightarrow> 'h \<Rightarrow> unit res \<times> 'h"

text \<open>\<open>scan_project\<close> receives the bounds only when the scanner declares \<open>bounded_scan\<close>.\<close>

record 'h scanner =
  bounded_scan :: bool
  scan_project :: "string \<Rightarrow> (rat \<times> int \<times> int) option \<Rightarrow> 'h \<Rightarrow> project_scan res \<times> 'h"

section \<open>The runtime object\<close>

record execution_result =
  x_evaluation :: evaluation
  x_executed :: bool
  x_sandboxed :: bool
  x_review_required :: bool
  x_returncode :: "int option"
  x_stdout :: string
  x_stderr :: string
  x_scan_performed :: bool
  x_malware_clean :: "bool option"
  x_detections :: "string list"
  x_trace_state :: "bull_trace_state option"
  x_attestation :: "string option"
  x_setup_ms :: "rat option"
  x_reap_ms :: "rat option"

record 'h runtime_config =
  rt_engine :: engine_config
  rt_host :: "'h host_ops"
  rt_scan_required :: bool
  rt_scanner :: "'h scanner option"
  rt_resource_budget :: resource_budget
  rt_full_argv :: bool
  rt_workspace_budget :: workspace_budget
  rt_snapshot_root :: "string option"

record ('w, 'h) runtime_state =
  rs_engine :: "'w engine_state"
  rs_trace :: trace_verifier
  rs_host :: 'h

text \<open>The constructor. \<open>make_scanner\<close> is the default scanner's construction with its two size limits; a
  scanner that cannot be built leaves the runtime without one.\<close>

definition new_runtime ::
  "engine_config \<Rightarrow> 'h host_ops \<Rightarrow> 'h scanner option \<Rightarrow> bool \<Rightarrow> resource_budget option \<Rightarrow> bool
     \<Rightarrow> workspace_budget option \<Rightarrow> string option \<Rightarrow> (int \<Rightarrow> int \<Rightarrow> 'h scanner res) \<Rightarrow> 'h \<Rightarrow> 'h runtime_config res" where
  "new_runtime en ops sc required budget full_argv workspace root_arg make_scanner h =
     (let ws = (case workspace of None \<Rightarrow> default_budget | Some b \<Rightarrow> b) in
      case validate_budget ws of
        Inl e \<Rightarrow> Inl e
      | Inr _ \<Rightarrow>
     (case (case root_arg of None \<Rightarrow> Inr None | Some r \<Rightarrow> map_sum id Some (resolve_strict ops r h)) of
        Inl e \<Rightarrow> Inl e
      | Inr sroot \<Rightarrow>
     (case (case sc of
              Some s \<Rightarrow> Inr (Some s)
            | None \<Rightarrow>
                if \<not> required then Inr None
                else (case make_scanner (min (64 * 1024 * 1024) (max_file_bytes ws)) (min (256 * 1024 * 1024) (max_total_bytes ws)) of
                        Inr s \<Rightarrow> Inr (Some s)
                      | Inl (MalwareScannerError, m) \<Rightarrow> Inr None
                      | Inl e \<Rightarrow> Inl e)) of
        Inl e \<Rightarrow> Inl e
      | Inr scan \<Rightarrow>
          Inr \<lparr>rt_engine = en, rt_host = ops, rt_scan_required = required, rt_scanner = scan,
               rt_resource_budget = (case budget of None \<Rightarrow> default_resources | Some b \<Rightarrow> b), rt_full_argv = full_argv,
               rt_workspace_budget = ws, rt_snapshot_root = sroot\<rparr>)))"

definition binding_failure ::
  "pylib \<Rightarrow> 'h runtime_config \<Rightarrow> action_request \<Rightarrow> string list \<Rightarrow> string option res" where
  "binding_failure L rc a command =
     (if capability a \<noteq> PROCESS_EXEC
        then Inr (Some ''runtime command execution requires process.exec capability'')
      else if command = [] then Inr (Some ''runtime command cannot be empty'')
      else
        case (case canonicalize_filesystem_resource L (resource a) of
                Inl e \<Rightarrow> Inl e
              | Inr authorized \<Rightarrow>
                  map_sum id (\<lambda>requested. (authorized, requested)) (canonicalize_filesystem_resource L (hd command))) of
          Inl (ActionCanonicalizationError, m) \<Rightarrow> Inr (Some (''invalid execution binding: '' @ m))
        | Inl e \<Rightarrow> Inl e
        | Inr (authorized, requested) \<Rightarrow>
            if requested \<noteq> authorized
              then Inr (Some (''runtime executable does not match authorized resource: '' @ requested @ '' != '' @ authorized))
            else
              let expected = head_text (dict_get (metadata a) ''authorized_argv_hash'') in
              if rt_full_argv rc \<and> expected = []
                then Inr (Some ''runtime requires a host-authorized full argv binding'')
              else if expected \<noteq> [] \<and> hash_command L (Some command) \<noteq> Some expected
                then Inr (Some ''runtime argv does not match host-authorized argv'')
              else Inr None)"

section \<open>Execution\<close>

fun emit_all :: "trace_event list \<Rightarrow> trace_verifier \<Rightarrow> unit res \<times> trace_verifier" where
  "emit_all [] v = (Inr (), v)"
| "emit_all (ev # evs) v =
     (case emit ev v of (Inl e, v') \<Rightarrow> (Inl e, v') | (Inr _, v') \<Rightarrow> emit_all evs v')"

definition with_trace ::
  "trace_event list \<Rightarrow> ('w, 'h) runtime_state \<Rightarrow> (('w, 'h) runtime_state \<Rightarrow> 'a res \<times> ('w, 'h) runtime_state)
     \<Rightarrow> 'a res \<times> ('w, 'h) runtime_state" where
  "with_trace evs s k =
     (case emit_all evs (rs_trace s) of
        (Inl e, v) \<Rightarrow> (Inl e, s\<lparr>rs_trace := v\<rparr>)
      | (Inr _, v) \<Rightarrow> k (s\<lparr>rs_trace := v\<rparr>))"

definition evaluate_event :: "decision \<Rightarrow> trace_event" where
  "evaluate_event d = event_of ''Evaluate'' [(''decision'', EvStr (decision_value d))]"

text \<open>An \<open>ExecutionResult\<close> that did not execute: the defaults, the message and the trace snapshot.\<close>

definition not_executed :: "evaluation \<Rightarrow> string \<Rightarrow> ('w, 'h) runtime_state \<Rightarrow> execution_result" where
  "not_executed ev msg s =
     \<lparr>x_evaluation = ev, x_executed = False, x_sandboxed = False, x_review_required = False, x_returncode = None,
      x_stdout = [], x_stderr = msg, x_scan_performed = False, x_malware_clean = None, x_detections = [],
      x_trace_state = Some (snapshot (rs_trace s)), x_attestation = None, x_setup_ms = None, x_reap_ms = None\<rparr>"

definition deny_binding ::
  "pylib \<Rightarrow> 'h runtime_config \<Rightarrow> 'w ledger_io \<Rightarrow> string \<Rightarrow> action_request \<Rightarrow> string \<Rightarrow> ('w, 'h) runtime_state
     \<Rightarrow> execution_result res \<times> ('w, 'h) runtime_state" where
  "deny_binding L rc io ts a reason s =
     (let ev = evaluation_of DENY 1 [reason] True in
      with_trace [evaluate_event DENY, event_of ''ResolveDeny'' []] s (\<lambda>s1.
        case en_ledger (rt_engine rc) of
          None \<Rightarrow> (Inr (not_executed ev reason s1), s1)
        | Some cfg \<Rightarrow>
            (case append_evaluation L cfg io ts a ev (es_files (rs_engine s1), es_world (rs_engine s1)) of
               (r, fs, w) \<Rightarrow>
                 let s2 = s1\<lparr>rs_engine := (rs_engine s1)\<lparr>es_files := fs, es_world := w\<rparr>\<rparr> in
                 (case r of Inl e \<Rightarrow> (Inl e, s2) | Inr _ \<Rightarrow> (Inr (not_executed ev reason s2), s2)))))"

definition malware_blocked ::
  "evaluation \<Rightarrow> string \<Rightarrow> bool \<Rightarrow> bool option \<Rightarrow> string list \<Rightarrow> ('w, 'h) runtime_state
     \<Rightarrow> execution_result option res \<times> ('w, 'h) runtime_state" where
  "malware_blocked ev msg performed clean detections s =
     with_trace [event_of ''ScanMalware'' [], event_of ''BlockMalware'' []] s (\<lambda>s1.
       (Inr (Some ((not_executed ev msg s1)\<lparr>x_scan_performed := performed, x_malware_clean := clean,
               x_detections := detections\<rparr>)), s1))"

definition scan_bounds :: "'h runtime_config \<Rightarrow> 'h scanner \<Rightarrow> (rat \<times> int \<times> int) option" where
  "scan_bounds rc sc =
     (let b = rt_workspace_budget rc in
      if bounded_scan sc then Some (malware_scan_timeout_seconds b, max_total_bytes b, max_files b) else None)"

text \<open>The malware gate: \<open>Some\<close> result is an early return, \<open>None\<close> continues after \<open>ScanClean\<close>.\<close>

definition scan_gate ::
  "'h runtime_config \<Rightarrow> evaluation \<Rightarrow> string \<Rightarrow> ('w, 'h) runtime_state
     \<Rightarrow> execution_result option res \<times> ('w, 'h) runtime_state" where
  "scan_gate rc ev xroot s =
     (if \<not> rt_scan_required rc
      then (raise RuntimeError ''formal runtime instrumentation requires malware scanning'', s)
      else case rt_scanner rc of
        None \<Rightarrow> malware_blocked ev ''malware scan required but scanner unavailable'' False None [] s
      | Some sc \<Rightarrow>
          (case scan_project sc xroot (scan_bounds rc sc) (rs_host s) of
             (Inl e, h) \<Rightarrow> malware_blocked ev (''malware scan failed closed: '' @ snd e) True None [] (s\<lparr>rs_host := h\<rparr>)
           | (Inr scan, h) \<Rightarrow>
               if \<not> ps_clean scan
               then malware_blocked ev ''malware detection blocked execution'' True (Some False)
                      (map (\<lambda>d. if opt_truthy (fs_signature d) then head_text (fs_signature d) else fs_path d) (ps_detections scan))
                      (s\<lparr>rs_host := h\<rparr>)
               else with_trace [event_of ''ScanClean'' []] (s\<lparr>rs_host := h\<rparr>) (\<lambda>s1. (Inr None, s1))))"

definition sandbox_env_keys :: "(string \<times> string) list" where
  "sandbox_env_keys =
     [(''BULL_SECURITY_DOMAIN_ID'', ''domain_id''), (''BULL_ROOT_DOMAIN_ID'', ''root_domain_id''),
      (''BULL_PARENT_DOMAIN_ID'', ''parent_domain_id''), (''BULL_INITIAL_INTENT_HASH'', ''initial_intent_hash''),
      (''BULL_INITIAL_COMMAND_HASH'', ''initial_command_hash''), (''BULL_MODEL_ID_HASH'', ''model_id_hash''),
      (''BULL_DOMAIN_FINGERPRINT'', ''domain_fingerprint''), (''BULL_AUTHORIZED_ARGV_HASH'', ''authorized_argv_hash'')]"

definition sandbox_env :: "action_request \<Rightarrow> string dict" where
  "sandbox_env a = List.map_filter (\<lambda>(k, n). map_option (Pair k) (dict_get (metadata a) n)) sandbox_env_keys"

definition the_call ::
  "'h runtime_config \<Rightarrow> action_request \<Rightarrow> string list \<Rightarrow> rat option \<Rightarrow> project_snapshot \<Rightarrow> sandbox_call" where
  "the_call rc a command timeout snap =
     \<lparr>call_command = command, call_root = snapshot_root snap, call_writable = False, call_timeout = timeout,
      call_env = sandbox_env a, call_budget = rt_resource_budget rc\<rparr>"

text \<open>The body of the \<open>try\<close> block whose \<open>finally\<close> destroys the snapshot.\<close>

definition in_snapshot ::
  "'h runtime_config \<Rightarrow> action_request \<Rightarrow> string list \<Rightarrow> rat option \<Rightarrow> evaluation \<Rightarrow> project_snapshot
     \<Rightarrow> ('w, 'h) runtime_state \<Rightarrow> execution_result res \<times> ('w, 'h) runtime_state" where
  "in_snapshot rc a command timeout ev snap s =
     (let ops = rt_host rc; xroot = snapshot_root snap; budget = rt_workspace_budget rc in
      case build_manifest ops xroot budget (rs_host s) of
        (Inl (FilesystemManifestViolation, m), h) \<Rightarrow>
          (let s1 = s\<lparr>rs_host := h\<rparr> in (Inr (not_executed ev (''execution snapshot manifest rejected: '' @ m) s1), s1))
      | (Inl e, h) \<Rightarrow> (Inl e, s\<lparr>rs_host := h\<rparr>)
      | (Inr _, h) \<Rightarrow>
     (case scan_gate rc ev xroot (s\<lparr>rs_host := h\<rparr>) of
        (Inl e, s1) \<Rightarrow> (Inl e, s1)
      | (Inr (Some r), s1) \<Rightarrow> (Inr r, s1)
      | (Inr None, s1) \<Rightarrow>
     (case hash_tree ops xroot budget (rs_host s1) of
        (Inl e, h) \<Rightarrow> (Inl e, s1\<lparr>rs_host := h\<rparr>)
      | (Inr current, h) \<Rightarrow>
          let s2 = s1\<lparr>rs_host := h\<rparr> in
          if current \<noteq> snapshot_hash snap
          then (Inr ((not_executed ev ''execution snapshot changed after malware scan'' s2)
                       \<lparr>x_scan_performed := True, x_malware_clean := Some True\<rparr>), s2)
          else
            (case sandbox_run ops (the_call rc a command timeout snap) (rs_host s2) of
               (Inl e, h') \<Rightarrow> (Inl e, s2\<lparr>rs_host := h'\<rparr>)
             | (Inr res, h') \<Rightarrow>
                 with_trace [event_of ''Execute'' [(''sandboxed'', EvBool True), (''seccomp'', EvBool True)]]
                   (s2\<lparr>rs_host := h'\<rparr>) (\<lambda>s3.
                     (Inr \<lparr>x_evaluation = ev, x_executed = True, x_sandboxed = True, x_review_required = False,
                           x_returncode = Some (sr_returncode res), x_stdout = sr_stdout res, x_stderr = sr_stderr res,
                           x_scan_performed = True, x_malware_clean = Some True, x_detections = [],
                           x_trace_state = Some (snapshot (rs_trace s3)), x_attestation = Some (sr_attestation res),
                           x_setup_ms = sr_setup_ms res, x_reap_ms = sr_reap_ms res\<rparr>, s3))))))"

definition finally_destroy ::
  "'h runtime_config \<Rightarrow> project_snapshot \<Rightarrow> execution_result res \<times> ('w, 'h) runtime_state
     \<Rightarrow> execution_result res \<times> ('w, 'h) runtime_state" where
  "finally_destroy rc snap body =
     (case body of (r, s) \<Rightarrow>
        (case destroy_snapshot (rt_host rc) snap (rs_host s) of
           (Inl e, h) \<Rightarrow> (Inl e, s\<lparr>rs_host := h\<rparr>)
         | (Inr _, h) \<Rightarrow> (r, s\<lparr>rs_host := h\<rparr>)))"

definition take_snapshot ::
  "'h runtime_config \<Rightarrow> string \<Rightarrow> 'h \<Rightarrow> project_snapshot res \<times> 'h" where
  "take_snapshot rc project h =
     (let ops = rt_host rc in
      case rt_snapshot_root rc of
        Some scratch \<Rightarrow>
          if opt_truthy (environ_get ops ''BULL_CGROUP_PARENT'' h)
          then create_snapshot_isolated ops project (rt_workspace_budget rc) scratch h
          else create_snapshot ops project (rt_workspace_budget rc) (Some scratch) h
      | None \<Rightarrow> create_snapshot ops project (rt_workspace_budget rc) None h)"

text \<open>Everything after an ALLOW or SANDBOX decision.\<close>

definition run_admitted ::
  "'h runtime_config \<Rightarrow> action_request \<Rightarrow> string list \<Rightarrow> string \<Rightarrow> rat option \<Rightarrow> evaluation
     \<Rightarrow> ('w, 'h) runtime_state \<Rightarrow> execution_result res \<times> ('w, 'h) runtime_state" where
  "run_admitted rc a command proot timeout ev s =
     (case resolve_strict (rt_host rc) proot (rs_host s) of
        Inl e \<Rightarrow> (Inl e, s)
      | Inr project \<Rightarrow>
          (case take_snapshot rc project (rs_host s) of
             (Inl (SnapshotViolation, m), h) \<Rightarrow>
               (let s1 = s\<lparr>rs_host := h\<rparr> in (Inr (not_executed ev (''project admission/snapshot rejected: '' @ m) s1), s1))
           | (Inl e, h) \<Rightarrow> (Inl e, s\<lparr>rs_host := h\<rparr>)
           | (Inr snap, h) \<Rightarrow>
               finally_destroy rc snap (in_snapshot rc a command timeout ev snap (s\<lparr>rs_host := h\<rparr>))))"

definition resolve_decision ::
  "'h runtime_config \<Rightarrow> action_request \<Rightarrow> string list \<Rightarrow> string \<Rightarrow> rat option \<Rightarrow> evaluation
     \<Rightarrow> ('w, 'h) runtime_state \<Rightarrow> execution_result res \<times> ('w, 'h) runtime_state" where
  "resolve_decision rc a command proot timeout ev s1 =
     (if e_decision ev = DENY
      then with_trace [event_of ''ResolveDeny'' []] s1 (\<lambda>s2.
             (Inr (not_executed ev ''execution denied by BULL policy'' s2), s2))
      else if e_decision ev = ESCALATE
      then with_trace [event_of ''ResolveEscalate'' []] s1 (\<lambda>s2.
             (Inr ((not_executed ev ''execution requires review'' s2)\<lparr>x_review_required := True\<rparr>), s2))
      else run_admitted rc a command proot timeout ev s1)"

definition parent_has :: "action_request \<Rightarrow> bool" where
  "parent_has a = (case parent_capabilities a of None \<Rightarrow> False | Some cs \<Rightarrow> capability a \<in> cs)"

definition reset_trace :: "action_request \<Rightarrow> ('w, 'h) runtime_state \<Rightarrow> ('w, 'h) runtime_state" where
  "reset_trace a s = s\<lparr>rs_trace := reset (parent_has a) (rs_trace s)\<rparr>"

definition runtime_execute ::
  "pylib \<Rightarrow> 'h runtime_config \<Rightarrow> 'w ledger_io \<Rightarrow> string \<Rightarrow> action_request \<Rightarrow> string list \<Rightarrow> string \<Rightarrow> rat option
     \<Rightarrow> ('w, 'h) runtime_state \<Rightarrow> execution_result res \<times> ('w, 'h) runtime_state" where
  "runtime_execute L rc io ts a command proot timeout s =
     (let s0 = reset_trace a s in
      case binding_failure L rc a command of
        Inl e \<Rightarrow> (Inl e, s0)
      | Inr (Some reason) \<Rightarrow> deny_binding L rc io ts a reason s0
      | Inr None \<Rightarrow>
     (case engine_evaluate L (rt_engine rc) io ts a (rs_engine s0) of
        (Inl e, es) \<Rightarrow> (Inl e, s0\<lparr>rs_engine := es\<rparr>)
      | (Inr ev, es) \<Rightarrow>
          with_trace [evaluate_event (e_decision ev)] (s0\<lparr>rs_engine := es\<rparr>)
            (resolve_decision rc a command proot timeout ev)))"

section \<open>The runtime's traces\<close>

text \<open>The states of the verifier along an execution, named by what has been emitted since the reset.\<close>

definition st_evaluated :: "bool \<Rightarrow> decision \<Rightarrow> bull_trace_state" where
  "st_evaluated p d = initial_trace_state\<lparr>parent_has_capability := p, phase := ''evaluated'', decision := decision_value d\<rparr>"

definition st_scanned :: "bool \<Rightarrow> decision \<Rightarrow> bull_trace_state" where
  "st_scanned p d = (st_evaluated p d)\<lparr>phase := ''scanned'', scanned := True, malware_clean := True\<rparr>"

definition st_executed :: "bool \<Rightarrow> decision \<Rightarrow> bull_trace_state" where
  "st_executed p d = (st_scanned p d)\<lparr>phase := ''executed'', executed := True, sandboxed := True, seccomp := True\<rparr>"

definition st_malware :: "bool \<Rightarrow> decision \<Rightarrow> bull_trace_state" where
  "st_malware p d = (st_evaluated p d)\<lparr>phase := ''blocked'', scanned := True, malware_clean := False\<rparr>"

definition st_denied :: "bool \<Rightarrow> bull_trace_state" where
  "st_denied p = (st_evaluated p DENY)\<lparr>phase := ''blocked''\<rparr>"

definition st_review :: "bool \<Rightarrow> bull_trace_state" where
  "st_review p = (st_evaluated p ESCALATE)\<lparr>phase := ''review'', review_required := True\<rparr>"

lemmas st_defs = st_evaluated_def st_scanned_def st_executed_def st_malware_def st_denied_def st_review_def

lemma runtime_transitions:
  "apply_transition (initial_trace_state\<lparr>parent_has_capability := p\<rparr>) (evaluate_event d) = Inr (st_evaluated p d)"
  "apply_transition (st_evaluated p DENY) (event_of ''ResolveDeny'' []) = Inr (st_denied p)"
  "apply_transition (st_evaluated p ESCALATE) (event_of ''ResolveEscalate'' []) = Inr (st_review p)"
  "d = ALLOW \<or> d = SANDBOX \<Longrightarrow> apply_transition (st_evaluated p d) (event_of ''ScanClean'' []) = Inr (st_scanned p d)"
  "d = ALLOW \<or> d = SANDBOX \<Longrightarrow> apply_transition (st_scanned p d)
      (event_of ''Execute'' [(''sandboxed'', EvBool True), (''seccomp'', EvBool True)]) = Inr (st_executed p d)"
  by (cases d, simp_all add: apply_transition_def guarded_update_def transition_defs trace_tables evaluate_event_def
        validate_invariants_def st_defs initial_trace_state_def data_flag_def,
      auto simp add: apply_transition_def guarded_update_def transition_defs trace_tables
        validate_invariants_def st_defs initial_trace_state_def data_flag_def)

lemma malware_transitions:
  assumes "d = ALLOW \<or> d = SANDBOX"
  shows "\<exists>t. apply_transition (st_evaluated p d) (event_of ''ScanMalware'' []) = Inr t
           \<and> apply_transition t (event_of ''BlockMalware'' []) = Inr (st_malware p d)"
  using assms by (auto simp add: apply_transition_def guarded_update_def transition_defs trace_tables
        validate_invariants_def st_defs initial_trace_state_def data_flag_def)

text \<open>The verifier is in state \<open>x\<close> and its recorded events replay to it.\<close>

definition follows :: "bool \<Rightarrow> bull_trace_state \<Rightarrow> ('w, 'h) runtime_state \<Rightarrow> bool" where
  "follows p x s \<longleftrightarrow> replays p (rs_trace s) \<and> tv_state (rs_trace s) = x"

lemma follows_host [simp]:
  "follows p x (s\<lparr>rs_host := h\<rparr>) = follows p x s" "follows p x (s\<lparr>rs_engine := es\<rparr>) = follows p x s"
  by (simp_all add: follows_def)

lemma follows_reset: "follows (parent_has a) (initial_trace_state\<lparr>parent_has_capability := parent_has a\<rparr>) (reset_trace a s)"
  by (simp add: follows_def reset_trace_def) (simp add: reset_def)

lemma emit_all_run:
  assumes "replays p v" and "run_steps apply_transition (tv_state v) evs = Inr y"
  shows "\<exists>v'. emit_all evs v = (Inr (), v') \<and> replays p v' \<and> tv_state v' = y"
  using assms
proof (induction evs arbitrary: v)
  case Nil
  then show ?case by simp
next
  case (Cons ev evs)
  then obtain t where t: "apply_transition (tv_state v) ev = Inr t" "run_steps apply_transition t evs = Inr y"
    by (auto simp: run_steps_Cons_Inr simp del: run_steps.simps(2))
  let ?w = "snd (emit ev v)"
  have e: "emit ev v = (Inr t, ?w)" and w: "tv_state ?w = t" using t(1) by (simp_all add: emit_def)
  from replays_emit [OF Cons.prems(1)] have "replays p ?w" .
  from Cons.IH [OF this] t(2) w obtain v' where v': "emit_all evs ?w = (Inr (), v')" "replays p v'" "tv_state v' = y" by auto
  have "emit_all (ev # evs) v = emit_all evs ?w" by (subst emit_all.simps, subst e) simp
  then show ?case using v' by simp
qed

lemma with_trace_run:
  assumes "follows p x s" and "run_steps apply_transition x evs = Inr y"
  shows "\<exists>s'. with_trace evs s k = k s' \<and> follows p y s' \<and> rs_host s' = rs_host s \<and> rs_engine s' = rs_engine s"
proof -
  from assms emit_all_run [of p "rs_trace s" evs y] obtain v' where
    "emit_all evs (rs_trace s) = (Inr (), v')" "replays p v'" "tv_state v' = y"
    by (auto simp: follows_def)
  then show ?thesis by (intro exI [of _ "s\<lparr>rs_trace := v'\<rparr>"]) (simp add: with_trace_def follows_def)
qed

lemma with_trace_one:
  assumes "follows p x s" and "apply_transition x ev = Inr y"
  obtains s' where "with_trace [ev] s k = k s'" and "follows p y s'" and "rs_host s' = rs_host s"
  using with_trace_run [of p x s "[ev]" y k] assms by auto

text \<open>The shape of a result: the flags of the result are those of the trace state it carries.\<close>

definition result_wf :: "bool \<Rightarrow> execution_result \<Rightarrow> bool" where
  "result_wf p r =
     (case x_trace_state r of
        None \<Rightarrow> False
      | Some t \<Rightarrow>
          x_executed r = executed t \<and> x_sandboxed r = executed t \<and> (x_returncode r \<noteq> None) = executed t
          \<and> (x_attestation r \<noteq> None) = executed t \<and> x_review_required r = review_required t
          \<and> (x_malware_clean r = Some True) = malware_clean t
          \<and> (x_detections r = [] \<or> scanned t \<and> \<not> malware_clean t)
          \<and> decision t = decision_value (e_decision (x_evaluation r)) \<and> parent_has_capability t = p
          \<and> (executed t \<longrightarrow> e_decision (x_evaluation r) \<in> {ALLOW, SANDBOX}))"

text \<open>A call answered with a well-formed result whose trace state is the verifier's own, or with an
  exception out of \<open>E\<close>. \<open>host_errors\<close> are the exceptions of the host operations.\<close>

definition host_errors :: "'h runtime_config \<Rightarrow> exn set" where
  "host_errors rc =
     {e. (\<exists>r h. resolve_strict (rt_host rc) r h = Inl e) \<or> (\<exists>r h h'. take_snapshot rc r h = (Inl e, h'))
        \<or> (\<exists>r b h h'. build_manifest (rt_host rc) r b h = (Inl e, h')) \<or> (\<exists>r b h h'. hash_tree (rt_host rc) r b h = (Inl e, h'))
        \<or> (\<exists>c h h'. sandbox_run (rt_host rc) c h = (Inl e, h')) \<or> (\<exists>sn h h'. destroy_snapshot (rt_host rc) sn h = (Inl e, h'))
        \<or> \<not> rt_scan_required rc \<and> e = (RuntimeError, ''formal runtime instrumentation requires malware scanning'')}"

definition good_answer :: "bool \<Rightarrow> exn set \<Rightarrow> execution_result res \<times> ('w, 'h) runtime_state \<Rightarrow> bool" where
  "good_answer p E a =
     (case a of (Inl e, s) \<Rightarrow> e \<in> E
      | (Inr r, s) \<Rightarrow> result_wf p r \<and> replays p (rs_trace s) \<and> x_trace_state r = Some (tv_state (rs_trace s)))"

lemma good_answer_Inl [simp]: "good_answer p E (Inl e, s) \<longleftrightarrow> e \<in> E"
  by (simp add: good_answer_def)

lemma host_errorsI:
  "resolve_strict (rt_host rc) r h = Inl e \<Longrightarrow> e \<in> host_errors rc"
  "take_snapshot rc r h = (Inl e, h') \<Longrightarrow> e \<in> host_errors rc"
  "build_manifest (rt_host rc) r b h = (Inl e, h') \<Longrightarrow> e \<in> host_errors rc"
  "hash_tree (rt_host rc) r b h = (Inl e, h') \<Longrightarrow> e \<in> host_errors rc"
  "sandbox_run (rt_host rc) c h = (Inl e, h') \<Longrightarrow> e \<in> host_errors rc"
  "destroy_snapshot (rt_host rc) sn h = (Inl e, h') \<Longrightarrow> e \<in> host_errors rc"
  unfolding host_errors_def by blast+

lemma not_executed_good:
  assumes "follows p x s" and "\<not> executed x" and "decision x = decision_value (e_decision ev)" and "parent_has_capability x = p"
    and "review_required x = rv" and "malware_clean x = (clean = Some True)"
    and "ds = [] \<or> scanned x \<and> \<not> malware_clean x"
  shows "good_answer p E (Inr ((not_executed ev msg s)\<lparr>x_review_required := rv, x_scan_performed := sp,
                              x_malware_clean := clean, x_detections := ds\<rparr>), s)"
  using assms by (auto simp: good_answer_def result_wf_def not_executed_def follows_def snapshot_def)

lemma not_executed_plain:
  "not_executed ev msg s = (not_executed ev msg s)\<lparr>x_review_required := False, x_scan_performed := False,
     x_malware_clean := None, x_detections := []\<rparr>"
  "(not_executed ev msg s)\<lparr>x_review_required := True\<rparr> = (not_executed ev msg s)\<lparr>x_review_required := True,
     x_scan_performed := False, x_malware_clean := None, x_detections := []\<rparr>"
  "(not_executed ev msg s)\<lparr>x_scan_performed := sp, x_malware_clean := clean\<rparr> =
     (not_executed ev msg s)\<lparr>x_review_required := False, x_scan_performed := sp, x_malware_clean := clean, x_detections := []\<rparr>"
  "(not_executed ev msg s)\<lparr>x_scan_performed := sp, x_malware_clean := clean, x_detections := ds\<rparr> =
     (not_executed ev msg s)\<lparr>x_review_required := False, x_scan_performed := sp, x_malware_clean := clean, x_detections := ds\<rparr>"
  by (simp_all add: not_executed_def)

lemma malware_blocked_good:
  assumes "follows p (st_evaluated p d) s" and "d = ALLOW \<or> d = SANDBOX" and "d = e_decision ev" and "clean \<noteq> Some True"
  shows "\<exists>r s'. malware_blocked ev msg sp clean ds s = (Inr (Some r), s') \<and> good_answer p E (Inr r, s')"
proof -
  from malware_transitions [OF assms(2), of p] have "run_steps apply_transition (st_evaluated p d)
      [event_of ''ScanMalware'' [], event_of ''BlockMalware'' []] = Inr (st_malware p d)" by auto
  from with_trace_run [OF assms(1) this] obtain s' where
    s': "malware_blocked ev msg sp clean ds s = (Inr (Some ((not_executed ev msg s')\<lparr>x_scan_performed := sp,
            x_malware_clean := clean, x_detections := ds\<rparr>)), s')" and f: "follows p (st_malware p d) s'"
    unfolding malware_blocked_def by blast
  have "good_answer p E (Inr ((not_executed ev msg s')\<lparr>x_scan_performed := sp, x_malware_clean := clean, x_detections := ds\<rparr>), s')"
    unfolding not_executed_plain(4)
    by (rule not_executed_good [OF f]) (use assms in \<open>auto simp: st_defs initial_trace_state_def\<close>)
  then show ?thesis using s' by blast
qed

lemma scan_gate_good:
  assumes f: "follows p (st_evaluated p d) s" and d: "d = ALLOW \<or> d = SANDBOX" "d = e_decision ev"
  shows "case scan_gate rc ev xroot s of
           (Inl e, s') \<Rightarrow> e \<in> host_errors rc
         | (Inr (Some r), s') \<Rightarrow> good_answer p E (Inr r, s')
         | (Inr None, s') \<Rightarrow> follows p (st_scanned p d) s'"
proof (cases "\<not> rt_scan_required rc"; cases "rt_scanner rc")
  assume "\<not> \<not> rt_scan_required rc" "rt_scanner rc = None"
  then show ?thesis
    using malware_blocked_good [OF f d, of None "''malware scan required but scanner unavailable''" False "[]" E]
    by (auto simp: scan_gate_def)
next
  fix sc
  assume required: "\<not> \<not> rt_scan_required rc" and Some: "rt_scanner rc = Some sc"
  obtain r h where scan: "scan_project sc xroot (scan_bounds rc sc) (rs_host s) = (r, h)" by fastforce
  have f': "follows p (st_evaluated p d) (s\<lparr>rs_host := h\<rparr>)" using f by simp
  obtain s1 where s1: "with_trace [event_of ''ScanClean'' []] (s\<lparr>rs_host := h\<rparr>) (\<lambda>s1. (Inr None, s1)) = (Inr (None :: execution_result option), s1)"
      "follows p (st_scanned p d) s1"
    using with_trace_one [OF f' runtime_transitions(4) [OF d(1)], of "\<lambda>s1. (Inr None, s1)"] by blast
  show ?thesis
  proof (cases r)
    case (Inl e)
    with malware_blocked_good [OF f' d, of None "''malware scan failed closed: '' @ snd e" True "[]" E] scan Some required
    show ?thesis by (auto simp: scan_gate_def Let_def)
  next
    case (Inr res)
    show ?thesis
    proof (cases "ps_clean res")
      case True
      then show ?thesis using Some scan Inr s1 required by (simp add: scan_gate_def Let_def)
    next
      case False
      with malware_blocked_good [OF f' d, of "Some False" "''malware detection blocked execution''" True
          "map (\<lambda>d. if opt_truthy (fs_signature d) then head_text (fs_signature d) else fs_path d) (ps_detections res)" E] scan Some Inr required
      show ?thesis by (auto simp: scan_gate_def Let_def)
    qed
  qed
qed (simp_all add: scan_gate_def host_errors_def)

lemma with_trace_good:
  assumes "follows p x s" and "run_steps apply_transition x evs = Inr y"
    and "\<And>s'. follows p y s' \<Longrightarrow> good_answer p E (k s')"
  shows "good_answer p E (with_trace evs s k)"
  using with_trace_run [OF assms(1,2), of k] assms(3) by auto

lemma in_snapshot_good:
  assumes E: "host_errors rc \<subseteq> E" and f: "follows p (st_evaluated p d) s" and d: "d = ALLOW \<or> d = SANDBOX" "d = e_decision ev"
  shows "good_answer p E (in_snapshot rc a command timeout ev snap s)"
proof -
  let ?ops = "rt_host rc" and ?b = "rt_workspace_budget rc"
  obtain m h where man: "build_manifest ?ops (snapshot_root snap) ?b (rs_host s) = (m, h)" by fastforce
  have f': "follows p (st_evaluated p d) (s\<lparr>rs_host := h\<rparr>)" using f by simp
  have rej: "good_answer p E (Inr (not_executed ev msg (s\<lparr>rs_host := h\<rparr>)), s\<lparr>rs_host := h\<rparr>)" for msg
    by (subst not_executed_plain(1), rule not_executed_good [OF f']) (use d in \<open>auto simp: st_defs initial_trace_state_def\<close>)
  show ?thesis
  proof (cases m)
    case (Inl e)
    then have "e \<in> E" using E man by (auto dest: host_errorsI(3))
    then show ?thesis using Inl man rej by (cases e) (auto simp: in_snapshot_def Let_def split: exn_class.split)
  next
    case (Inr u)
    note m = this
    obtain g s1 where gate: "scan_gate rc ev (snapshot_root snap) (s\<lparr>rs_host := h\<rparr>) = (g, s1)" by fastforce
    note sg = scan_gate_good [OF f' d, where rc = rc and xroot = "snapshot_root snap" and E = E]
    show ?thesis
    proof (cases "g = Inr None")
      case False
      then show ?thesis using sg gate man m E
        by (auto simp: in_snapshot_def Let_def split: sum.split_asm option.split_asm sum.split option.split)
    next
      case True
      with sg gate have f1: "follows p (st_scanned p d) s1" by simp
      obtain c h1 where hash: "hash_tree ?ops (snapshot_root snap) ?b (rs_host s1) = (c, h1)" by fastforce
      obtain q h2 where run: "sandbox_run ?ops (the_call rc a command timeout snap) h1 = (q, h2)" by fastforce
      have f2: "follows p (st_scanned p d) (s1\<lparr>rs_host := h1\<rparr>)" "follows p (st_scanned p d) (s1\<lparr>rs_host := h2\<rparr>)" using f1 by simp_all
      have changed: "good_answer p E (Inr ((not_executed ev msg (s1\<lparr>rs_host := h1\<rparr>))\<lparr>x_scan_performed := True, x_malware_clean := Some True\<rparr>), s1\<lparr>rs_host := h1\<rparr>)" for msg
        by (subst not_executed_plain(3), rule not_executed_good [OF f2(1)]) (use d in \<open>auto simp: st_defs initial_trace_state_def\<close>)
      have finished: "good_answer p E (with_trace [event_of ''Execute'' [(''sandboxed'', EvBool True), (''seccomp'', EvBool True)]]
          (s1\<lparr>rs_host := h2\<rparr>) (\<lambda>s3. (Inr \<lparr>x_evaluation = ev, x_executed = True, x_sandboxed = True, x_review_required = False,
             x_returncode = Some rcode, x_stdout = so, x_stderr = se, x_scan_performed = True, x_malware_clean = Some True, x_detections = [],
             x_trace_state = Some (snapshot (rs_trace s3)), x_attestation = Some att, x_setup_ms = t1, x_reap_ms = t2\<rparr>, s3)))" for rcode so se att t1 t2
        by (rule with_trace_good [OF f2(2), of _ "st_executed p d"])
          (use runtime_transitions(5) [OF d(1)] d in \<open>auto simp: good_answer_def result_wf_def follows_def snapshot_def st_defs initial_trace_state_def\<close>)
      have "e \<in> E" if "c = Inl e \<or> q = Inl e" for e using that E hash run by (auto dest: host_errorsI(4,5))
      then show ?thesis using man m gate True hash run changed finished
        by (cases c; cases q) (auto simp: in_snapshot_def Let_def)
    qed
  qed
qed

lemma finally_destroy_good: "host_errors rc \<subseteq> E \<Longrightarrow> good_answer p E body \<Longrightarrow> good_answer p E (finally_destroy rc snap body)"
  by (cases body) (auto simp: finally_destroy_def good_answer_def dest: host_errorsI split: sum.split prod.split)

lemma run_admitted_good:
  assumes E: "host_errors rc \<subseteq> E" and f: "follows p (st_evaluated p d) s" and d: "d = ALLOW \<or> d = SANDBOX" "d = e_decision ev"
  shows "good_answer p E (run_admitted rc a command proot timeout ev s)"
proof -
  have rej: "good_answer p E (Inr (not_executed ev msg (s\<lparr>rs_host := h\<rparr>)), s\<lparr>rs_host := h\<rparr>)" for msg h
    by (subst not_executed_plain(1), rule not_executed_good [of p "st_evaluated p d"])
      (use f d in \<open>auto simp: st_defs initial_trace_state_def\<close>)
  have "good_answer p E (finally_destroy rc snap (in_snapshot rc a command timeout ev snap (s\<lparr>rs_host := h\<rparr>)))" for snap h
    by (rule finally_destroy_good [OF E in_snapshot_good [OF E _ d]]) (use f in simp)
  with rej show ?thesis using E
    by (auto simp: run_admitted_def Let_def dest: host_errorsI split: sum.split prod.split exn_class.split)
qed

definition ledger_errors :: "pylib \<Rightarrow> 'h runtime_config \<Rightarrow> 'w ledger_io \<Rightarrow> string \<Rightarrow> exn set" where
  "ledger_errors L rc io ts =
     {e. \<exists>cfg a ev fw fw'. en_ledger (rt_engine rc) = Some cfg \<and> append_evaluation L cfg io ts a ev fw = (Inl e, fw')}"

lemma ledger_errorsI:
  "append_evaluation L cfg io ts a ev fw = (Inl e, fw') \<Longrightarrow> en_ledger (rt_engine rc) = Some cfg \<Longrightarrow> e \<in> ledger_errors L rc io ts"
  unfolding ledger_errors_def by blast

lemma engine_evaluate_Inl:
  "engine_evaluate L (rt_engine rc) io ts a s = (Inl e, s') \<Longrightarrow> e \<in> ledger_errors L rc io ts"
  unfolding engine_evaluate_def Let_def
  by (auto dest: ledger_errorsI split: option.split_asm sum.split_asm prod.split_asm)

lemma deny_binding_good:
  fixes s :: "('w, 'h) runtime_state"
  assumes "follows p (initial_trace_state\<lparr>parent_has_capability := p\<rparr>) s"
    and E: "ledger_errors L rc io ts \<subseteq> E"
  shows "good_answer p E (deny_binding L rc io ts a reason s)"
  unfolding deny_binding_def Let_def
proof (rule with_trace_good [OF assms(1), of _ "st_denied p"])
  fix s1 :: "('w, 'h) runtime_state"
  assume f: "follows p (st_denied p) s1"
  have ok: "good_answer p E (Inr (not_executed (evaluation_of DENY 1 [reason] True) reason s2), s2)"
    if "follows p (st_denied p) s2" for s2 :: "('w, 'h) runtime_state"
    by (subst not_executed_plain(1), rule not_executed_good [OF that]) (auto simp: st_defs initial_trace_state_def)
  show "good_answer p E (case en_ledger (rt_engine rc) of
          None \<Rightarrow> (Inr (not_executed (evaluation_of DENY 1 [reason] True) reason s1), s1)
        | Some cfg \<Rightarrow>
            (case append_evaluation L cfg io ts a (evaluation_of DENY 1 [reason] True) (es_files (rs_engine s1), es_world (rs_engine s1)) of
               (r, fs, w) \<Rightarrow>
                 (case r of Inl e \<Rightarrow> (Inl e, s1\<lparr>rs_engine := (rs_engine s1)\<lparr>es_files := fs, es_world := w\<rparr>\<rparr>)
                  | Inr _ \<Rightarrow> (Inr (not_executed (evaluation_of DENY 1 [reason] True) reason
                                  (s1\<lparr>rs_engine := (rs_engine s1)\<lparr>es_files := fs, es_world := w\<rparr>\<rparr>)),
                            s1\<lparr>rs_engine := (rs_engine s1)\<lparr>es_files := fs, es_world := w\<rparr>\<rparr>))))"
    using f ok E by (auto dest: ledger_errorsI split: option.split prod.split sum.split)
qed (simp add: runtime_transitions)

lemma resolve_decision_good:
  fixes s :: "('w, 'h) runtime_state"
  assumes E: "host_errors rc \<subseteq> E" and f: "follows p (st_evaluated p (e_decision ev)) s"
  shows "good_answer p E (resolve_decision rc a command proot timeout ev s)"
proof (cases "e_decision ev")
  case DENY
  have "good_answer p E (Inr (not_executed ev msg s2), s2)" if "follows p (st_denied p) s2" for msg and s2 :: "('w, 'h) runtime_state"
    by (subst not_executed_plain(1), rule not_executed_good [OF that]) (auto simp: DENY st_defs initial_trace_state_def)
  then show ?thesis using DENY unfolding resolve_decision_def
    by (auto intro!: with_trace_good [OF f [unfolded DENY]] simp: runtime_transitions)
next
  case ESCALATE
  have "good_answer p E (Inr ((not_executed ev msg s2)\<lparr>x_review_required := True\<rparr>), s2)" if "follows p (st_review p) s2"
    for msg and s2 :: "('w, 'h) runtime_state"
    by (subst not_executed_plain(2), rule not_executed_good [OF that]) (auto simp: ESCALATE st_defs initial_trace_state_def)
  then show ?thesis using ESCALATE unfolding resolve_decision_def
    by (auto intro!: with_trace_good [OF f [unfolded ESCALATE]] simp: runtime_transitions)
qed (use run_admitted_good [OF E f] in \<open>simp_all add: resolve_decision_def\<close>)

lemma runtime_execute_good:
  assumes E: "host_errors rc \<subseteq> E" "ledger_errors L rc io ts \<subseteq> E" "\<And>e. binding_failure L rc a command = Inl e \<Longrightarrow> e \<in> E"
  shows "good_answer (parent_has a) E (runtime_execute L rc io ts a command proot timeout s)"
proof -
  let ?p = "parent_has a" and ?s0 = "reset_trace a s"
  note f0 = follows_reset [of a s]
  have "good_answer ?p E (with_trace [evaluate_event (e_decision ev)] (?s0\<lparr>rs_engine := es\<rparr>)
          (resolve_decision rc a command proot timeout ev))" for ev es
    by (rule with_trace_good [of ?p "initial_trace_state\<lparr>parent_has_capability := ?p\<rparr>" _ _ "st_evaluated ?p (e_decision ev)"])
      (use f0 in \<open>auto simp: runtime_transitions intro: resolve_decision_good [OF E(1)]\<close>)
  with deny_binding_good [OF f0 E(2)] E show ?thesis
    by (auto simp: runtime_execute_def Let_def dest: engine_evaluate_Inl split: sum.split option.split prod.split)
qed

section \<open>What reaches the sandbox\<close>

text \<open>The command is the one that the action authorises.\<close>

definition command_bound :: "pylib \<Rightarrow> 'h runtime_config \<Rightarrow> action_request \<Rightarrow> string list \<Rightarrow> bool" where
  "command_bound L rc a command \<longleftrightarrow>
     capability a = PROCESS_EXEC \<and> command \<noteq> []
     \<and> (\<exists>x. canonicalize_filesystem_resource L (resource a) = Inr x \<and> canonicalize_filesystem_resource L (hd command) = Inr x)
     \<and> (rt_full_argv rc \<longrightarrow> opt_truthy (dict_get (metadata a) ''authorized_argv_hash''))
     \<and> (opt_truthy (dict_get (metadata a) ''authorized_argv_hash'') \<longrightarrow>
          dict_get (metadata a) ''authorized_argv_hash'' = hash_command L (Some command))"

text \<open>\<open>snap\<close> and \<open>h\<close> are the snapshot and the host state with which the sandbox may be started.\<close>

definition admitted ::
  "pylib \<Rightarrow> 'h runtime_config \<Rightarrow> 'w ledger_io \<Rightarrow> string \<Rightarrow> action_request \<Rightarrow> string list \<Rightarrow> string
     \<Rightarrow> ('w, 'h) runtime_state \<Rightarrow> project_snapshot \<Rightarrow> 'h \<Rightarrow> bool" where
  "admitted L rc io ts a command proot s snap h \<longleftrightarrow>
     command_bound L rc a command \<and> rt_scan_required rc
     \<and> (\<exists>ev es. engine_evaluate L (rt_engine rc) io ts a (rs_engine s) = (Inr ev, es) \<and> e_decision ev \<in> {ALLOW, SANDBOX})
     \<and> (\<exists>project h1 h2 h3 sc scan.
          resolve_strict (rt_host rc) proot (rs_host s) = Inr project
          \<and> take_snapshot rc project (rs_host s) = (Inr snap, h1)
          \<and> build_manifest (rt_host rc) (snapshot_root snap) (rt_workspace_budget rc) h1 = (Inr (), h2)
          \<and> rt_scanner rc = Some sc
          \<and> scan_project sc (snapshot_root snap) (scan_bounds rc sc) h2 = (Inr scan, h3) \<and> ps_clean scan
          \<and> hash_tree (rt_host rc) (snapshot_root snap) (rt_workspace_budget rc) h3 = (Inr (snapshot_hash snap), h))"

lemma binding_failure_None: "binding_failure L rc a command = Inr None \<longleftrightarrow> command_bound L rc a command"
proof (cases "capability a = PROCESS_EXEC \<and> command \<noteq> []")
  case True
  have ho: "head_text x = [] \<longleftrightarrow> \<not> opt_truthy x" for x by (auto simp: head_text_def opt_truthy_def split: option.split)
  have hx: "opt_truthy x \<Longrightarrow> Some (head_text x) = x" for x by (auto simp: head_text_def opt_truthy_def split: option.split_asm)
  have hh: "hash_command L (Some command) = Some (head_text (hash_command L (Some command)))"
    by (simp add: hash_command_def head_text_def)
  show ?thesis
  proof (cases "canonicalize_filesystem_resource L (resource a)")
    case (Inl e)
    then show ?thesis using True by (cases e) (auto simp: binding_failure_def command_bound_def split: exn_class.split)
  next
    case (Inr x)
    note x = this
    show ?thesis
    proof (cases "canonicalize_filesystem_resource L (hd command)")
      case (Inl e)
      then show ?thesis using True x by (cases e) (auto simp: binding_failure_def command_bound_def split: exn_class.split)
    next
      case (Inr y)
      then show ?thesis using True x ho [of "dict_get (metadata a) ''authorized_argv_hash''"]
          hx [of "dict_get (metadata a) ''authorized_argv_hash''"] hh
        by (auto simp: binding_failure_def command_bound_def Let_def)
    qed
  qed
qed (auto simp: binding_failure_def command_bound_def)

lemma scan_gate_None:
  assumes "scan_gate rc ev xroot s = (Inr None, s')"
  shows "rt_scan_required rc \<and> (\<exists>sc scan. rt_scanner rc = Some sc
    \<and> scan_project sc xroot (scan_bounds rc sc) (rs_host s) = (Inr scan, rs_host s') \<and> ps_clean scan)"
  using assms unfolding scan_gate_def malware_blocked_def with_trace_def
  by (auto split: if_split_asm option.split_asm sum.split_asm prod.split_asm)

definition swap_sandbox ::
  "(sandbox_call \<Rightarrow> 'h \<Rightarrow> sandbox_result res \<times> 'h) \<Rightarrow> 'h runtime_config \<Rightarrow> 'h runtime_config" where
  "swap_sandbox f rc = rc\<lparr>rt_host := (rt_host rc)\<lparr>sandbox_run := f\<rparr>\<rparr>"

lemma swap_sandbox_simps [simp]:
  "scan_gate (swap_sandbox f rc) = scan_gate rc" "the_call (swap_sandbox f rc) = the_call rc"
  "finally_destroy (swap_sandbox f rc) = (finally_destroy rc :: _ \<Rightarrow> _ \<times> ('w, 'h) runtime_state \<Rightarrow> _)"
  "take_snapshot (swap_sandbox f rc) = take_snapshot rc" "binding_failure L (swap_sandbox f rc) = binding_failure L rc"
  "deny_binding L (swap_sandbox f rc) = (deny_binding L rc :: 'w ledger_io \<Rightarrow> _)"
  "rt_engine (swap_sandbox f rc) = rt_engine rc" "rt_workspace_budget (swap_sandbox f rc) = rt_workspace_budget rc"
  "build_manifest (rt_host (swap_sandbox f rc)) = build_manifest (rt_host rc)"
  "hash_tree (rt_host (swap_sandbox f rc)) = hash_tree (rt_host rc)"
  "resolve_strict (rt_host (swap_sandbox f rc)) = resolve_strict (rt_host rc)"
  "sandbox_run (rt_host (swap_sandbox f rc)) = f"
  by (auto simp: fun_eq_iff swap_sandbox_def scan_gate_def scan_bounds_def the_call_def finally_destroy_def take_snapshot_def
      binding_failure_def deny_binding_def Let_def split: option.split sum.split prod.split)

lemma with_trace_cong:
  assumes "\<And>s'. rs_host s' = rs_host s \<Longrightarrow> rs_engine s' = rs_engine s \<Longrightarrow> k s' = k' s'"
  shows "with_trace evs s k = with_trace evs s k'"
  using assms by (auto simp: with_trace_def split: sum.split prod.split)

lemma in_snapshot_swap:
  assumes "\<And>h2 h3 sc scan h. build_manifest (rt_host rc) (snapshot_root snap) (rt_workspace_budget rc) (rs_host s) = (Inr (), h2) \<Longrightarrow>
      rt_scan_required rc \<Longrightarrow> rt_scanner rc = Some sc \<Longrightarrow>
      scan_project sc (snapshot_root snap) (scan_bounds rc sc) h2 = (Inr scan, h3) \<Longrightarrow> ps_clean scan \<Longrightarrow>
      hash_tree (rt_host rc) (snapshot_root snap) (rt_workspace_budget rc) h3 = (Inr (snapshot_hash snap), h) \<Longrightarrow>
      f (the_call rc a command timeout snap) h = sandbox_run (rt_host rc) (the_call rc a command timeout snap) h"
  shows "in_snapshot (swap_sandbox f rc) a command timeout ev snap s = in_snapshot rc a command timeout ev snap s"
proof -
  have "f (the_call rc a command timeout snap) h = sandbox_run (rt_host rc) (the_call rc a command timeout snap) h"
    if "build_manifest (rt_host rc) (snapshot_root snap) (rt_workspace_budget rc) (rs_host s) = (Inr u, h2)"
      and "scan_gate rc ev (snapshot_root snap) (s\<lparr>rs_host := h2\<rparr>) = (Inr None, s1)"
      and "hash_tree (rt_host rc) (snapshot_root snap) (rt_workspace_budget rc) (rs_host s1) = (Inr (snapshot_hash snap), h)" for u h2 s1 h
    using scan_gate_None [OF that(2)] that(1,3) assms by auto
  then show ?thesis
    by (auto simp: in_snapshot_def Let_def split: sum.split prod.split option.split exn_class.split)
qed

lemma runtime_swap:
  assumes "\<And>snap h. admitted L rc io ts a command proot s snap h \<Longrightarrow>
      f (the_call rc a command timeout snap) h = sandbox_run (rt_host rc) (the_call rc a command timeout snap) h"
  shows "runtime_execute L (swap_sandbox f rc) io ts a command proot timeout s = runtime_execute L rc io ts a command proot timeout s"
proof -
  have "resolve_decision (swap_sandbox f rc) a command proot timeout ev s1 = resolve_decision rc a command proot timeout ev s1"
    if ev: "binding_failure L rc a command = Inr None" "engine_evaluate L (rt_engine rc) io ts a (rs_engine s) = (Inr ev, es)"
      and s1: "rs_host s1 = rs_host s" for ev es s1
  proof (cases "e_decision ev \<in> {ALLOW, SANDBOX}")
    case True
    have "in_snapshot (swap_sandbox f rc) a command timeout ev snap (s1\<lparr>rs_host := h1\<rparr>) = in_snapshot rc a command timeout ev snap (s1\<lparr>rs_host := h1\<rparr>)"
      if "resolve_strict (rt_host rc) proot (rs_host s1) = Inr project" "take_snapshot rc project (rs_host s1) = (Inr snap, h1)" for project snap h1
      by (rule in_snapshot_swap, rule assms)
        (use that s1 ev True in \<open>auto simp: admitted_def binding_failure_None simp del: swap_sandbox_simps\<close>)
    then show ?thesis
      by (auto simp: resolve_decision_def run_admitted_def Let_def split: sum.split prod.split exn_class.split)
  next
    case False
    then have "e_decision ev = DENY \<or> e_decision ev = ESCALATE" by (cases "e_decision ev") auto
    then show ?thesis by (auto simp: resolve_decision_def)
  qed
  note same = this
  have "with_trace [evaluate_event (e_decision ev)] (reset_trace a s\<lparr>rs_engine := es\<rparr>) (resolve_decision (swap_sandbox f rc) a command proot timeout ev)
      = with_trace [evaluate_event (e_decision ev)] (reset_trace a s\<lparr>rs_engine := es\<rparr>) (resolve_decision rc a command proot timeout ev)"
    if "binding_failure L rc a command = Inr None" "engine_evaluate L (rt_engine rc) io ts a (rs_engine s) = (Inr ev, es)" for ev es
    by (rule with_trace_cong, rule same [OF that]) (simp add: reset_trace_def)
  then show ?thesis
    by (simp add: runtime_execute_def Let_def reset_trace_def split: sum.split option.split prod.split)
qed

text \<open>
  C3. Only admitted commands reach the sandbox. If exchanging the sandbox for any other one changes
  what an execution returns or leaves behind at all, then the execution was admitted: the command is
  bound to the action, the engine's decision is ALLOW or SANDBOX, a snapshot was taken, its manifest
  accepted, a required malware scan of that snapshot came back clean and its hash was still the one
  taken at creation; and the two sandboxes differ on precisely that call, the unchanged command on the
  snapshot, read-only, with the configured resource budget.
\<close>

theorem sandbox_gets_only_admitted_calls:
  assumes "runtime_execute L (swap_sandbox f rc) io ts a command proot timeout s
             \<noteq> runtime_execute L rc io ts a command proot timeout s"
  shows "\<exists>snap h. admitted L rc io ts a command proot s snap h
    \<and> f (the_call rc a command timeout snap) h \<noteq> sandbox_run (rt_host rc) (the_call rc a command timeout snap) h"
  using assms runtime_swap by blast

text \<open>A host on which everything works, the scanner finds nothing and the sandbox counts its runs.\<close>

definition run_snapshot :: project_snapshot where
  "run_snapshot = \<lparr>source_root = ''/workspace'', snapshot_root = ''/snap'', source_hash = ''h'', snapshot_hash = ''h'',
     cleanup_root = None\<rparr>"

definition run_result :: sandbox_result where
  "run_result = \<lparr>sr_returncode = 0, sr_stdout = ''ok'', sr_stderr = [], sr_attestation = ''att'', sr_setup_ms = None,
     sr_reap_ms = None\<rparr>"

definition run_host_ops :: "nat host_ops" where
  "run_host_ops = \<lparr>resolve_strict = (\<lambda>r h. Inr r), environ_get = (\<lambda>k h. None),
     create_snapshot = (\<lambda>r b t h. (Inr run_snapshot, h)), create_snapshot_isolated = (\<lambda>r b t h. (Inr run_snapshot, h)),
     build_manifest = (\<lambda>r b h. (Inr (), h)), hash_tree = (\<lambda>r b h. (Inr ''h'', h)),
     sandbox_run = (\<lambda>c h. (Inr run_result, Suc h)), destroy_snapshot = (\<lambda>sn h. (Inr (), h))\<rparr>"

definition run_scanner :: "nat scanner" where
  "run_scanner = \<lparr>bounded_scan = True, scan_project = (\<lambda>r b h. (Inr \<lparr>ps_clean = True, ps_detections = []\<rparr>, h))\<rparr>"

definition run_config :: "nat runtime_config" where
  "run_config = \<lparr>rt_engine = \<lparr>en_policy = default_policy, en_advisory = null_advisory, en_ledger = None\<rparr>,
     rt_host = run_host_ops, rt_scan_required = True, rt_scanner = Some run_scanner, rt_resource_budget = default_resources,
     rt_full_argv = False, rt_workspace_budget = default_budget, rt_snapshot_root = None\<rparr>"

definition run_action :: action_request where
  "run_action = \<lparr>actor = ''agent'', task = ''build'', operation = ''exec'', resource = ''/workspace/run'',
     capability = PROCESS_EXEC, granted_capabilities = {PROCESS_EXEC}, provenance = [HUMAN],
     parent_capabilities = None, irreversible = False, external_side_effect = False, metadata = []\<rparr>"

definition run_state :: "(unit, nat) runtime_state" where
  "run_state = \<lparr>rs_engine = \<lparr>es_guard = new_session_guard, es_files = empty_files, es_world = ()\<rparr>,
     rs_trace = new_verifier, rs_host = 0\<rparr>"

definition run_demo :: "nat runtime_config \<Rightarrow> execution_result res \<times> (unit, nat) runtime_state" where
  "run_demo rc = runtime_execute plain_lib rc (status_io 200) ''t'' run_action [''/workspace/run'', ''-x''] ''/workspace'' (Some 30) run_state"

theorem sandbox_gets_only_admitted_calls_witness:
  "run_demo (swap_sandbox (\<lambda>c h. (raise OSError [], h)) run_config) \<noteq> run_demo run_config
   \<and> (\<exists>snap h. admitted plain_lib run_config (status_io 200) ''t'' run_action [''/workspace/run'', ''-x''] ''/workspace'' run_state snap h)"
proof -
  let ?f = "\<lambda>(c :: sandbox_call) (h :: nat). (raise OSError [] :: sandbox_result res, h)"
  have "rs_host (snd (run_demo (swap_sandbox ?f run_config))) = 0" "rs_host (snd (run_demo run_config)) = 1" by code_simp+
  then have ne: "run_demo (swap_sandbox ?f run_config) \<noteq> run_demo run_config" by auto
  from sandbox_gets_only_admitted_calls [OF ne [unfolded run_demo_def]] ne show ?thesis by blast
qed

text \<open>
  C30. Results are well formed. Whatever an execution returns, its flags agree with the trace state it
  carries: executed, sandboxed, return code and attestation go together; review is required exactly
  after ESCALATE was resolved; a clean scan is reported exactly when the trace has one; detections are
  listed only for a blocked scan; only ALLOW and SANDBOX execute. The carried state is the verifier's,
  and the events recorded during the call replay to it from a fresh state.
\<close>

theorem runtime_result_matches_trace:
  assumes "runtime_execute L rc io ts a command proot timeout s = (Inr r, s')"
  shows "result_wf (parent_has a) r
    \<and> verify_trace (initial_trace_state\<lparr>parent_has_capability := parent_has a\<rparr>) (tv_events (rs_trace s')) = Inr (snapshot (rs_trace s'))
    \<and> x_trace_state r = Some (snapshot (rs_trace s'))"
proof -
  have "good_answer (parent_has a) UNIV (runtime_execute L rc io ts a command proot timeout s)"
    by (rule runtime_execute_good) simp_all
  then have "result_wf (parent_has a) r" "replays (parent_has a) (rs_trace s')" "x_trace_state r = Some (tv_state (rs_trace s'))"
    by (simp_all add: assms good_answer_def)
  then show ?thesis using trace_inv_initial [of "parent_has a"]
    by (simp add: verify_trace_Inr trace_inv_def replays_def snapshot_def)
qed

lemma run_demo_returns: "\<exists>r s'. run_demo run_config = (Inr r, s') \<and> x_executed r"
proof -
  have "result_sat (fst (run_demo run_config)) x_executed" by code_simp
  then show ?thesis by (cases "run_demo run_config") (auto elim: result_satE)
qed

theorem runtime_result_matches_trace_witness:
  "\<exists>r s'. run_demo run_config = (Inr r, s') \<and> x_executed r \<and> result_wf False r"
proof -
  obtain r s' where r: "run_demo run_config = (Inr r, s')" "x_executed r" using run_demo_returns by blast
  from runtime_result_matches_trace [OF r(1) [unfolded run_demo_def]] r show ?thesis
    by (auto simp: parent_has_def run_action_def)
qed



end
