(* ===== verification/Hardware_Protocol.thy ===== *)
theory Hardware_Protocol
  imports Py_Json
begin

text \<open>
  The wire protocol of the approval device, \<^verbatim>\<open>src/bulldog/hardware_approval/protocol.py\<close>, its
  verification, \<^verbatim>\<open>verifier.py\<close>, and the construction of a request from a pending approval,
  \<^verbatim>\<open>provider.py\<close>. Byte strings are HOL strings. The elliptic-curve operations of the
  \<open>cryptography\<close> package are an argument, as is \<open>json.loads\<close>.

  The lemmas show that both packet formats are fixed-width encodings with exact inverses, so that a
  digest of a packet commits to every field, and what an accepted assertion guarantees.
\<close>

section \<open>Big-endian integers\<close>

fun be_bytes :: "nat \<Rightarrow> nat \<Rightarrow> string" where
  "be_bytes 0 n = []"
| "be_bytes (Suc k) n = be_bytes k (n div 256) @ [char_of (n mod 256)]"

definition be_val :: "string \<Rightarrow> nat" where
  "be_val s = foldl (\<lambda>a c. a * 256 + code c) 0 s"

lemma length_be_bytes [simp]: "length (be_bytes k n) = k"
  by (induction k arbitrary: n) simp_all

lemma be_val_snoc [simp]: "be_val (s @ [c]) = be_val s * 256 + code c"
  by (simp add: be_val_def)

lemma be_val_bytes: "n < 256 ^ k \<Longrightarrow> be_val (be_bytes k n) = n"
proof (induction k arbitrary: n)
  case 0
  then show ?case by (simp add: be_val_def)
next
  case (Suc k)
  then have "n div 256 < 256 ^ k" by (simp add: less_mult_imp_div_less mult.commute)
  with Suc.IH [of "n div 256"] show ?case by simp
qed

lemma be_bytes_val: "be_bytes (length s) (be_val s) = s"
  by (induction s rule: rev_induct) (simp_all add: div_add1_eq)

lemma be_val_less: "be_val s < 256 ^ length s"
proof (induction s rule: rev_induct)
  case Nil
  then show ?case by (simp add: be_val_def)
next
  case (snoc c s)
  have "be_val s * 256 + code c < (be_val s + 1) * 256" by simp
  also have "\<dots> \<le> 256 ^ length s * 256" using snoc by (intro mult_right_mono) simp_all
  finally show ?case by simp
qed

lemma one_byte: "length s = 1 \<Longrightarrow> s = [char_of (be_val s)]"
  by (cases s) (simp_all add: be_val_def)

section \<open>Requests\<close>

definition PROTOCOL :: string where
  "PROTOCOL = ''BULL-AUTH-1''"

abbreviation approval_error :: "string \<Rightarrow> 'a res" where
  "approval_error m \<equiv> raise ApprovalError m"

definition fixed :: "nat \<Rightarrow> string \<Rightarrow> string res" where
  "fixed len v = (if length v \<noteq> len then approval_error ''invalid fixed-width hardware field'' else Inr v)"

fun fixed_all :: "string list \<Rightarrow> string list res" where
  "fixed_all [] = Inr []"
| "fixed_all (v # vs) =
     (case fixed 32 v of
        Inl e \<Rightarrow> Inl e
      | Inr w \<Rightarrow> (case fixed_all vs of Inl e \<Rightarrow> Inl e | Inr ws \<Rightarrow> Inr (w # ws)))"

record hw_request =
  hr_request_id :: string
  hr_session_digest :: string
  hr_action_digest :: string
  hr_operation_digest :: string
  hr_resource_digest :: string
  hr_parameter_digest :: string
  hr_policy_digest :: string
  hr_nonce :: string
  hr_created :: int
  hr_expires :: int

definition request_fields :: "hw_request \<Rightarrow> string list" where
  "request_fields r = [hr_request_id r, hr_session_digest r, hr_action_digest r, hr_operation_digest r,
     hr_resource_digest r, hr_parameter_digest r, hr_policy_digest r, hr_nonce r]"

definition REQUEST_size :: nat where
  "REQUEST_size = 284"

definition encode_request :: "hw_request \<Rightarrow> string res" where
  "encode_request r =
     (if \<not> (0 \<le> hr_created r \<and> hr_created r < hr_expires r \<and> hr_expires r < 2 ^ 64)
         \<or> hr_expires r - hr_created r > 30
      then approval_error ''invalid hardware request lifetime''
      else case fixed_all (request_fields r) of
        Inl e \<Rightarrow> Inl e
      | Inr fs \<Rightarrow> Inr (PROTOCOL @ [char_of (1::nat)] @ concat fs @ be_bytes 8 (nat (hr_created r)) @ be_bytes 8 (nat (hr_expires r))))"

definition slice :: "nat \<Rightarrow> nat \<Rightarrow> string \<Rightarrow> string" where
  "slice i n s = take n (drop i s)"

text \<open>The fields that \<open>REQUEST.unpack\<close> returns, in the order of the constructor.\<close>

definition request_of :: "string \<Rightarrow> hw_request" where
  "request_of p =
     \<lparr>hr_request_id = slice 12 32 p, hr_session_digest = slice 44 32 p, hr_action_digest = slice 76 32 p,
      hr_operation_digest = slice 108 32 p, hr_resource_digest = slice 140 32 p, hr_parameter_digest = slice 172 32 p,
      hr_policy_digest = slice 204 32 p, hr_nonce = slice 236 32 p, hr_created = int (be_val (slice 268 8 p)),
      hr_expires = int (be_val (slice 276 8 p))\<rparr>"

definition decode_request :: "string \<Rightarrow> hw_request res" where
  "decode_request packet =
     (case fixed REQUEST_size packet of
        Inl e \<Rightarrow> Inl e
      | Inr p \<Rightarrow>
          if slice 0 11 p \<noteq> PROTOCOL \<or> be_val (slice 11 1 p) \<noteq> 1
          then approval_error ''unsupported hardware request''
          else let r = request_of p in
            (case encode_request r of Inl e \<Rightarrow> Inl e | Inr _ \<Rightarrow> Inr r))"

section \<open>Assertions\<close>

datatype hw_decision = HW_DENY | HW_APPROVE

fun hw_decision_value :: "hw_decision \<Rightarrow> nat" where
  "hw_decision_value HW_DENY = 0"
| "hw_decision_value HW_APPROVE = 1"

record assertion =
  as_decision :: hw_decision
  as_device_id :: string
  as_request_id :: string
  as_request_digest :: string
  as_session_digest :: string
  as_nonce :: string
  as_counter :: int
  as_signature :: string

definition assertion_fields :: "assertion \<Rightarrow> string list" where
  "assertion_fields a = [as_device_id a, as_request_id a, as_request_digest a, as_session_digest a, as_nonce a]"

definition ASSERTION_size :: nat where
  "ASSERTION_size = 176"

definition signed_bytes :: "assertion \<Rightarrow> string res" where
  "signed_bytes a =
     (if \<not> (0 < as_counter a \<and> as_counter a < 2 ^ 32) then approval_error ''invalid hardware counter''
      else case fixed_all (assertion_fields a) of
        Inl e \<Rightarrow> Inl e
      | Inr fs \<Rightarrow> Inr (PROTOCOL @ [char_of (hw_decision_value (as_decision a))] @ concat fs @ be_bytes 4 (nat (as_counter a))))"

definition encode_assertion :: "assertion \<Rightarrow> string res" where
  "encode_assertion a =
     (case signed_bytes a of
        Inl e \<Rightarrow> Inl e
      | Inr b \<Rightarrow> (case fixed 64 (as_signature a) of Inl e \<Rightarrow> Inl e | Inr sg \<Rightarrow> Inr (b @ sg)))"

definition assertion_of :: "string \<Rightarrow> assertion" where
  "assertion_of p =
     \<lparr>as_decision = (if be_val (slice 11 1 p) = 0 then HW_DENY else HW_APPROVE), as_device_id = slice 12 32 p,
      as_request_id = slice 44 32 p, as_request_digest = slice 76 32 p, as_session_digest = slice 108 32 p,
      as_nonce = slice 140 32 p, as_counter = int (be_val (slice 172 4 p)), as_signature = drop ASSERTION_size p\<rparr>"

definition decode_assertion :: "string \<Rightarrow> assertion res" where
  "decode_assertion packet =
     (case fixed (ASSERTION_size + 64) packet of
        Inl e \<Rightarrow> Inl e
      | Inr p \<Rightarrow>
          let d = be_val (slice 11 1 p) in
          if slice 0 11 p \<noteq> PROTOCOL then approval_error ''unsupported hardware assertion''
          else if d \<noteq> 0 \<and> d \<noteq> 1 then approval_error ''invalid hardware decision''
          else let a = assertion_of p in
            (case encode_assertion a of Inl e \<Rightarrow> Inl e | Inr _ \<Rightarrow> Inr a))"

section \<open>Round trips\<close>

lemma fixed_Inr: "fixed n v = Inr w \<longleftrightarrow> w = v \<and> length v = n"
  by (auto simp: fixed_def)

lemma fixed_all_Inr: "fixed_all vs = Inr ws \<longleftrightarrow> ws = vs \<and> (\<forall>v \<in> set vs. length v = 32)"
  by (induction vs arbitrary: ws) (auto simp: fixed_Inr split: sum.split, (auto simp: fixed_def)+)

lemma length_slice: "i + n \<le> length p \<Longrightarrow> length (slice i n p) = n"
  by (simp add: slice_def)

lemma slice_append [simp]:
  "i + n \<le> length xs \<Longrightarrow> slice i n (xs @ ys) = slice i n xs"
  "length xs \<le> i \<Longrightarrow> slice i n (xs @ ys) = slice (i - length xs) n ys"
  by (simp_all add: slice_def)

lemma slice_Cons [simp]:
  "slice i 0 xs = []" "slice 0 (Suc n) (c # xs) = c # slice 0 n xs" "slice (Suc i) n (c # xs) = slice i n xs"
  "slice (numeral k) n (c # xs) = slice (pred_numeral k) n xs"
  by (simp_all add: slice_def numeral_eq_Suc)

lemma slice_all: "length xs = n \<Longrightarrow> slice 0 n xs = xs"
  by (simp add: slice_def)

lemma slice_drop: "i + n = j \<Longrightarrow> slice i n p @ drop j p = drop i p"
  unfolding slice_def by (metis append_take_drop_id drop_drop add.commute)

lemma slice_last: "i + n = length p \<Longrightarrow> slice i n p = drop i p"
  by (simp add: slice_def)

definition request_ok :: "hw_request \<Rightarrow> bool" where
  "request_ok r \<longleftrightarrow> 0 \<le> hr_created r \<and> hr_created r < hr_expires r \<and> hr_expires r < 2 ^ 64
     \<and> hr_expires r - hr_created r \<le> 30 \<and> (\<forall>v \<in> set (request_fields r). length v = 32)"

definition request_packet :: "hw_request \<Rightarrow> string" where
  "request_packet r = PROTOCOL @ [char_of (1::nat)] @ concat (request_fields r)
     @ be_bytes 8 (nat (hr_created r)) @ be_bytes 8 (nat (hr_expires r))"

lemma encode_request_Inr: "encode_request r = Inr p \<longleftrightarrow> request_ok r \<and> p = request_packet r"
proof (cases "fixed_all (request_fields r)")
  case (Inl e)
  then have "\<not> (\<forall>v \<in> set (request_fields r). length v = 32)" using fixed_all_Inr [of "request_fields r" "request_fields r"] by auto
  then show ?thesis using Inl by (auto simp: encode_request_def request_ok_def)
next
  case (Inr fs)
  then show ?thesis using fixed_all_Inr [of "request_fields r" fs]
    by (auto simp: encode_request_def request_ok_def request_packet_def)
qed

lemma length_PROTOCOL [simp]: "length PROTOCOL = 11"
  by (simp add: PROTOCOL_def)

lemma decode_encode_request:
  assumes "request_ok r"
  shows "decode_request (request_packet r) = Inr r"
proof -
  note ok = assms [unfolded request_ok_def request_fields_def]
  have len: "length (hr_request_id r) = 32" "length (hr_session_digest r) = 32" "length (hr_action_digest r) = 32"
      "length (hr_operation_digest r) = 32" "length (hr_resource_digest r) = 32" "length (hr_parameter_digest r) = 32"
      "length (hr_policy_digest r) = 32" "length (hr_nonce r) = 32"
    using ok by simp_all
  have t: "be_val (be_bytes 8 (nat (hr_created r))) = nat (hr_created r)" "be_val (be_bytes 8 (nat (hr_expires r))) = nat (hr_expires r)"
    using ok by (simp_all add: be_val_bytes nat_less_iff)
  have enc: "encode_request r = Inr (request_packet r)" using assms by (simp add: encode_request_Inr)
  have "length (request_packet r) = REQUEST_size"
    using len by (simp add: request_packet_def request_fields_def REQUEST_size_def)
  moreover have sl: "slice 0 11 (request_packet r) = PROTOCOL" "slice 11 1 (request_packet r) = [char_of (1::nat)]"
      "slice 12 32 (request_packet r) = hr_request_id r" "slice 44 32 (request_packet r) = hr_session_digest r"
      "slice 76 32 (request_packet r) = hr_action_digest r" "slice 108 32 (request_packet r) = hr_operation_digest r"
      "slice 140 32 (request_packet r) = hr_resource_digest r" "slice 172 32 (request_packet r) = hr_parameter_digest r"
      "slice 204 32 (request_packet r) = hr_policy_digest r" "slice 236 32 (request_packet r) = hr_nonce r"
      "slice 268 8 (request_packet r) = be_bytes 8 (nat (hr_created r))" "slice 276 8 (request_packet r) = be_bytes 8 (nat (hr_expires r))"
    by (simp_all add: request_packet_def request_fields_def len slice_all)
  moreover from ok sl t have "request_of (request_packet r) = r" by (simp add: request_of_def)
  moreover have "be_val (slice 11 1 (request_packet r)) = 1" unfolding sl(2) by (simp add: be_val_def)
  ultimately show ?thesis unfolding decode_request_def Let_def by (simp only: fixed_def) (simp add: enc)
qed

lemma encode_decode_request:
  assumes "decode_request p = Inr r"
  shows "request_ok r \<and> request_packet r = p"
proof -
  from assms have len: "length p = 284" and magic: "slice 0 11 p = PROTOCOL" and kind: "be_val (slice 11 1 p) = 1"
      and ok: "request_ok r"
      and r: "r = request_of p"
    unfolding decode_request_def Let_def
    by (auto simp: fixed_def REQUEST_size_def encode_request_Inr split: if_split_asm sum.split_asm)
  have k: "slice 11 1 p = [char_of (1::nat)]"
    using one_byte [of "slice 11 1 p"] kind len by (simp add: length_slice [where n = 1, simplified])
  have tail: "be_bytes 8 (be_val (slice 268 8 p)) = slice 268 8 p" "be_bytes 8 (be_val (slice 276 8 p)) = drop 276 p"
    using be_bytes_val [of "slice 268 8 p"] be_bytes_val [of "slice 276 8 p"] len by (simp_all add: length_slice slice_last)
  have "request_packet r = slice 0 11 p @ slice 11 1 p @ slice 12 32 p @ slice 44 32 p @ slice 76 32 p @ slice 108 32 p
      @ slice 140 32 p @ slice 172 32 p @ slice 204 32 p @ slice 236 32 p @ slice 268 8 p @ drop 276 p"
    by (simp add: request_packet_def request_fields_def r request_of_def magic k [unfolded One_nat_def] tail)
  also have "\<dots> = p" by (simp add: slice_drop)
  finally show ?thesis using ok by simp
qed

definition assertion_ok :: "assertion \<Rightarrow> bool" where
  "assertion_ok a \<longleftrightarrow> 0 < as_counter a \<and> as_counter a < 2 ^ 32 \<and> (\<forall>v \<in> set (assertion_fields a). length v = 32)
     \<and> length (as_signature a) = 64"

definition signed_part :: "assertion \<Rightarrow> string" where
  "signed_part a = PROTOCOL @ [char_of (hw_decision_value (as_decision a))] @ concat (assertion_fields a)
     @ be_bytes 4 (nat (as_counter a))"

lemma signed_bytes_Inr: "signed_bytes a = Inr p \<longleftrightarrow>
    0 < as_counter a \<and> as_counter a < 2 ^ 32 \<and> (\<forall>v \<in> set (assertion_fields a). length v = 32) \<and> p = signed_part a"
proof (cases "fixed_all (assertion_fields a)")
  case (Inl e)
  then have "\<not> (\<forall>v \<in> set (assertion_fields a). length v = 32)" using fixed_all_Inr [of "assertion_fields a" "assertion_fields a"] by auto
  then show ?thesis using Inl by (auto simp: signed_bytes_def)
next
  case (Inr fs)
  then show ?thesis using fixed_all_Inr [of "assertion_fields a" fs] by (auto simp: signed_bytes_def signed_part_def)
qed

lemma encode_assertion_Inr: "encode_assertion a = Inr p \<longleftrightarrow> assertion_ok a \<and> p = signed_part a @ as_signature a"
proof (cases "signed_bytes a")
  case (Inl e)
  then show ?thesis using signed_bytes_Inr [of a "signed_part a"] by (auto simp: encode_assertion_def assertion_ok_def)
next
  case (Inr b)
  then show ?thesis using signed_bytes_Inr [of a b] by (auto simp: encode_assertion_def assertion_ok_def fixed_def)
qed

lemma decode_encode_assertion:
  assumes "assertion_ok a"
  shows "decode_assertion (signed_part a @ as_signature a) = Inr a"
proof -
  note ok = assms [unfolded assertion_ok_def assertion_fields_def]
  have len: "length (as_device_id a) = 32" "length (as_request_id a) = 32" "length (as_request_digest a) = 32"
      "length (as_session_digest a) = 32" "length (as_nonce a) = 32" "length (as_signature a) = 64"
    using ok by simp_all
  have t: "be_val (be_bytes 4 (nat (as_counter a))) = nat (as_counter a)" using ok by (simp add: be_val_bytes nat_less_iff)
  have d: "be_val [char_of (hw_decision_value (as_decision a))] = hw_decision_value (as_decision a)"
    by (cases "as_decision a") (simp_all add: be_val_def)
  have dd: "(if hw_decision_value (as_decision a) = 0 then HW_DENY else HW_APPROVE) = as_decision a"
      "hw_decision_value (as_decision a) = 0 \<or> hw_decision_value (as_decision a) = 1"
    by (cases "as_decision a"; simp)+
  have enc: "encode_assertion a = Inr (signed_part a @ as_signature a)" using assms by (simp add: encode_assertion_Inr)
  have lp: "length (signed_part a) = 176" using len by (simp add: signed_part_def assertion_fields_def)
  have sl: "slice 0 11 (signed_part a) = PROTOCOL" "slice 11 1 (signed_part a) = [char_of (hw_decision_value (as_decision a))]"
      "slice 12 32 (signed_part a) = as_device_id a" "slice 44 32 (signed_part a) = as_request_id a"
      "slice 76 32 (signed_part a) = as_request_digest a" "slice 108 32 (signed_part a) = as_session_digest a"
      "slice 140 32 (signed_part a) = as_nonce a" "slice 172 4 (signed_part a) = be_bytes 4 (nat (as_counter a))"
    by (simp_all add: signed_part_def assertion_fields_def len slice_all)
  have "assertion_of (signed_part a @ as_signature a) = a"
    using ok dd(1) lp by (simp add: assertion_of_def ASSERTION_size_def sl [simplified] d t)
  then show ?thesis unfolding decode_assertion_def Let_def
    using lp len dd(2) enc by (simp add: fixed_def ASSERTION_size_def sl [simplified] d)
qed

lemma encode_decode_assertion:
  assumes "decode_assertion p = Inr a"
  shows "assertion_ok a \<and> signed_part a @ as_signature a = p"
proof -
  from assms have len: "length p = 240" and magic: "slice 0 11 p = PROTOCOL"
      and kind: "be_val (slice 11 1 p) = 0 \<or> be_val (slice 11 1 p) = 1" and ok: "assertion_ok a"
      and a: "a = assertion_of p"
    unfolding decode_assertion_def Let_def
    by (auto simp: fixed_def ASSERTION_size_def encode_assertion_Inr split: if_split_asm sum.split_asm)
  have k: "slice 11 1 p = [char_of (hw_decision_value (as_decision a))]"
    using one_byte [of "slice 11 1 p"] kind len by (auto simp: length_slice [where n = 1, simplified] a assertion_of_def)
  have tail: "be_bytes 4 (be_val (slice 172 4 p)) = slice 172 4 p"
    using be_bytes_val [of "slice 172 4 p"] len by (simp add: length_slice)
  have f: "assertion_fields a = [slice 12 32 p, slice 44 32 p, slice 76 32 p, slice 108 32 p, slice 140 32 p]"
      "as_counter a = int (be_val (slice 172 4 p))" "as_signature a = drop 176 p"
    by (simp_all add: a assertion_fields_def assertion_of_def ASSERTION_size_def)
  have "signed_part a @ as_signature a = slice 0 11 p @ slice 11 1 p @ slice 12 32 p @ slice 44 32 p @ slice 76 32 p
      @ slice 108 32 p @ slice 140 32 p @ slice 172 4 p @ drop 176 p"
    by (simp add: signed_part_def f magic k [unfolded One_nat_def] tail)
  also have "\<dots> = p" by (simp add: slice_drop)
  finally show ?thesis using ok by simp
qed

text \<open>
  C32. Both device packets are exact encodings: a packet decodes to a value precisely when that value
  encodes to the packet. Hence every accepted packet is the unique encoding of its fields, no two
  requests or assertions share a packet, and what is not the encoding of a valid value is refused.
\<close>

theorem hardware_packets_round_trip:
  "(decode_request p = Inr r \<longleftrightarrow> encode_request r = Inr p) \<and> (decode_assertion q = Inr a \<longleftrightarrow> encode_assertion a = Inr q)"
  using encode_decode_request [of p r] decode_encode_request [of r] encode_decode_assertion [of q a]
    decode_encode_assertion [of a]
  by (auto simp: encode_request_Inr encode_assertion_Inr)

section \<open>Verification\<close>

text \<open>\<open>bytes.fromhex\<close>: hexadecimal pairs, white space between them ignored.\<close>

fun fromhex :: "string \<Rightarrow> string res" where
  "fromhex [] = Inr []"
| "fromhex (c # s) =
     (if c \<in> set [CHR '' '', char_of (9::nat), char_of (10::nat), char_of (11::nat), char_of (12::nat), char_of (13::nat)]
      then fromhex s
      else case s of
        [] \<Rightarrow> raise ValueError ''non-hexadecimal number found in fromhex() arg''
      | d # t \<Rightarrow>
          (case (hexval c, hexval d) of
             (Some x, Some y) \<Rightarrow> (case fromhex t of Inl e \<Rightarrow> Inl e | Inr bs \<Rightarrow> Inr (char_of (16 * x + y) # bs))
           | _ \<Rightarrow> raise ValueError ''non-hexadecimal number found in fromhex() arg''))"

text \<open>\<open>hashlib.sha256(x).digest()\<close>, the bytes that \<open>hexdigest\<close> prints.\<close>

definition sha256_digest :: "pylib \<Rightarrow> string \<Rightarrow> string" where
  "sha256_digest L x = (case fromhex (sha256_hex L x) of Inr d \<Rightarrow> d | Inl _ \<Rightarrow> [])"

definition request_digest :: "pylib \<Rightarrow> hw_request \<Rightarrow> string res" where
  "request_digest L r = map_sum id (sha256_digest L) (encode_request r)"

text \<open>P-256: whether a byte string encodes a curve point, and ECDSA verification of a signature (r, s).\<close>

record ec_lib =
  ec_point :: "string \<Rightarrow> bool"
  ec_verify :: "string \<Rightarrow> nat \<times> nat \<Rightarrow> string \<Rightarrow> bool"

definition verify_assertion ::
  "pylib \<Rightarrow> ec_lib \<Rightarrow> assertion \<Rightarrow> hw_request \<Rightarrow> string \<Rightarrow> string \<Rightarrow> bool \<Rightarrow> int \<Rightarrow> int \<Rightarrow> unit res" where
  "verify_assertion L E a r public_key device_id enabled last_counter now =
     (case encode_request r of
        Inl e \<Rightarrow> Inl e
      | Inr _ \<Rightarrow>
     (case encode_assertion a of
        Inl e \<Rightarrow> Inl e
      | Inr _ \<Rightarrow>
     (case (if \<not> enabled then Inr False else map_sum id (\<lambda>d. as_device_id a = d) (fixed 32 device_id)) of
        Inl e \<Rightarrow> Inl e
      | Inr False \<Rightarrow> approval_error ''hardware device unknown or disabled''
      | Inr True \<Rightarrow>
          if \<not> (hr_created r \<le> now \<and> now < hr_expires r)
            then approval_error ''hardware request expired or clock invalid''
          else if as_request_id a \<noteq> hr_request_id r \<or> Inr (as_request_digest a) \<noteq> request_digest L r
              \<or> as_session_digest a \<noteq> hr_session_digest r \<or> as_nonce a \<noteq> hr_nonce r
            then approval_error ''hardware request binding mismatch''
          else if \<not> (0 \<le> last_counter \<and> last_counter < as_counter a)
            then approval_error ''hardware counter replay''
          else (case fixed 65 public_key of
                  Inl e \<Rightarrow> Inl e
                | Inr key \<Rightarrow>
                    (case signed_bytes a of
                       Inl e \<Rightarrow> Inl e
                     | Inr message \<Rightarrow>
                         if ec_point E key
                            \<and> ec_verify E key (be_val (take 32 (as_signature a)), be_val (drop 32 (as_signature a))) message
                         then Inr () else approval_error ''invalid hardware signature'')))))"

lemma verify_assertion_Inr:
  "verify_assertion L E a r pk dev enabled prior now = Inr u \<longleftrightarrow>
     request_ok r \<and> assertion_ok a \<and> enabled \<and> as_device_id a = dev \<and> length dev = 32
     \<and> hr_created r \<le> now \<and> now < hr_expires r
     \<and> as_request_id a = hr_request_id r \<and> as_request_digest a = sha256_digest L (request_packet r)
     \<and> as_session_digest a = hr_session_digest r \<and> as_nonce a = hr_nonce r
     \<and> 0 \<le> prior \<and> prior < as_counter a \<and> length pk = 65 \<and> ec_point E pk
     \<and> ec_verify E pk (be_val (take 32 (as_signature a)), be_val (drop 32 (as_signature a))) (signed_part a)"
proof (cases "request_ok r \<and> assertion_ok a")
  case True
  then have enc: "encode_request r = Inr (request_packet r)" "encode_assertion a = Inr (signed_part a @ as_signature a)"
      "signed_bytes a = Inr (signed_part a)"
    by (simp_all add: encode_request_Inr encode_assertion_Inr signed_bytes_Inr assertion_ok_def)
  show ?thesis unfolding verify_assertion_def request_digest_def enc
    using True by (cases enabled; cases "length dev = 32"; cases "as_device_id a = dev"; cases "length pk = 65") (simp_all add: fixed_def, blast?)
next
  case False
  have "(\<exists>e. encode_request r = Inl e) \<or> (\<exists>e. encode_assertion a = Inl e)"
  proof (rule ccontr)
    assume "\<not> ?thesis"
    then obtain x y where "encode_request r = Inr x" "encode_assertion a = Inr y" by (metis sum.exhaust)
    then show False using False by (simp add: encode_request_Inr encode_assertion_Inr)
  qed
  then have "verify_assertion L E a r pk dev enabled prior now \<noteq> Inr u"
    by (cases "encode_request r") (auto simp: verify_assertion_def)
  with False show ?thesis by blast
qed

section \<open>Requests from pending approvals\<close>

definition canonical_bytes :: "pylib \<Rightarrow> json \<Rightarrow> string" where
  "canonical_bytes L v = dumps_compact L v @ [char_of (10::nat)]"

definition field_digest :: "pylib \<Rightarrow> json \<Rightarrow> string" where
  "field_digest L v = sha256_digest L (canonical_bytes L (JObj [(''value'', v)]))"

text \<open>The errors that the \<open>try\<close> block turns into an \<open>ApprovalError\<close>.\<close>

fun hw_caught :: "exn \<Rightarrow> exn" where
  "hw_caught (c, m) =
     (if c \<in> {KeyError, TypeError, ValueError}
      then (ApprovalError, ''pending request cannot be encoded for hardware'') else (c, m))"

fun json_int :: "json \<Rightarrow> int res" where
  "json_int (JInt i) = Inr i"
| "json_int _ = approval_error ''invalid hardware request lifetime''"

fun json_fromhex :: "json \<Rightarrow> string res" where
  "json_fromhex (JStr s) = fromhex s"
| "json_fromhex _ = raise TypeError ''fromhex() argument must be str''"

fun those_res :: "'a res list \<Rightarrow> 'a list res" where
  "those_res [] = Inr []"
| "those_res (x # xs) =
     (case x of Inl e \<Rightarrow> Inl e | Inr v \<Rightarrow> (case those_res xs of Inl e \<Rightarrow> Inl e | Inr vs \<Rightarrow> Inr (v # vs)))"

definition request_for ::
  "pylib \<Rightarrow> (string \<Rightarrow> json res) \<Rightarrow> string \<Rightarrow> string \<Rightarrow> hw_request res" where
  "request_for L loads message credential_id =
     (case loads message of
        Inl e \<Rightarrow> Inl e
      | Inr v \<Rightarrow>
     (case jindex v ''action'' of
        Inl e \<Rightarrow> Inl e
      | Inr action \<Rightarrow>
     (case (case jindex v ''request_id'' of Inl e \<Rightarrow> Inl e | Inr j \<Rightarrow> json_fromhex j) of
        Inl e \<Rightarrow> Inl (hw_caught e)
      | Inr rid \<Rightarrow>
     (case map_sum id (map (field_digest L)) (those_res (map (jindex action)
              [''session_id'', ''operation'', ''target'', ''parameters'', ''policy_digest''])) of
        Inl e \<Rightarrow> Inl (hw_caught e)
      | Inr ds \<Rightarrow>
     (case those_res [jindex v ''issued_at'', jindex v ''expires_at''] of
        Inl e \<Rightarrow> Inl (hw_caught e)
      | Inr ts \<Rightarrow>
     (case those_res (map json_int ts) of
        Inl e \<Rightarrow> Inl e
      | Inr lifetimes \<Rightarrow>
          let r = \<lparr>hr_request_id = rid, hr_session_digest = ds ! 0, hr_action_digest = field_digest L action,
                   hr_operation_digest = ds ! 1, hr_resource_digest = ds ! 2, hr_parameter_digest = ds ! 3,
                   hr_policy_digest = ds ! 4,
                   hr_nonce = sha256_digest L (''bull-hardware-nonce-v1'' @ [char_of (0::nat)] @ credential_id @ [char_of (0::nat)] @ message),
                   hr_created = lifetimes ! 0, hr_expires = lifetimes ! 1\<rparr>
          in (case encode_request r of Inl e \<Rightarrow> Inl (hw_caught e) | Inr _ \<Rightarrow> Inr r)))))))"

end
