(* ===== verification/Approval.thy ===== *)
theory Approval
  imports Hardware_Protocol Models Canonicalizer
begin

text \<open>
  The approval gate, \<^verbatim>\<open>src/bulldog/approval.py\<close>: durable, single-use, credentialed approvals of
  consequential actions. The SQLite database is the record \<open>approval_db\<close>: the request rows by
  primary key, the clock's high-water mark and the per-key device counters. A transaction that raises
  before its commit leaves the database as it was. The clock, the random request identifier, the audit
  callback, \<open>json.loads\<close>, the OpenSSH signature check of \<^verbatim>\<open>approval_crypto.py\<close> and the
  elliptic-curve library are arguments.

  \<open>consume\<close> reads the request and checks the proof before it opens its transaction; other operations
  may run in between. It is therefore two operations here, \<open>consume_check\<close> and \<open>consume_commit\<close>, whose
  composition is the code's method and whose steps are interleaved with all others in the runs.
\<close>

section \<open>Configuration, bindings and the database\<close>

definition OPERATIONS :: "string list" where
  "OPERATIONS = [''secret.read'', ''network.request'', ''publish'', ''send'', ''delete'', ''access.change'', ''security.change'']"

definition FORMAT :: string where
  "FORMAT = ''bull-human-approval-v1''"

definition digest :: "pylib \<Rightarrow> string \<Rightarrow> string" where
  "digest L b = sha256_hex L b"

record hw_credential =
  hc_type :: string
  hc_device_id :: string
  hc_public_key :: string
  hc_enabled :: bool

datatype credential = SshKey string | Hardware hw_credential

record approval_config =
  ac_credentials :: "credential dict"
  ac_routine_urls :: "string list"
  ac_ttl :: int

record approval_proof =
  pr_request_id :: string
  pr_credential_id :: string
  pr_signature :: string

record approval_row =
  ar_binding :: string
  ar_message :: string
  ar_issued :: int
  ar_expires :: int
  ar_state :: string
  ar_credential :: "string option"
  ar_outcome :: "string option"

record approval_db =
  db_rows :: "approval_row dict"
  db_clock :: int
  db_counters :: "int dict"

definition empty_db :: approval_db where
  "empty_db = \<lparr>db_rows = [], db_clock = 0, db_counters = []\<rparr>"

definition counter_of :: "approval_db \<Rightarrow> string \<Rightarrow> int" where
  "counter_of db k = (case dict_get (db_counters db) k of None \<Rightarrow> 0 | Some c \<Rightarrow> c)"

text \<open>The gate object and the services around it.\<close>

record 'w approval_env =
  ag_config :: approval_config
  ag_policy_digest :: string
  ag_audit :: "string \<Rightarrow> jobj \<Rightarrow> 'w \<Rightarrow> unit res \<times> 'w"
  ag_loads :: "string \<Rightarrow> json res"
  ag_ssh :: "string \<Rightarrow> string \<Rightarrow> string \<Rightarrow> unit res"
  ag_ec :: ec_lib

definition caps_json :: "capability set \<Rightarrow> json" where
  "caps_json cs = JArr (map JStr (sorted_list_of_set (capability_value ` cs)))"

definition binding_for ::
  "pylib \<Rightarrow> action_request \<Rightarrow> string \<Rightarrow> jobj \<Rightarrow> string \<Rightarrow> string \<Rightarrow> jobj res" where
  "binding_for L a oper parameters policy_digest session_id =
     (if oper \<notin> set OPERATIONS then approval_error ''unsupported consequential operation''
      else if session_id = [] \<or> policy_digest = [] then approval_error ''missing trusted session/policy identity''
      else
        let md = (\<lambda>k. JStr (case dict_get (metadata a) k of None \<Rightarrow> [] | Some v \<Rightarrow> v));
            v = [(''operation'', JStr oper), (''target'', JStr (resource a)), (''actor'', JStr (actor a)),
                 (''domain_id'', md ''domain_id''), (''root_domain_id'', md ''root_domain_id''),
                 (''security_context_id'', md ''security_context_id''), (''session_id'', JStr session_id),
                 (''policy_digest'', JStr policy_digest), (''capability'', JStr (capability_value (capability a))),
                 (''granted_capabilities'', caps_json (granted_capabilities a)),
                 (''parent_capabilities'', (case parent_capabilities a of None \<Rightarrow> JNull | Some cs \<Rightarrow> caps_json cs)),
                 (''provenance'', JArr (map (JStr \<circ> provenance_value) (provenance a))),
                 (''parameters'', JObj parameters)]
        in if int (length (canonical_bytes L (JObj v))) > 32768 then approval_error ''approval action exceeds size limit''
           else Inr v)"

section \<open>Operations\<close>

definition db_now :: "int \<Rightarrow> approval_db \<Rightarrow> approval_db res" where
  "db_now now db =
     (if now < db_clock db then approval_error ''clock moved backwards; approval stopped''
      else Inr (db\<lparr>db_clock := now\<rparr>))"

definition request_message :: "pylib \<Rightarrow> 'w approval_env \<Rightarrow> string \<Rightarrow> int \<Rightarrow> jobj \<Rightarrow> jobj" where
  "request_message L g rid now binding =
     [(''format'', JStr FORMAT), (''request_id'', JStr rid), (''issued_at'', JInt now),
      (''expires_at'', JInt (now + ac_ttl (ag_config g))), (''action'', JObj binding)]"

definition request_approval ::
  "pylib \<Rightarrow> 'w approval_env \<Rightarrow> int \<Rightarrow> string \<Rightarrow> jobj \<Rightarrow> approval_db \<times> 'w \<Rightarrow> jobj res \<times> approval_db \<times> 'w" where
  "request_approval L g now rid binding s =
     (case s of (db, w) \<Rightarrow>
      let encoded = canonical_bytes L (JObj binding) in
      if jget binding ''policy_digest'' \<noteq> JStr (ag_policy_digest g)
        then (approval_error ''approval policy binding mismatch'', db, w)
      else if int (length encoded) > 32768 then (approval_error ''approval binding too large'', db, w)
      else (case db_now now db of
              Inl e \<Rightarrow> (Inl e, db, w)
            | Inr db1 \<Rightarrow>
                if int (length (db_rows db1)) \<ge> 10000 then (approval_error ''approval record budget reached'', db, w)
                else
                  let request = request_message L g rid now binding;
                      row = \<lparr>ar_binding = digest L encoded, ar_message = canonical_bytes L (JObj request), ar_issued = now,
                             ar_expires = now + ac_ttl (ag_config g), ar_state = ''pending'', ar_credential = None,
                             ar_outcome = None\<rparr> in
                  (case jindex (JObj binding) ''operation'' of
                     Inl e \<Rightarrow> (Inl e, db, w)
                   | Inr oper \<Rightarrow>
                  (case ag_audit g ''approval.requested''
                          [(''request_id'', JStr rid), (''binding_digest'', JStr (digest L encoded)), (''operation'', oper)] w of
                     (Inl e, w') \<Rightarrow> (Inl e, db, w')
                   | (Inr _, w') \<Rightarrow> (Inr request, db1\<lparr>db_rows := dict_set rid row (db_rows db1)\<rparr>, w')))))"

text \<open>What \<open>consume\<close> knows after its checks outside the transaction.\<close>

record checked =
  ck_request_id :: string
  ck_credential_id :: string
  ck_expected :: string
  ck_hardware :: "(hw_credential \<times> assertion \<times> hw_request) option"

definition consume_check ::
  "pylib \<Rightarrow> 'w approval_env \<Rightarrow> jobj \<Rightarrow> approval_proof \<Rightarrow> approval_db \<Rightarrow> checked res" where
  "consume_check L g binding proof db =
     (let expected = digest L (canonical_bytes L (JObj binding)) in
      case dict_get (ac_credentials (ag_config g)) (pr_credential_id proof) of
        None \<Rightarrow> approval_error ''credential is unknown or revoked''
      | Some key \<Rightarrow>
     (case dict_get (db_rows db) (pr_request_id proof) of
        None \<Rightarrow> approval_error ''approval is missing, changed, cancelled, or already consumed''
      | Some row \<Rightarrow>
          if ar_state row \<noteq> ''pending'' \<or> ar_binding row \<noteq> expected
            then approval_error ''approval is missing, changed, cancelled, or already consumed''
          else if jget binding ''policy_digest'' \<noteq> JStr (ag_policy_digest g)
            then approval_error ''approval policy changed''
          else
            let base = \<lparr>ck_request_id = pr_request_id proof, ck_credential_id = pr_credential_id proof,
                        ck_expected = expected, ck_hardware = None\<rparr> in
            (case key of
               SshKey k \<Rightarrow> (case ag_ssh g (ar_message row) (pr_signature proof) k of Inl e \<Rightarrow> Inl e | Inr _ \<Rightarrow> Inr base)
             | Hardware hc \<Rightarrow>
                 (case decode_assertion (pr_signature proof) of
                    Inl e \<Rightarrow> Inl e
                  | Inr a \<Rightarrow>
                      (case request_for L (ag_loads g) (ar_message row) (pr_credential_id proof) of
                         Inl e \<Rightarrow> Inl e
                       | Inr r \<Rightarrow> Inr (base\<lparr>ck_hardware := Some (hc, a, r)\<rparr>))))))"

definition counter_identity :: "pylib \<Rightarrow> hw_credential \<Rightarrow> string res" where
  "counter_identity L hc = map_sum id (sha256_hex L) (fromhex (hc_public_key hc))"

text \<open>The device part of the transaction: verification against the stored counter, the counter update, the decision.\<close>

definition commit_hardware ::
  "pylib \<Rightarrow> 'w approval_env \<Rightarrow> int \<Rightarrow> hw_credential \<times> assertion \<times> hw_request \<Rightarrow> approval_db \<Rightarrow> (bool \<times> approval_db) res" where
  "commit_hardware L g now hw db =
     (case hw of (hc, a, r) \<Rightarrow>
      (case counter_identity L hc of
         Inl e \<Rightarrow> Inl e
       | Inr identity \<Rightarrow>
      (case those_res [fromhex (hc_public_key hc), fromhex (hc_device_id hc)] of
         Inl e \<Rightarrow> Inl e
       | Inr ks \<Rightarrow>
      (case verify_assertion L (ag_ec g) a r (ks ! 0) (ks ! 1) (hc_enabled hc) (counter_of db identity) now of
         Inl e \<Rightarrow> Inl e
       | Inr _ \<Rightarrow> Inr (as_decision a = HW_DENY, db\<lparr>db_counters := dict_set identity (as_counter a) (db_counters db)\<rparr>)))))"

definition consume_tx ::
  "pylib \<Rightarrow> 'w approval_env \<Rightarrow> int \<Rightarrow> checked \<Rightarrow> approval_db \<Rightarrow> (bool \<times> approval_db) res" where
  "consume_tx L g now ck db =
     (case db_now now db of
        Inl e \<Rightarrow> Inl e
      | Inr db1 \<Rightarrow>
     (case dict_get (db_rows db1) (ck_request_id ck) of
        None \<Rightarrow> approval_error ''approval has already been consumed or cancelled''
      | Some row \<Rightarrow>
          if ar_state row \<noteq> ''pending'' \<or> ar_binding row \<noteq> ck_expected ck
            then approval_error ''approval has already been consumed or cancelled''
          else if now \<ge> ar_expires row \<or> now < ar_issued row
            then approval_error ''approval has expired or clock is invalid''
          else (case (case ck_hardware ck of None \<Rightarrow> Inr (False, db1) | Some hw \<Rightarrow> commit_hardware L g now hw db1) of
                  Inl e \<Rightarrow> Inl e
                | Inr (denied, db2) \<Rightarrow>
                    Inr (denied, db2\<lparr>db_rows := dict_set (ck_request_id ck)
                      (row\<lparr>ar_state := (if denied then ''denied'' else ''consumed''), ar_credential := Some (ck_credential_id ck),
                           ar_outcome := Some (if denied then ''human-denied'' else ''uncertain'')\<rparr>) (db_rows db2)\<rparr>))))"

definition commit_detail :: "bool \<Rightarrow> checked \<Rightarrow> jobj" where
  "commit_detail denied ck =
     [(''request_id'', JStr (ck_request_id ck)), (''binding_digest'', JStr (ck_expected ck)), (''credential_id'', JStr (ck_credential_id ck))]
     @ (case ck_hardware ck of
          None \<Rightarrow> []
        | Some (hc, a, r) \<Rightarrow>
            [(''provider'', JStr (hc_type hc)), (''counter'', JInt (as_counter a)),
             (''decision'', JStr (if denied then ''DENY'' else ''APPROVE'')), (''device_id'', JStr (hc_device_id hc))])"

definition consume_commit ::
  "pylib \<Rightarrow> 'w approval_env \<Rightarrow> int \<Rightarrow> checked \<Rightarrow> approval_db \<times> 'w \<Rightarrow> string res \<times> approval_db \<times> 'w" where
  "consume_commit L g now ck s =
     (case s of (db, w) \<Rightarrow>
      (case consume_tx L g now ck db of
         Inl e \<Rightarrow> (Inl e, db, w)
       | Inr (denied, db') \<Rightarrow>
           (case ag_audit g (if denied then ''approval.human_denied'' else ''approval.consumed'') (commit_detail denied ck) w of
              (Inl e, w') \<Rightarrow> (Inl e, db', w')
            | (Inr _, w') \<Rightarrow>
                if denied then (approval_error ''physical human denial'', db', w')
                else (Inr (ck_request_id ck), db', w'))))"

definition consume ::
  "pylib \<Rightarrow> 'w approval_env \<Rightarrow> int \<Rightarrow> string \<Rightarrow> jobj \<Rightarrow> approval_proof option \<Rightarrow> approval_db \<times> 'w
     \<Rightarrow> string res \<times> approval_db \<times> 'w" where
  "consume L g now rid binding proof s =
     (case proof of
        None \<Rightarrow>
          (case request_approval L g now rid binding s of
             (Inl e, s') \<Rightarrow> (Inl e, s')
           | (Inr request, s') \<Rightarrow> (raise ApprovalRequired (''credentialed approval required: '' @ rid), s'))
      | Some pr \<Rightarrow>
          (case consume_check L g binding pr (fst s) of
             Inl e \<Rightarrow> (Inl e, s)
           | Inr ck \<Rightarrow> consume_commit L g now ck s))"

definition hardware_request ::
  "pylib \<Rightarrow> 'w approval_env \<Rightarrow> int \<Rightarrow> string \<Rightarrow> string \<Rightarrow> approval_db \<Rightarrow> string res \<times> approval_db" where
  "hardware_request L g now rid cid db =
     (case dict_get (ac_credentials (ag_config g)) cid of
        Some (Hardware hc) \<Rightarrow>
          if \<not> hc_enabled hc then (approval_error ''custom hardware credential is not enrolled and enabled'', db)
          else (case db_now now db of
                  Inl e \<Rightarrow> (Inl e, db)
                | Inr db1 \<Rightarrow>
                    (case dict_get (db_rows db1) rid of
                       None \<Rightarrow> (approval_error ''hardware request is not pending or has expired'', db)
                     | Some row \<Rightarrow>
                         if ar_state row \<noteq> ''pending'' \<or> \<not> (ar_issued row \<le> now \<and> now < ar_expires row)
                           then (approval_error ''hardware request is not pending or has expired'', db)
                         else (case (case ag_loads g (ar_message row) of
                                       Inl e \<Rightarrow> Inl e
                                     | Inr v \<Rightarrow> (case jindex v ''action'' of Inl e \<Rightarrow> Inl e | Inr a \<Rightarrow> jindex a ''policy_digest'')) of
                                 Inl e \<Rightarrow> (Inl e, db)
                               | Inr pd \<Rightarrow>
                                   if pd \<noteq> JStr (ag_policy_digest g) then (approval_error ''hardware request policy changed'', db)
                                   else (case (case request_for L (ag_loads g) (ar_message row) cid of
                                                 Inl e \<Rightarrow> Inl e | Inr r \<Rightarrow> encode_request r) of
                                           Inl e \<Rightarrow> (Inl e, db)
                                         | Inr packet \<Rightarrow> (Inr packet, db1)))))
      | _ \<Rightarrow> (approval_error ''custom hardware credential is not enrolled and enabled'', db))"

definition finish_approval ::
  "'w approval_env \<Rightarrow> string \<Rightarrow> string \<Rightarrow> approval_db \<times> 'w \<Rightarrow> unit res \<times> approval_db \<times> 'w" where
  "finish_approval g rid outcome s =
     (case s of (db, w) \<Rightarrow>
      if outcome \<notin> set [''completed'', ''uncertain''] then (approval_error ''invalid approval outcome'', db, w)
      else (case ag_audit g ''approval.outcome'' [(''request_id'', JStr rid), (''outcome'', JStr outcome)] w of
              (Inl e, w') \<Rightarrow> (Inl e, db, w')
            | (Inr _, w') \<Rightarrow>
                (case dict_get (db_rows db) rid of
                   None \<Rightarrow> (Inr (), db, w')
                 | Some row \<Rightarrow>
                     if ar_state row = ''consumed''
                     then (Inr (), db\<lparr>db_rows := dict_set rid (row\<lparr>ar_outcome := Some outcome\<rparr>) (db_rows db)\<rparr>, w')
                     else (Inr (), db, w'))))"

definition cancel_approval ::
  "'w approval_env \<Rightarrow> string \<Rightarrow> approval_db \<times> 'w \<Rightarrow> unit res \<times> approval_db \<times> 'w" where
  "cancel_approval g rid s =
     (case s of (db, w) \<Rightarrow>
      (case ag_audit g ''approval.cancelled'' [(''request_id'', JStr rid)] w of
         (Inl e, w') \<Rightarrow> (Inl e, db, w')
       | (Inr _, w') \<Rightarrow>
           (case dict_get (db_rows db) rid of
              None \<Rightarrow> (Inr (), db, w')
            | Some row \<Rightarrow>
                if ar_state row = ''pending''
                then (Inr (), db\<lparr>db_rows := dict_set rid (row\<lparr>ar_state := ''cancelled''\<rparr>) (db_rows db)\<rparr>, w')
                else (Inr (), db, w'))))"

definition inspect_approval ::
  "'w approval_env \<Rightarrow> string \<Rightarrow> approval_db \<Rightarrow> (json \<times> string \<times> string option \<times> string option) res" where
  "inspect_approval g rid db =
     (case dict_get (db_rows db) rid of
        None \<Rightarrow> approval_error ''unknown approval request''
      | Some row \<Rightarrow> map_sum id (\<lambda>v. (v, ar_state row, ar_credential row, ar_outcome row)) (ag_loads g (ar_message row)))"

section \<open>Runs of the gate\<close>

datatype approval_op =
    ARequest int string jobj
  | ACommit int checked
  | AHardware int string string
  | AFinish string string
  | ACancel string

datatype approval_reply = Consumed string | Done

fun approval_step ::
  "pylib \<Rightarrow> 'w approval_env \<Rightarrow> approval_op \<Rightarrow> approval_db \<times> 'w \<Rightarrow> approval_reply res \<times> approval_db \<times> 'w" where
  "approval_step L g (ARequest now rid b) s = apfst (map_sum id (\<lambda>_. Done)) (request_approval L g now rid b s)"
| "approval_step L g (ACommit now ck) s = apfst (map_sum id Consumed) (consume_commit L g now ck s)"
| "approval_step L g (AHardware now rid cid) s =
     (case hardware_request L g now rid cid (fst s) of (r, db) \<Rightarrow> (map_sum id (\<lambda>_. Done) r, db, snd s))"
| "approval_step L g (AFinish rid oc) s = apfst (map_sum id (\<lambda>_. Done)) (finish_approval g rid oc s)"
| "approval_step L g (ACancel rid) s = apfst (map_sum id (\<lambda>_. Done)) (cancel_approval g rid s)"

fun fresh_request :: "approval_op \<Rightarrow> approval_db \<times> 'w \<Rightarrow> bool" where
  "fresh_request (ARequest now rid b) s = (dict_get (db_rows (fst s)) rid = None)"
| "fresh_request _ s = True"

text \<open>A request that was decided keeps its decision; terms never change; clock and counters only advance.\<close>

definition row_kept :: "approval_row \<Rightarrow> approval_row \<Rightarrow> bool" where
  "row_kept r r' \<longleftrightarrow>
     ar_binding r' = ar_binding r \<and> ar_message r' = ar_message r \<and> ar_issued r' = ar_issued r \<and> ar_expires r' = ar_expires r
     \<and> (ar_state r \<noteq> ''pending'' \<longrightarrow> ar_state r' = ar_state r \<and> ar_credential r' = ar_credential r)"

definition db_advances :: "approval_db \<Rightarrow> approval_db \<Rightarrow> bool" where
  "db_advances db db' \<longleftrightarrow>
     (\<forall>rid r. dict_get (db_rows db) rid = Some r \<longrightarrow> (\<exists>r'. dict_get (db_rows db') rid = Some r' \<and> row_kept r r'))
     \<and> db_clock db \<le> db_clock db' \<and> (\<forall>k. counter_of db k \<le> counter_of db' k)"

lemma row_kept_refl [simp]: "row_kept r r"
  by (simp add: row_kept_def)

lemma row_kept_trans: "row_kept r r' \<Longrightarrow> row_kept r' r'' \<Longrightarrow> row_kept r r''"
  by (auto simp: row_kept_def)

lemma db_advances_refl [simp]: "db_advances db db"
  by (simp add: db_advances_def)

lemma db_advances_trans: "db_advances db db' \<Longrightarrow> db_advances db' db'' \<Longrightarrow> db_advances db db''"
  unfolding db_advances_def by (meson order_trans row_kept_trans)

lemma db_now_Inr: "db_now now db = Inr db' \<longleftrightarrow> db_clock db \<le> now \<and> db' = db\<lparr>db_clock := now\<rparr>"
  by (auto simp: db_now_def)

lemma counter_of_clock [simp]: "counter_of (db\<lparr>db_clock := n\<rparr>) = counter_of db" "counter_of (db\<lparr>db_rows := rs\<rparr>) = counter_of db"
  by (simp_all add: counter_of_def fun_eq_iff)

lemma counter_of_set [simp]:
  "counter_of (db\<lparr>db_counters := dict_set k c (db_counters db)\<rparr>) k' = (if k' = k then c else counter_of db k')"
  "counter_of (db\<lparr>db_clock := n, db_counters := dict_set k c (db_counters db)\<rparr>) k' = (if k' = k then c else counter_of db k')"
  by (simp_all add: counter_of_def)

lemma db_advances_row:
  assumes "db_clock db \<le> db_clock db'" and "\<And>k. counter_of db k \<le> counter_of db' k"
    and "db_rows db' = dict_set rid r' (db_rows db)" and "\<And>r. dict_get (db_rows db) rid = Some r \<Longrightarrow> row_kept r r'"
  shows "db_advances db db'"
  using assms by (auto simp: db_advances_def)

lemma commit_hardware_Inr:
  assumes "commit_hardware L g now (hc, a, r) db = Inr (denied, db')"
  shows "\<exists>identity pk dev. counter_identity L hc = Inr identity \<and> fromhex (hc_public_key hc) = Inr pk \<and> fromhex (hc_device_id hc) = Inr dev
    \<and> verify_assertion L (ag_ec g) a r pk dev (hc_enabled hc) (counter_of db identity) now = Inr ()
    \<and> denied = (as_decision a = HW_DENY) \<and> db' = db\<lparr>db_counters := dict_set identity (as_counter a) (db_counters db)\<rparr>"
  using assms unfolding commit_hardware_def by (auto split: sum.split_asm)

lemma consume_tx_Inr:
  assumes "consume_tx L g now ck db = Inr (denied, db')"
  shows "\<exists>row db2. dict_get (db_rows db) (ck_request_id ck) = Some row \<and> ar_state row = ''pending''
    \<and> ar_binding row = ck_expected ck \<and> ar_issued row \<le> now \<and> now < ar_expires row \<and> db_clock db \<le> now
    \<and> (case ck_hardware ck of None \<Rightarrow> \<not> denied \<and> db2 = db\<lparr>db_clock := now\<rparr>
       | Some hw \<Rightarrow> commit_hardware L g now hw (db\<lparr>db_clock := now\<rparr>) = Inr (denied, db2))
    \<and> db' = db2\<lparr>db_rows := dict_set (ck_request_id ck)
         (row\<lparr>ar_state := (if denied then ''denied'' else ''consumed''), ar_credential := Some (ck_credential_id ck),
              ar_outcome := Some (if denied then ''human-denied'' else ''uncertain'')\<rparr>) (db_rows db2)\<rparr>"
  using assms unfolding consume_tx_def
  by (auto simp: db_now_Inr split: sum.split_asm option.split_asm if_split_asm prod.split_asm)

lemma consume_tx_advances:
  assumes "consume_tx L g now ck db = Inr (denied, db')"
  shows "db_advances db db'"
proof -
  from consume_tx_Inr [OF assms] obtain row db2 where
    row: "dict_get (db_rows db) (ck_request_id ck) = Some row" "ar_state row = ''pending''" "db_clock db \<le> now"
    and hw: "case ck_hardware ck of None \<Rightarrow> \<not> denied \<and> db2 = db\<lparr>db_clock := now\<rparr>
       | Some hw \<Rightarrow> commit_hardware L g now hw (db\<lparr>db_clock := now\<rparr>) = Inr (denied, db2)"
    and db': "db' = db2\<lparr>db_rows := dict_set (ck_request_id ck)
         (row\<lparr>ar_state := (if denied then ''denied'' else ''consumed''), ar_credential := Some (ck_credential_id ck),
              ar_outcome := Some (if denied then ''human-denied'' else ''uncertain'')\<rparr>) (db_rows db2)\<rparr>" by blast
  have db2: "db_rows db2 = db_rows db \<and> db_clock db2 = now \<and> (\<forall>k. counter_of db k \<le> counter_of db2 k)"
  proof (cases "ck_hardware ck")
    case None
    then show ?thesis using hw by simp
  next
    case (Some h)
    obtain hc a r where h: "h = (hc, a, r)" by (cases h)
    from hw Some h have "commit_hardware L g now (hc, a, r) (db\<lparr>db_clock := now\<rparr>) = Inr (denied, db2)" by simp
    from commit_hardware_Inr [OF this] show ?thesis by (auto simp: verify_assertion_Inr)
  qed
  show ?thesis
  proof (rule db_advances_row)
    show "db_rows db' = dict_set (ck_request_id ck) (row\<lparr>ar_state := (if denied then ''denied'' else ''consumed''),
        ar_credential := Some (ck_credential_id ck), ar_outcome := Some (if denied then ''human-denied'' else ''uncertain'')\<rparr>) (db_rows db)"
      using db2 by (simp add: db')
  qed (use row db2 db' in \<open>auto simp: row_kept_def\<close>)
qed

lemma consume_commit_advances: "db_advances (fst s) (fst (snd (consume_commit L g now ck s)))"
  by (cases s) (auto simp: consume_commit_def dest: consume_tx_advances split: sum.split prod.split)

lemma request_approval_advances:
  assumes "dict_get (db_rows (fst s)) rid = None"
  shows "db_advances (fst s) (fst (snd (request_approval L g now rid b s)))"
  using assms by (cases s)
    (auto simp: request_approval_def Let_def db_now_Inr intro!: db_advances_row split: sum.split prod.split)

lemma hardware_request_db:
  "snd (hardware_request L g now rid cid db) = db
   \<or> db_clock db \<le> now \<and> snd (hardware_request L g now rid cid db) = db\<lparr>db_clock := now\<rparr>"
  unfolding hardware_request_def db_now_def by (simp split: option.split credential.split sum.split)

lemma hardware_request_advances: "db_advances db (snd (hardware_request L g now rid cid db))"
proof -
  have "db_clock db \<le> now \<Longrightarrow> db_advances db (db\<lparr>db_clock := now\<rparr>)" by (simp add: db_advances_def)
  then show ?thesis using hardware_request_db [of L g now rid cid db] by (elim disjE conjE) simp_all
qed

lemma finish_cancel_advances:
  "db_advances (fst s) (fst (snd (finish_approval g rid oc s)))"
  "db_advances (fst s) (fst (snd (cancel_approval g rid s)))"
  by (cases s; auto simp: finish_approval_def cancel_approval_def row_kept_def intro!: db_advances_row
      split: sum.split prod.split option.split)+

lemma approval_step_advances:
  assumes "fresh_request x s"
  shows "db_advances (fst s) (fst (snd (approval_step L g x s)))"
proof (cases x)
  case (AHardware now rid cid)
  then show ?thesis using hardware_request_advances [of "fst s" L g now rid cid] by (auto split: prod.split)
qed (use assms in \<open>auto simp: consume_commit_advances request_approval_advances finish_cancel_advances\<close>)

interpretation gate: guarded_object "approval_step L g" fresh_request "\<lambda>s. True" "\<lambda>s t. db_advances (fst s) (fst t)" for L g
  by unfold_locales (auto intro: approval_step_advances db_advances_trans)

text \<open>A request identifier that has been decided: consumed, denied or cancelled.\<close>

definition decided :: "string \<Rightarrow> approval_db \<times> 'w \<Rightarrow> bool" where
  "decided rid s \<longleftrightarrow> (\<exists>r. dict_get (db_rows (fst s)) rid = Some r \<and> ar_state r \<noteq> ''pending'')"

lemma decided_stays:
  assumes "fresh_request x s" and "decided rid s"
  shows "decided rid (snd (approval_step L g x s))"
proof -
  from assms(2) obtain r where r: "dict_get (db_rows (fst s)) rid = Some r" "ar_state r \<noteq> ''pending''"
    unfolding decided_def by blast
  with approval_step_advances [OF assms(1), of L g] obtain r' where
    "dict_get (db_rows (fst (snd (approval_step L g x s)))) rid = Some r'" "row_kept r r'"
    unfolding db_advances_def by blast
  then show ?thesis using r by (auto simp: decided_def row_kept_def)
qed

lemma consumed_decides:
  assumes "approval_step L g x s = (Inr (Consumed rid), s')"
  shows "\<not> decided rid s \<and> decided rid s'"
proof -
  from assms obtain now ck where x: "x = ACommit now ck" by (cases x) (auto simp: apfst_def map_prod_def map_sum_def split: prod.split_asm sum.split_asm)
  obtain db w where s: "s = (db, w)" by (cases s)
  from assms x s obtain db' where tx: "consume_tx L g now ck db = Inr (False, db')" and rid: "ck_request_id ck = rid" and s': "fst s' = db'"
    by (auto simp: consume_commit_def split: sum.split_asm prod.split_asm if_split_asm)
  from consume_tx_Inr [OF tx] rid s s' show ?thesis by (auto simp: decided_def)
qed

text \<open>
  C9. Approvals are used once. Over any interleaving of requests, transactions of concurrent
  consumptions with whatever checked proofs, device exports, outcomes and cancellations, in which
  request identifiers are fresh, a request identifier is consumed successfully at most once, and never
  after it has been consumed, denied or cancelled. Meanwhile stored requests keep their binding,
  message and lifetime, a decision once taken stands with its credential, and neither the clock's
  high-water mark nor any device counter goes back.
\<close>

theorem approval_single_use:
  assumes "run_ok fresh_request (approval_step L g) xs s"
  shows "length (filter (\<lambda>r. r = Inr (Consumed rid)) (fst (run_ops (approval_step L g) xs s))) \<le> (if decided rid s then 0 else 1)
    \<and> db_advances (fst s) (fst (snd (run_ops (approval_step L g) xs s)))"
proof
  show "length (filter (\<lambda>r. r = Inr (Consumed rid)) (fst (run_ops (approval_step L g) xs s))) \<le> (if decided rid s then 0 else 1)"
    by (rule run_ops_count [OF assms]) (metis decided_stays snd_conv, metis consumed_decides)
  show "db_advances (fst s) (fst (snd (run_ops (approval_step L g) xs s)))"
    by (rule gate.run_below [OF TrueI assms])
qed

definition demo_gate :: "unit approval_env" where
  "demo_gate = \<lparr>ag_config = \<lparr>ac_credentials = [(''alice'', SshKey ''sk-ssh'')], ac_routine_urls = [], ac_ttl = 60\<rparr>,
     ag_policy_digest = ''pd'', ag_audit = (\<lambda>e d w. (Inr (), w)), ag_loads = (\<lambda>m. Inr JNull),
     ag_ssh = (\<lambda>m sg k. if sg = ''good'' then Inr () else approval_error ''approval signature verification failed''),
     ag_ec = \<lparr>ec_point = (\<lambda>k. False), ec_verify = (\<lambda>k sg m. False)\<rparr>\<rparr>"

definition demo_binding :: jobj where
  "demo_binding = [(''operation'', JStr ''delete''), (''policy_digest'', JStr ''pd'')]"

definition demo_proof :: approval_proof where
  "demo_proof = \<lparr>pr_request_id = ''r1'', pr_credential_id = ''alice'', pr_signature = ''good''\<rparr>"

definition demo_checked :: checked where
  "demo_checked = \<lparr>ck_request_id = ''r1'', ck_credential_id = ''alice'',
     ck_expected = digest plain_lib (canonical_bytes plain_lib (JObj demo_binding)), ck_hardware = None\<rparr>"

definition demo_gate_ops :: "approval_op list" where
  "demo_gate_ops = [ARequest 5 ''r1'' demo_binding, ACommit 6 demo_checked, ACommit 6 demo_checked, AFinish ''r1'' ''completed'']"

theorem approval_single_use_witness:
  "length (filter (\<lambda>r. r = Inr (Consumed ''r1'')) (fst (run_ops (approval_step plain_lib demo_gate) demo_gate_ops (empty_db, ())))) = 1
   \<and> db_advances empty_db (fst (snd (run_ops (approval_step plain_lib demo_gate) demo_gate_ops (empty_db, ()))))"
proof
  have ok: "run_ok fresh_request (approval_step plain_lib demo_gate) demo_gate_ops (empty_db, ())" by code_simp
  show "length (filter (\<lambda>r. r = Inr (Consumed ''r1'')) (fst (run_ops (approval_step plain_lib demo_gate) demo_gate_ops (empty_db, ())))) = 1"
    by code_simp
  show "db_advances empty_db (fst (snd (run_ops (approval_step plain_lib demo_gate) demo_gate_ops (empty_db, ()))))"
    using approval_single_use [OF ok, of "''r1''"] by simp
qed

lemma consume_check_Inr:
  assumes "consume_check L g binding pr db = Inr ck"
  shows "\<exists>key row. dict_get (ac_credentials (ag_config g)) (pr_credential_id pr) = Some key
    \<and> dict_get (db_rows db) (pr_request_id pr) = Some row
    \<and> jget binding ''policy_digest'' = JStr (ag_policy_digest g)
    \<and> ck_request_id ck = pr_request_id pr \<and> ck_credential_id ck = pr_credential_id pr
    \<and> ck_expected ck = digest L (canonical_bytes L (JObj binding))
    \<and> (case key of
         SshKey k \<Rightarrow> ck_hardware ck = None \<and> ag_ssh g (ar_message row) (pr_signature pr) k = Inr ()
       | Hardware hc \<Rightarrow> \<exists>a r. ck_hardware ck = Some (hc, a, r) \<and> decode_assertion (pr_signature pr) = Inr a
           \<and> request_for L (ag_loads g) (ar_message row) (pr_credential_id pr) = Inr r)"
  using assms unfolding consume_check_def Let_def
  by (auto split: option.split_asm credential.split_asm sum.split_asm if_split_asm)

lemma consume_Inr:
  assumes "consume L g now rid binding proof (db, w) = (Inr x, db', w')"
  shows "\<exists>pr ck. proof = Some pr \<and> consume_check L g binding pr db = Inr ck \<and> consume_tx L g now ck db = Inr (False, db')
    \<and> x = ck_request_id ck"
  using assms unfolding consume_def consume_commit_def
  by (auto split: option.split_asm sum.split_asm prod.split_asm if_split_asm)

text \<open>
  C33. A consumption succeeds only on an authentic, current approval of exactly this action: the caller
  presented a proof under an enrolled credential for a request that is pending, was issued for the
  same binding and policy and has not expired on a clock that has not gone back; an OpenSSH key's
  signature was verified on the stored message; a device's packet decoded to an approving assertion
  that the verifier accepted for the request derived from the stored message, with a counter above the
  stored one, which is then raised. Afterwards the request is decided.
\<close>

theorem consumed_approval_is_authentic:
  assumes "consume L g now rid binding proof (db, w) = (Inr x, db', w')"
  shows "\<exists>pr key row. proof = Some pr \<and> x = pr_request_id pr
    \<and> dict_get (ac_credentials (ag_config g)) (pr_credential_id pr) = Some key
    \<and> dict_get (db_rows db) x = Some row \<and> ar_state row = ''pending''
    \<and> ar_binding row = digest L (canonical_bytes L (JObj binding))
    \<and> jget binding ''policy_digest'' = JStr (ag_policy_digest g)
    \<and> ar_issued row \<le> now \<and> now < ar_expires row \<and> db_clock db \<le> now
    \<and> (case key of
         SshKey k \<Rightarrow> ag_ssh g (ar_message row) (pr_signature pr) k = Inr ()
       | Hardware hc \<Rightarrow> \<exists>a r identity pk dev. decode_assertion (pr_signature pr) = Inr a \<and> as_decision a = HW_APPROVE
           \<and> request_for L (ag_loads g) (ar_message row) (pr_credential_id pr) = Inr r
           \<and> counter_identity L hc = Inr identity \<and> fromhex (hc_public_key hc) = Inr pk \<and> fromhex (hc_device_id hc) = Inr dev
           \<and> verify_assertion L (ag_ec g) a r pk dev (hc_enabled hc) (counter_of db identity) now = Inr ()
           \<and> counter_of db identity < as_counter a \<and> counter_of db' identity = as_counter a)
    \<and> decided x (db', w')"
proof -
  from consume_Inr [OF assms] obtain pr ck where
    pr: "proof = Some pr" and ck: "consume_check L g binding pr db = Inr ck" and tx: "consume_tx L g now ck db = Inr (False, db')"
    and x: "x = ck_request_id ck" by blast
  from consume_check_Inr [OF ck] obtain key row where
    key: "dict_get (ac_credentials (ag_config g)) (pr_credential_id pr) = Some key"
    and row: "dict_get (db_rows db) (pr_request_id pr) = Some row"
    and c: "jget binding ''policy_digest'' = JStr (ag_policy_digest g)" "ck_request_id ck = pr_request_id pr"
      "ck_expected ck = digest L (canonical_bytes L (JObj binding))"
    and kc: "case key of
         SshKey k \<Rightarrow> ck_hardware ck = None \<and> ag_ssh g (ar_message row) (pr_signature pr) k = Inr ()
       | Hardware hc \<Rightarrow> \<exists>a r. ck_hardware ck = Some (hc, a, r) \<and> decode_assertion (pr_signature pr) = Inr a
           \<and> request_for L (ag_loads g) (ar_message row) (pr_credential_id pr) = Inr r" by blast
  from consume_tx_Inr [OF tx, simplified] obtain row' db2 where
    row': "dict_get (db_rows db) (ck_request_id ck) = Some row'"
    and r': "ar_state row' = ''pending''" "ar_binding row' = ck_expected ck" "ar_issued row' \<le> now" "now < ar_expires row'" "db_clock db \<le> now"
    and hw: "case ck_hardware ck of None \<Rightarrow> \<not> False \<and> db2 = db\<lparr>db_clock := now\<rparr>
       | Some h \<Rightarrow> commit_hardware L g now h (db\<lparr>db_clock := now\<rparr>) = Inr (False, db2)"
    and db': "db' = db2\<lparr>db_rows := dict_set (ck_request_id ck) (row'\<lparr>ar_state := ''consumed'',
        ar_credential := Some (ck_credential_id ck), ar_outcome := Some ''uncertain''\<rparr>) (db_rows db2)\<rparr>"
    by blast
  have [simp]: "row' = row" using row row' c(2) by simp
  note r = r' [simplified]
  have "case key of
         SshKey k \<Rightarrow> ag_ssh g (ar_message row) (pr_signature pr) k = Inr ()
       | Hardware hc \<Rightarrow> \<exists>a r identity pk dev. decode_assertion (pr_signature pr) = Inr a \<and> as_decision a = HW_APPROVE
           \<and> request_for L (ag_loads g) (ar_message row) (pr_credential_id pr) = Inr r
           \<and> counter_identity L hc = Inr identity \<and> fromhex (hc_public_key hc) = Inr pk \<and> fromhex (hc_device_id hc) = Inr dev
           \<and> verify_assertion L (ag_ec g) a r pk dev (hc_enabled hc) (counter_of db identity) now = Inr ()
           \<and> counter_of db identity < as_counter a \<and> counter_of db' identity = as_counter a"
  proof (cases key)
    case (SshKey k)
    then show ?thesis using kc by simp
  next
    case (Hardware hc)
    with kc obtain a q where a: "ck_hardware ck = Some (hc, a, q)" "decode_assertion (pr_signature pr) = Inr a"
      "request_for L (ag_loads g) (ar_message row) (pr_credential_id pr) = Inr q" by auto
    from hw a(1) have "commit_hardware L g now (hc, a, q) (db\<lparr>db_clock := now\<rparr>) = Inr (False, db2)" by simp
    from commit_hardware_Inr [OF this] obtain identity pk dev where
      v: "counter_identity L hc = Inr identity" "fromhex (hc_public_key hc) = Inr pk" "fromhex (hc_device_id hc) = Inr dev"
        "verify_assertion L (ag_ec g) a q pk dev (hc_enabled hc) (counter_of db identity) now = Inr ()" "as_decision a \<noteq> HW_DENY"
        "db2 = db\<lparr>db_clock := now, db_counters := dict_set identity (as_counter a) (db_counters db)\<rparr>" by auto
    moreover have "as_decision a = HW_APPROVE" using v(5) by (cases "as_decision a") simp_all
    moreover have "counter_of db identity < as_counter a" using v(4) by (simp add: verify_assertion_Inr)
    moreover have "counter_of db' identity = as_counter a" by (simp add: db' v(6))
    ultimately show ?thesis using Hardware a by auto
  qed
  moreover have "decided x (db', w')" by (simp add: decided_def db' x)
  ultimately show ?thesis using pr key row c r x by auto
qed

definition demo_pending :: approval_db where
  "demo_pending = fst (snd (request_approval plain_lib demo_gate 5 ''r1'' demo_binding (empty_db, ())))"

theorem consumed_approval_is_authentic_witness:
  "\<exists>db'. consume plain_lib demo_gate 6 ''r2'' demo_binding (Some demo_proof) (demo_pending, ()) = (Inr ''r1'', db', ())
     \<and> decided ''r1'' (db', ())"
proof -
  have "fst (consume plain_lib demo_gate 6 ''r2'' demo_binding (Some demo_proof) (demo_pending, ())) = Inr ''r1''" by code_simp
  then obtain db' where c: "consume plain_lib demo_gate 6 ''r2'' demo_binding (Some demo_proof) (demo_pending, ()) = (Inr ''r1'', db', ())"
    by (metis prod.collapse unit.exhaust)
  from consumed_approval_is_authentic [OF c] c show ?thesis by blast
qed

end
