(* ===== verification/Dispatcher.thy ===== *)
theory Dispatcher
  imports Runtime Secret_Broker Approval
begin

text \<open>
  The dispatchers, \<^verbatim>\<open>src/bulldog/dispatcher.py\<close> and \<^verbatim>\<open>src/bulldog/profiles.py\<close>: the only callers of
  the runtime and of the brokers. They bring the components together: a proposal is canonicalised under
  the authority of its security domain, bound to a host-authorised command, recorded, executed by the
  runtime (in production under a freshly minted permit) and a violation freezes the lineage; a brokered
  secret or network access is evaluated by the engine and, in production, consumes a human approval.

  The development dispatcher and the production dispatcher share their methods; the flag
  \<open>dc_production\<close> selects the overridden ones. Runtime engine and domain registry share one audit
  ledger, as the constructor enforces: the registry works on the engine's ledger files. The
  verification of the installed package and of the signed policy (\<open>verify_trusted_state\<close>,
  \<open>load_policy_bundle\<close>) and the network fetch are arguments that read the host.
\<close>

section \<open>State and configuration\<close>

record dispatch_request =
  dq_proposal :: "string dict"
  dq_trusted :: trusted_context
  dq_granted :: "capability set"
  dq_parent :: "capability set option"
  dq_domain_id :: "string option"
  dq_authorized :: "string list option"

record egress_response =
  eg_status :: int
  eg_headers :: "string dict"
  eg_body :: string

record 'h dispatcher_config =
  dc_runtime :: "'h runtime_config"
  dc_production :: bool
  dc_freeze :: bool
  dc_trusted_state :: "'h \<Rightarrow> unit res"
  dc_permit_key :: string
  dc_session_id :: string
  dc_anchor_ready :: bool
  dc_approval_config :: "'h \<Rightarrow> (approval_config \<times> string) res"
  dc_policy_digest :: "'h \<Rightarrow> string res"
  dc_egress :: "(string \<Rightarrow> string \<Rightarrow> 'h \<Rightarrow> egress_response res \<times> 'h) option"

record ('w, 'h) dispatcher =
  di_runtime :: "('w, 'h) runtime_state"
  di_registry :: "'w domain_registry option"
  di_secret :: "secret_broker option"
  di_approvals :: approval_db

text \<open>What one call takes from outside: clock, time stamp, peer, random identifier, JSON reader, verifiers.\<close>

record 'w call_env =
  ce_io :: "'w ledger_io"
  ce_stamp :: string
  ce_now :: rat
  ce_seconds :: int
  ce_peer :: "int \<times> int \<times> int"
  ce_fresh_id :: string
  ce_loads :: "string \<Rightarrow> json res"
  ce_ssh :: "string \<Rightarrow> string \<Rightarrow> string \<Rightarrow> unit res"
  ce_ec :: ec_lib

abbreviation denied :: "string \<Rightarrow> 'a res" where
  "denied m \<equiv> raise DispatchDenied m"

text \<open>Sequencing: an exception ends the call in the state reached so far.\<close>

definition chain :: "'a res \<times> 's \<Rightarrow> ('a \<Rightarrow> 's \<Rightarrow> 'b res \<times> 's) \<Rightarrow> 'b res \<times> 's" where
  "chain m k = (case m of (Inl e, s) \<Rightarrow> (Inl e, s) | (Inr x, s) \<Rightarrow> k x s)"

text \<open>\<open>except SecurityDomainError as exc: raise DispatchDenied(str(exc))\<close>\<close>

fun as_denied :: "'a res \<Rightarrow> 'a res" where
  "as_denied (Inl (SecurityDomainError, m)) = denied m"
| "as_denied r = r"

abbreviation host_of :: "('w, 'h) dispatcher \<Rightarrow> 'h" where
  "host_of s \<equiv> rs_host (di_runtime s)"

abbreviation engine_of :: "('w, 'h) dispatcher \<Rightarrow> 'w engine_state" where
  "engine_of s \<equiv> rs_engine (di_runtime s)"

definition set_engine :: "'w engine_state \<Rightarrow> ('w, 'h) dispatcher \<Rightarrow> ('w, 'h) dispatcher" where
  "set_engine es s = s\<lparr>di_runtime := (di_runtime s)\<lparr>rs_engine := es\<rparr>\<rparr>"

definition set_ledger :: "ledger_files \<Rightarrow> 'w \<Rightarrow> ('w, 'h) dispatcher \<Rightarrow> ('w, 'h) dispatcher" where
  "set_ledger fs w s = set_engine ((engine_of s)\<lparr>es_files := fs, es_world := w\<rparr>) s"

text \<open>An operation of the registry on the shared ledger.\<close>

definition registry_op ::
  "('w domain_registry \<Rightarrow> 'a res \<times> 'w domain_registry) \<Rightarrow> 'w domain_registry \<Rightarrow> ('w, 'h) dispatcher \<Rightarrow> 'a res \<times> ('w, 'h) dispatcher" where
  "registry_op oper reg s =
     (case oper (reg\<lparr>dr_files := es_files (engine_of s), dr_world := es_world (engine_of s)\<rparr>) of
        (r, reg') \<Rightarrow> (r, (set_ledger (dr_files reg') (dr_world reg') s)\<lparr>di_registry := Some reg'\<rparr>))"

section \<open>Construction\<close>

definition production_failures :: "'h runtime_config \<Rightarrow> bool \<Rightarrow> bool \<Rightarrow> string \<Rightarrow> bool \<Rightarrow> string list" where
  "production_failures rc boundary anchor_ready seccomp_profile require_attestation =
     (if boundary then [] else [''runtime is not an explicit ProductionRuntime boundary''])
     @ (if global_capability_ceiling (en_policy (rt_engine rc)) = None then [''runtime lacks signed deployment capability ceiling''] else [])
     @ (case en_ledger (rt_engine rc) of
          None \<Rightarrow> [''runtime audit ledger is unavailable'']
        | Some _ \<Rightarrow> if anchor_ready then [] else [''runtime authenticated production audit transport is unavailable''])
     @ (if rt_scan_required rc then [] else [''runtime malware scanning is not required''])
     @ (case rt_scanner rc of
          None \<Rightarrow> [''runtime malware scanner is unavailable'']
        | Some sc \<Rightarrow> if bounded_scan sc then [] else [''runtime malware scanner is not resource bounded''])
     @ (if rt_full_argv rc then [] else [''runtime full argv binding is disabled''])
     @ (if rt_snapshot_root rc = None then [''runtime snapshot scratch root is not pinned''] else [])
     @ (if seccomp_profile = ''strict'' then [] else [''actual runtime sandbox is not using strict seccomp''])
     @ (if require_attestation then [] else [''actual runtime sandbox attestation is disabled''])"

definition verify_actual_production_runtime ::
  "'h runtime_config \<Rightarrow> bool \<Rightarrow> bool \<Rightarrow> string \<Rightarrow> bool \<Rightarrow> unit res" where
  "verify_actual_production_runtime rc boundary anchor_ready seccomp_profile require_attestation =
     (let failures = production_failures rc boundary anchor_ready seccomp_profile require_attestation in
      if failures \<noteq> [] then denied (''production runtime wiring rejected: '' @ py_join ''; '' failures) else Inr ())"

section \<open>Commands\<close>

definition trusted_context_for ::
  "('w, 'h) dispatcher \<Rightarrow> dispatch_request \<Rightarrow> (trusted_context \<times> capability set option) res" where
  "trusted_context_for s rq =
     (case di_registry s of
        None \<Rightarrow> Inr (dq_trusted rq, dq_parent rq)
      | Some reg \<Rightarrow>
          (case dq_domain_id rq of
             None \<Rightarrow> denied ''domain-enabled dispatcher requires a security domain''
           | Some did \<Rightarrow>
               if did = [] then denied ''domain-enabled dispatcher requires a security domain''
               else as_denied
                 (case assert_capabilities reg did (dq_granted rq) of
                    Inl e \<Rightarrow> Inl e
                  | Inr _ \<Rightarrow>
                 (case trusted_context_of reg did of
                    Inl e \<Rightarrow> Inl e
                  | Inr t \<Rightarrow> map_sum id (Pair t) (domain_parent_capabilities reg did)))))"

definition dispatch_canonicalize :: "pylib \<Rightarrow> ('w, 'h) dispatcher \<Rightarrow> dispatch_request \<Rightarrow> action_request res" where
  "dispatch_canonicalize L s rq =
     (case trusted_context_for s rq of
        Inl e \<Rightarrow> Inl e
      | Inr (t, parent) \<Rightarrow> canonicalize_action L (dq_proposal rq) t (dq_granted rq) parent)"

definition bind_execution ::
  "pylib \<Rightarrow> bool \<Rightarrow> action_request \<Rightarrow> string list \<Rightarrow> dispatch_request \<Rightarrow> action_request res" where
  "bind_execution L production a command rq =
     (if capability a \<noteq> PROCESS_EXEC then denied ''command dispatch requires process.exec authority''
      else if command = [] then denied ''command cannot be empty''
      else case canonicalize_filesystem_resource L (hd command) of
        Inl (ActionCanonicalizationError, m) \<Rightarrow> denied (''invalid command executable: '' @ m)
      | Inl e \<Rightarrow> Inl e
      | Inr executable \<Rightarrow>
          if executable \<noteq> resource a
            then denied (''command executable does not match authorized resource: '' @ executable @ '' != '' @ resource a)
          else case dq_authorized rq of
            None \<Rightarrow> if production then denied ''production command dispatch requires host-authorized full argv'' else Inr a
          | Some authorized \<Rightarrow>
              if command \<noteq> authorized then denied ''command argv does not match host-authorized argv''
              else Inr (a\<lparr>metadata := dict_set ''actual_argv_hash'' (head_text (hash_command L (Some command)))
                     (dict_set ''authorized_argv_hash'' (head_text (hash_command L (Some authorized))) (metadata a))\<rparr>))"

text \<open>Execution permits of the production runtime.\<close>

record permit =
  pm_token :: string
  pm_argv_hash :: string
  pm_action_hash :: string

definition action_hash :: "pylib \<Rightarrow> action_request \<Rightarrow> string" where
  "action_hash L a =
     sha256_hex L (py_join [char_of (0::nat)]
       [actor a, operation a, resource a, capability_value (capability a),
        head_text (dict_get (metadata a) ''domain_id''), head_text (dict_get (metadata a) ''root_domain_id'')])"

definition permit_message :: "string \<Rightarrow> string \<Rightarrow> string" where
  "permit_message ah ch = ah @ '':'' @ ch"

definition mint_dispatch_permit :: "pylib \<Rightarrow> string \<Rightarrow> action_request \<Rightarrow> string list \<Rightarrow> permit" where
  "mint_dispatch_permit L key a command =
     (let ch = head_text (hash_command L (Some command)); ah = action_hash L a in
      \<lparr>pm_token = hmac_hex L key (permit_message ah ch), pm_argv_hash = ch, pm_action_hash = ah\<rparr>)"

definition valid_permit :: "pylib \<Rightarrow> string \<Rightarrow> action_request \<Rightarrow> string list \<Rightarrow> permit option \<Rightarrow> bool res" where
  "valid_permit L key a command pm =
     (case pm of
        None \<Rightarrow> Inr False
      | Some q \<Rightarrow>
          let ch = head_text (hash_command L (Some command)); ah = action_hash L a in
          if pm_argv_hash q \<noteq> ch \<or> pm_action_hash q \<noteq> ah then Inr False
          else compare_digest (hmac_hex L key (permit_message ah ch)) (pm_token q))"

definition production_execute ::
  "pylib \<Rightarrow> 'h dispatcher_config \<Rightarrow> 'w ledger_io \<Rightarrow> string \<Rightarrow> action_request \<Rightarrow> string list \<Rightarrow> string \<Rightarrow> rat option
     \<Rightarrow> permit option \<Rightarrow> ('w, 'h) runtime_state \<Rightarrow> execution_result res \<times> ('w, 'h) runtime_state" where
  "production_execute L dc io ts a command proot timeout pm s =
     (case valid_permit L (dc_permit_key dc) a command pm of
        Inl e \<Rightarrow> (Inl e, s)
      | Inr False \<Rightarrow> deny_binding L (dc_runtime dc) io ts a
            ''production runtime requires a dispatcher-minted execution permit'' (reset_trace a s)
      | Inr True \<Rightarrow> runtime_execute L (dc_runtime dc) io ts a command proot timeout s)"

definition run_runtime ::
  "pylib \<Rightarrow> 'h dispatcher_config \<Rightarrow> 'w call_env \<Rightarrow> action_request \<Rightarrow> string list \<Rightarrow> string \<Rightarrow> rat option
     \<Rightarrow> ('w, 'h) dispatcher \<Rightarrow> execution_result res \<times> ('w, 'h) dispatcher" where
  "run_runtime L dc ce a command proot timeout s =
     (case (if dc_production dc
            then production_execute L dc (ce_io ce) (ce_stamp ce) a command proot timeout
                   (Some (mint_dispatch_permit L (dc_permit_key dc) a command)) (di_runtime s)
            else runtime_execute L (dc_runtime dc) (ce_io ce) (ce_stamp ce) a command proot timeout (di_runtime s)) of
        (r, rs) \<Rightarrow> (r, s\<lparr>di_runtime := rs\<rparr>))"

definition check_trusted_state :: "'h dispatcher_config \<Rightarrow> ('w, 'h) dispatcher \<Rightarrow> unit res \<times> ('w, 'h) dispatcher" where
  "check_trusted_state dc s = (if dc_production dc then dc_trusted_state dc (host_of s) else Inr (), s)"

definition record_command ::
  "pylib \<Rightarrow> 'w call_env \<Rightarrow> dispatch_request \<Rightarrow> action_request \<Rightarrow> string list \<Rightarrow> ('w, 'h) dispatcher \<Rightarrow> unit res \<times> ('w, 'h) dispatcher" where
  "record_command L ce rq a command s =
     (case di_registry s of
        None \<Rightarrow> (Inr (), s)
      | Some reg \<Rightarrow>
          (case dq_domain_id rq of
             None \<Rightarrow> (raise AssertionError [], s)
           | Some did \<Rightarrow>
               apfst as_denied (registry_op (record_dispatch L (ce_io ce) (ce_stamp ce) did (capability a) (resource a) command) reg s)))"

definition behavioral_violation :: "evaluation \<Rightarrow> bool" where
  "behavioral_violation ev = list_ex (prefix ''session behavior:'') (e_reasons ev)"

definition freeze_violators ::
  "pylib \<Rightarrow> 'h dispatcher_config \<Rightarrow> 'w call_env \<Rightarrow> dispatch_request \<Rightarrow> evaluation \<Rightarrow> ('w, 'h) dispatcher \<Rightarrow> unit res \<times> ('w, 'h) dispatcher" where
  "freeze_violators L dc ce rq ev s =
     (case (di_registry s, dq_domain_id rq) of
        (Some reg, Some did) \<Rightarrow>
          if dc_freeze dc \<and> (e_hard_block ev \<or> behavioral_violation ev)
          then (case get_domain reg did of
                  Inl e \<Rightarrow> (Inl e, s)
                | Inr d \<Rightarrow> registry_op (freeze_root L (ce_io ce) (ce_stamp ce) (root_domain_id d)
                      (if e_hard_block ev then ''hard policy block'' else ''cross-agent behavioral violation'')) reg s)
          else (Inr (), s)
      | _ \<Rightarrow> (Inr (), s))"

definition dispatch_execute ::
  "pylib \<Rightarrow> 'h dispatcher_config \<Rightarrow> 'w call_env \<Rightarrow> dispatch_request \<Rightarrow> string list \<Rightarrow> string \<Rightarrow> rat option
     \<Rightarrow> ('w, 'h) dispatcher \<Rightarrow> execution_result res \<times> ('w, 'h) dispatcher" where
  "dispatch_execute L dc ce rq command proot timeout s =
     chain (check_trusted_state dc s) (\<lambda>_ s.
     chain (case dispatch_canonicalize L s rq of Inl e \<Rightarrow> Inl e | Inr a \<Rightarrow> bind_execution L (dc_production dc) a command rq, s) (\<lambda>a s.
     chain (record_command L ce rq a command s) (\<lambda>_ s.
     chain (run_runtime L dc ce a command proot timeout s) (\<lambda>r s.
     chain (freeze_violators L dc ce rq (x_evaluation r) s) (\<lambda>_ s.
       (Inr r, s))))))"

section \<open>Brokered effects\<close>

definition evaluate_broker_action ::
  "pylib \<Rightarrow> 'h dispatcher_config \<Rightarrow> 'w call_env \<Rightarrow> action_request \<Rightarrow> ('w, 'h) dispatcher \<Rightarrow> action_request res \<times> ('w, 'h) dispatcher" where
  "evaluate_broker_action L dc ce a s =
     chain (check_trusted_state dc s) (\<lambda>_ s.
     (case engine_evaluate L (rt_engine (dc_runtime dc)) (ce_io ce) (ce_stamp ce) a (engine_of s) of
        (Inl e, es) \<Rightarrow> (Inl e, set_engine es s)
      | (Inr ev, es) \<Rightarrow>
          if e_decision ev \<noteq> ALLOW
          then (denied (''broker operation requires explicit ALLOW; got '' @ decision_value (e_decision ev) @ '': ''
                  @ py_join ''; '' (e_reasons ev)), set_engine es s)
          else (Inr a, set_engine es s)))"

definition authorize_legacy_broker_action ::
  "pylib \<Rightarrow> 'h dispatcher_config \<Rightarrow> 'w call_env \<Rightarrow> dispatch_request option \<Rightarrow> capability \<Rightarrow> string
     \<Rightarrow> ('w, 'h) dispatcher \<Rightarrow> action_request res \<times> ('w, 'h) dispatcher" where
  "authorize_legacy_broker_action L dc ce rq expected_capability expected_resource s =
     (case rq of
        None \<Rightarrow> (denied ''broker operation requires an authorized DispatchRequest'', s)
      | Some q \<Rightarrow>
     chain (dispatch_canonicalize L s q, s) (\<lambda>a s.
       if capability a \<noteq> expected_capability
       then (denied (''broker request capability mismatch: expected '' @ capability_value expected_capability @ '', got ''
               @ capability_value (capability a)), s)
       else case canonicalize_resource L (operation a) expected_resource of
         Inl (ActionCanonicalizationError, m) \<Rightarrow> (denied m, s)
       | Inl e \<Rightarrow> (Inl e, s)
       | Inr canonical_expected \<Rightarrow>
           if resource a \<noteq> canonical_expected then (denied ''broker resource does not match authorized resource'', s)
           else evaluate_broker_action L dc ce a s))"

definition authorize_domain_broker_action ::
  "pylib \<Rightarrow> 'h dispatcher_config \<Rightarrow> 'w call_env \<Rightarrow> string \<Rightarrow> string \<Rightarrow> string \<Rightarrow> capability \<Rightarrow> string
     \<Rightarrow> ('w, 'h) dispatcher \<Rightarrow> action_request res \<times> ('w, 'h) dispatcher" where
  "authorize_domain_broker_action L dc ce did oper res expected_capability tsk s =
     (case di_registry s of
        None \<Rightarrow> (denied ''security-domain registry is not configured'', s)
      | Some reg \<Rightarrow>
     chain (as_denied
              (case require_active reg did of
                 Inl e \<Rightarrow> Inl e
               | Inr d \<Rightarrow>
                   if expected_capability \<notin> capability_ceiling d
                   then domain_error (''domain lacks '' @ capability_value expected_capability @ '' authority'')
                   else (case trusted_context_of reg did of
                           Inl e \<Rightarrow> Inl e
                         | Inr t \<Rightarrow> map_sum id (\<lambda>pc. (d, t, pc)) (domain_parent_capabilities reg did))), s) (\<lambda>(d, t, pc) s.
     chain (canonicalize_action L [(''task'', tsk), (''operation'', oper), (''resource'', res)] t (capability_ceiling d) pc, s) (\<lambda>a s.
       if capability a \<noteq> expected_capability
       then (denied (''domain broker capability mismatch: expected '' @ capability_value expected_capability @ '', got ''
               @ capability_value (capability a)), s)
       else evaluate_broker_action L dc ce a s)))"

text \<open>\<open>ProductionRuntime.approval_gate\<close>: the gate built from the signed policy, auditing into the engine's ledger.\<close>

definition gate_env ::
  "pylib \<Rightarrow> 'h dispatcher_config \<Rightarrow> 'w call_env \<Rightarrow> approval_config \<times> string \<Rightarrow> (ledger_files \<times> 'w) approval_env res" where
  "gate_env L dc ce cp =
     (case en_ledger (rt_engine (dc_runtime dc)) of
        None \<Rightarrow> approval_error ''authenticated audit transport required for human approval''
      | Some cfg \<Rightarrow>
          if \<not> dc_anchor_ready dc then approval_error ''authenticated audit transport required for human approval''
          else Inr
          \<lparr>ag_config = fst cp, ag_policy_digest = snd cp,
           ag_audit = (\<lambda>name dat fw. apfst (map_sum id (\<lambda>_. ())) (append_event L cfg (ce_io ce) (ce_stamp ce) name dat fw)),
           ag_loads = ce_loads ce, ag_ssh = ce_ssh ce, ag_ec = ce_ec ce\<rparr>)"

definition approval_gate ::
  "pylib \<Rightarrow> 'h dispatcher_config \<Rightarrow> 'w call_env \<Rightarrow> ('w, 'h) dispatcher \<Rightarrow> (ledger_files \<times> 'w) approval_env res" where
  "approval_gate L dc ce s =
     (case dc_trusted_state dc (host_of s) of
        Inl e \<Rightarrow> Inl e
      | Inr _ \<Rightarrow> (case dc_approval_config dc (host_of s) of Inl e \<Rightarrow> Inl e | Inr cp \<Rightarrow> gate_env L dc ce cp))"

text \<open>An operation of the gate on the dispatcher's approval database and ledger.\<close>

definition gate_op ::
  "(approval_db \<times> ledger_files \<times> 'w \<Rightarrow> 'a res \<times> approval_db \<times> ledger_files \<times> 'w) \<Rightarrow> ('w, 'h) dispatcher
     \<Rightarrow> 'a res \<times> ('w, 'h) dispatcher" where
  "gate_op oper s =
     (case oper (di_approvals s, es_files (engine_of s), es_world (engine_of s)) of
        (r, db, fs, w) \<Rightarrow> (r, (set_ledger fs w s)\<lparr>di_approvals := db\<rparr>))"

text \<open>The guarded block: trusted state, policy and domain are checked again immediately before the effect.\<close>

definition recheck :: "'h dispatcher_config \<Rightarrow> string \<Rightarrow> action_request \<Rightarrow> ('w, 'h) dispatcher \<Rightarrow> unit res" where
  "recheck dc policy_digest a s =
     (case dc_trusted_state dc (host_of s) of
        Inl e \<Rightarrow> Inl e
      | Inr _ \<Rightarrow>
     (case dc_policy_digest dc (host_of s) of
        Inl e \<Rightarrow> Inl e
      | Inr d \<Rightarrow>
          if d \<noteq> policy_digest then denied ''approval policy changed before effect''
          else case di_registry s of
            None \<Rightarrow> Inr ()
          | Some reg \<Rightarrow>
              (case dict_get (metadata a) ''domain_id'' of
                 None \<Rightarrow> raise KeyError ''domain_id''
               | Some did \<Rightarrow> map_sum id (\<lambda>_. ()) (require_active reg did))))"

definition perform_broker_effect ::
  "pylib \<Rightarrow> 'h dispatcher_config \<Rightarrow> 'w call_env \<Rightarrow> action_request \<Rightarrow> string \<Rightarrow> jobj \<Rightarrow> approval_proof option
     \<Rightarrow> (('w, 'h) dispatcher \<Rightarrow> 'a res \<times> ('w, 'h) dispatcher) \<Rightarrow> ('w, 'h) dispatcher \<Rightarrow> 'a res \<times> ('w, 'h) dispatcher" where
  "perform_broker_effect L dc ce a oper parameters approval effect s =
     (if \<not> dc_production dc
      then (if approval \<noteq> None then (denied ''credential approval requires ProductionDispatcher'', s) else effect s)
      else case approval_gate L dc ce s of
        Inl e \<Rightarrow> (Inl e, s)
      | Inr g \<Rightarrow>
          if oper = ''network.request'' \<and> jget parameters ''method'' \<in> {JStr ''GET'', JStr ''HEAD''}
             \<and> resource a \<in> set (ac_routine_urls (ag_config g))
          then (if approval \<noteq> None then (denied ''routine operation does not consume an approval'', s) else effect s)
          else
            chain (binding_for L a oper parameters (ag_policy_digest g) (dc_session_id dc), s) (\<lambda>binding s.
            chain (gate_op (consume L g (ce_seconds ce) (ce_fresh_id ce) binding approval) s) (\<lambda>rid s.
              (case (case recheck dc (ag_policy_digest g) a s of Inl e \<Rightarrow> (Inl e, s) | Inr _ \<Rightarrow> effect s) of
                 (Inl e, s') \<Rightarrow> chain (gate_op (finish_approval g rid ''uncertain'') s') (\<lambda>_ s. (Inl e, s))
               | (Inr x, s') \<Rightarrow> chain (gate_op (finish_approval g rid ''completed'') s') (\<lambda>_ s. (Inr x, s))))))"

fun exn_name :: "exn_class \<Rightarrow> string" where
  "exn_name ActionCanonicalizationError = ''ActionCanonicalizationError''"
| "exn_name SecurityDomainError = ''SecurityDomainError''"
| "exn_name AuditIntegrityError = ''AuditIntegrityError''"
| "exn_name AnchorError = ''AnchorError''"
| "exn_name ApprovalError = ''ApprovalError''"
| "exn_name ApprovalRequired = ''ApprovalRequired''"
| "exn_name BrokerGrantError = ''BrokerGrantError''"
| "exn_name DispatchDenied = ''DispatchDenied''"
| "exn_name EgressDenied = ''EgressDenied''"
| "exn_name EgressError = ''EgressError''"
| "exn_name PolicyBundleError = ''PolicyBundleError''"
| "exn_name SecretBrokerError = ''SecretBrokerError''"
| "exn_name TraceViolation = ''TraceViolation''"
| "exn_name ValueError = ''ValueError''"
| "exn_name KeyError = ''KeyError''"
| "exn_name TypeError = ''TypeError''"
| "exn_name AttributeError = ''AttributeError''"
| "exn_name RuntimeError = ''RuntimeError''"
| "exn_name OSError = ''OSError''"
| "exn_name IntegrityViolation = ''IntegrityViolation''"
| "exn_name SnapshotViolation = ''SnapshotViolation''"
| "exn_name MalwareScannerError = ''MalwareScannerError''"
| "exn_name FilesystemManifestViolation = ''FilesystemManifestViolation''"
| "exn_name WorkspaceLimitViolation = ''WorkspaceLimitViolation''"
| "exn_name ProductionGateFailure = ''ProductionGateFailure''"
| "exn_name DeliveryError = ''DeliveryError''"
| "exn_name HoneyTokenLeak = ''HoneyTokenLeak''"
| "exn_name RemoteSessionError = ''RemoteSessionError''"
| "exn_name AssertionError = ''AssertionError''"
| "exn_name SeccompError = ''SeccompError''"
| "exn_name SandboxUnavailable = ''SandboxUnavailable''"
| "exn_name SecurePathViolation = ''SecurePathViolation''"
| "exn_name MicroVMError = ''MicroVMError''"
| "exn_name AssuranceError = ''AssuranceError''"
| "exn_name MalwareScannerUnavailable = ''MalwareScannerUnavailable''"
| "exn_name IndexError = ''IndexError''"
| "exn_name OtherError = ''Exception''"

text \<open>\<open>record_broker_event\<close> for the domain of a call; without a registry nothing is recorded.\<close>

definition broker_record ::
  "pylib \<Rightarrow> 'w call_env \<Rightarrow> string option \<Rightarrow> string \<Rightarrow> string \<Rightarrow> bool \<Rightarrow> jobj \<Rightarrow> ('w, 'h) dispatcher \<Rightarrow> unit res \<times> ('w, 'h) dispatcher" where
  "broker_record L ce did broker oper allowed detail s =
     (case (di_registry s, did) of
        (Some reg, Some d) \<Rightarrow> registry_op (record_broker_event L (ce_io ce) (ce_stamp ce) d broker oper allowed detail) reg s
      | _ \<Rightarrow> (Inr (), s))"

text \<open>The \<open>try/except Exception\<close> around an effect, and the record of its success.\<close>

definition with_broker_record ::
  "pylib \<Rightarrow> 'w call_env \<Rightarrow> string option \<Rightarrow> string \<Rightarrow> string \<Rightarrow> jobj \<Rightarrow> ('a \<Rightarrow> jobj) \<Rightarrow> 'a res \<times> ('w, 'h) dispatcher
     \<Rightarrow> 'a res \<times> ('w, 'h) dispatcher" where
  "with_broker_record L ce did broker oper subject extra m =
     (case m of
        (Inl e, s) \<Rightarrow> chain (broker_record L ce did broker oper False (subject @ [(''error_type'', JStr (exn_name (fst e)))]) s) (\<lambda>_ s. (Inl e, s))
      | (Inr x, s) \<Rightarrow> chain (broker_record L ce did broker oper True (subject @ extra x) s) (\<lambda>_ s. (Inr x, s)))"

text \<open>\<open>request_secret\<close> against the broker behind the socket: the request as one JSON line, keys in order.\<close>

definition request_line :: "jobj \<Rightarrow> string" where
  "request_line kvs =
     ''{'' @ py_join '', '' (map (\<lambda>(k, v). json_string k @ '': '' @ (case v of JStr t \<Rightarrow> json_string t | _ \<Rightarrow> ''null'')) kvs)
     @ ''}'' @ newline"

definition request_secret ::
  "pylib \<Rightarrow> 'w call_env \<Rightarrow> string \<Rightarrow> string \<Rightarrow> string option \<Rightarrow> ('w, 'h) dispatcher \<Rightarrow> string res \<times> ('w, 'h) dispatcher" where
  "request_secret L ce token name sandbox s =
     (case di_secret s of
        None \<Rightarrow> (raise OSError [], s)
      | Some b \<Rightarrow>
          (case handle L (ce_loads ce) (ce_now ce) (ce_peer ce) [request_line (client_request token name sandbox)] b of
             (response, b') \<Rightarrow> (client_response L response, s\<lparr>di_secret := Some b'\<rparr>)))"

definition issue_domain_secret_grant ::
  "pylib \<Rightarrow> 'w call_env \<Rightarrow> string \<Rightarrow> string set \<Rightarrow> rat \<Rightarrow> int \<Rightarrow> ('w, 'h) dispatcher \<Rightarrow> secret_grant res \<times> ('w, 'h) dispatcher" where
  "issue_domain_secret_grant L ce did names ttl max_uses s =
     (case di_secret s of
        None \<Rightarrow> (denied ''secret broker is not configured'', s)
      | Some b \<Rightarrow>
     (case di_registry s of
        None \<Rightarrow> (denied ''domain secret grants require a security domain registry'', s)
      | Some reg \<Rightarrow>
     chain (as_denied
              (case require_active reg did of
                 Inl e \<Rightarrow> Inl e
               | Inr d \<Rightarrow> if CREDENTIAL_READ \<notin> capability_ceiling d
                         then domain_error ''domain lacks credential.read authority'' else Inr ()), s) (\<lambda>_ s.
     chain (case issue_grant (ce_fresh_id ce) (ce_now ce) names ttl (Some did) (Some max_uses) b of
              (r, b') \<Rightarrow> (r, s\<lparr>di_secret := Some b'\<rparr>)) (\<lambda>grant s.
     chain (broker_record L ce (Some did) ''secret'' ''grant'' True
              [(''allowed_names'', jlist (sorted_list_of_set names)), (''max_uses'', JInt max_uses)] s) (\<lambda>_ s.
       (Inr grant, s))))))"

text \<open>Which action and sandbox a secret request is authorised for, under a domain or a legacy request.\<close>

definition authorize_secret ::
  "pylib \<Rightarrow> 'h dispatcher_config \<Rightarrow> 'w call_env \<Rightarrow> string \<Rightarrow> string option \<Rightarrow> string option \<Rightarrow> dispatch_request option
     \<Rightarrow> ('w, 'h) dispatcher \<Rightarrow> (action_request \<times> string option) res \<times> ('w, 'h) dispatcher" where
  "authorize_secret L dc ce name sandbox did rq s =
     (case di_registry s of
        Some reg \<Rightarrow>
          (case did of
             None \<Rightarrow> (denied ''domain-enabled dispatcher requires domain_id for secrets'', s)
           | Some d \<Rightarrow>
               if d = [] then (denied ''domain-enabled dispatcher requires domain_id for secrets'', s)
               else chain (as_denied (require_active reg d), s) (\<lambda>_ s.
                 if sandbox \<noteq> None \<and> sandbox \<noteq> Some d
                 then (denied ''caller cannot select another domain's sandbox identity'', s)
                 else chain (authorize_domain_broker_action L dc ce d ''secret.get'' name CREDENTIAL_READ ''brokered secret access'' s)
                        (\<lambda>a s. (Inr (a, Some d), s))))
      | None \<Rightarrow>
          chain (authorize_legacy_broker_action L dc ce rq CREDENTIAL_READ name s) (\<lambda>a s. (Inr (a, sandbox), s)))"

definition get_secret ::
  "pylib \<Rightarrow> 'h dispatcher_config \<Rightarrow> 'w call_env \<Rightarrow> string \<Rightarrow> string \<Rightarrow> string option \<Rightarrow> string option \<Rightarrow> dispatch_request option
     \<Rightarrow> rat \<Rightarrow> approval_proof option \<Rightarrow> ('w, 'h) dispatcher \<Rightarrow> string res \<times> ('w, 'h) dispatcher" where
  "get_secret L dc ce token name sandbox did rq timeout approval s =
     (if di_secret s = None then (denied ''secret broker is not configured'', s)
      else chain (authorize_secret L dc ce name sandbox did rq s) (\<lambda>(a, box) s.
        with_broker_record L ce did ''secret'' ''get'' [(''name'', JStr name)] (\<lambda>_. [])
          (perform_broker_effect L dc ce a ''secret.read''
             [(''grant_digest'', JStr (sha256_hex L token)), (''sandbox_id'', opt_jstr box), (''timeout'', JFloat timeout)] approval
             (request_secret L ce token (resource a) box) s)))"

definition fetch_egress ::
  "pylib \<Rightarrow> 'h dispatcher_config \<Rightarrow> 'w call_env \<Rightarrow> string \<Rightarrow> string \<Rightarrow> string option \<Rightarrow> dispatch_request option
     \<Rightarrow> approval_proof option \<Rightarrow> ('w, 'h) dispatcher \<Rightarrow> egress_response res \<times> ('w, 'h) dispatcher" where
  "fetch_egress L dc ce url meth did rq approval s =
     (case dc_egress dc of
        None \<Rightarrow> (denied ''egress broker is not configured'', s)
      | Some fetch \<Rightarrow>
          let m = map upper_char meth; required = (if m \<in> {''GET'', ''HEAD''} then NETWORK_OUTBOUND else NETWORK_POST);
              oper = (if m = ''HEAD'' then ''head'' else if m = ''GET'' then ''fetch'' else ''post'') in
          chain (case di_registry s of
              Some reg \<Rightarrow>
                (case did of
                   None \<Rightarrow> (denied ''domain-enabled dispatcher requires domain_id for egress'', s)
                 | Some d \<Rightarrow>
                     if d = [] then (denied ''domain-enabled dispatcher requires domain_id for egress'', s)
                     else (case assert_egress L reg d url of
                             Inl (SecurityDomainError, msg) \<Rightarrow>
                               (case broker_record L ce did ''egress'' m False [(''url'', JStr url), (''reason'', JStr msg)] s of
                                  (Inl (SecurityDomainError, _), s') \<Rightarrow> (denied msg, s')
                                | (Inl e, s') \<Rightarrow> (Inl e, s')
                                | (Inr _, s') \<Rightarrow> (denied msg, s'))
                           | Inl e \<Rightarrow> (Inl e, s)
                           | Inr _ \<Rightarrow> authorize_domain_broker_action L dc ce d oper url required ''brokered network egress'' s))
            | None \<Rightarrow> authorize_legacy_broker_action L dc ce rq required url s) (\<lambda>a s.
          with_broker_record L ce did ''egress'' m [(''url'', JStr url)] (\<lambda>r. [(''status'', JInt (eg_status r))])
            (perform_broker_effect L dc ce a ''network.request'' [(''method'', JStr m)] approval
               (\<lambda>s. case fetch m (resource a) (host_of s) of
                      (r, h) \<Rightarrow> (r, s\<lparr>di_runtime := (di_runtime s)\<lparr>rs_host := h\<rparr>\<rparr>)) s)))"

section \<open>What an execution through the dispatcher implies\<close>

lemma chain_Inr: "chain m k = (Inr y, t) \<longleftrightarrow> (\<exists>x s. m = (Inr x, s) \<and> k x s = (Inr y, t))"
  by (auto simp: chain_def split: sum.split prod.split)

lemma with_trace_Inr:
  assumes "with_trace evs s k = (Inr x, t)"
  obtains s' where "k s' = (Inr x, t)" and "rs_engine s' = rs_engine s"
  using assms unfolding with_trace_def by (auto split: sum.split_asm prod.split_asm)

lemma x_evaluation_not_executed [simp]:
  "x_evaluation (not_executed ev msg s) = ev" "\<not> x_executed (not_executed ev msg s)"
  by (simp_all add: not_executed_def)

lemma deny_binding_not_executed:
  assumes "deny_binding L rc io ts a reason s = (Inr r, t)"
  shows "\<not> x_executed r"
  using assms unfolding deny_binding_def Let_def
  by (auto elim!: with_trace_Inr split: option.split_asm sum.split_asm prod.split_asm)

lemma scan_gate_Some:
  assumes "scan_gate rc ev xroot s = (Inr (Some r), t)"
  shows "\<not> x_executed r"
  using assms unfolding scan_gate_def malware_blocked_def
  by (auto elim!: with_trace_Inr split: if_split_asm option.split_asm sum.split_asm prod.split_asm)

lemma in_snapshot_executed:
  assumes "in_snapshot rc a command timeout ev snap s = (Inr r, t)" and "x_executed r"
  shows "x_evaluation r = ev"
  using assms unfolding in_snapshot_def Let_def
  by (auto elim!: with_trace_Inr dest: scan_gate_Some
      split: sum.split_asm prod.split_asm option.split_asm exn_class.split_asm if_split_asm)

lemma run_admitted_executed:
  assumes "run_admitted rc a command proot timeout ev s = (Inr r, t)" and "x_executed r"
  shows "x_evaluation r = ev"
  using assms unfolding run_admitted_def Let_def finally_destroy_def
  by (auto dest: in_snapshot_executed split: sum.split_asm prod.split_asm exn_class.split_asm)

lemma runtime_execute_executed:
  assumes "runtime_execute L rc io ts a command proot timeout s = (Inr r, t)" and "x_executed r"
  shows "\<exists>es. engine_evaluate L (rt_engine rc) io ts a (rs_engine s) = (Inr (x_evaluation r), es)
    \<and> e_decision (x_evaluation r) \<noteq> DENY \<and> command_bound L rc a command"
proof -
  have nd: "\<And>reason s0. deny_binding L rc io ts a reason s0 \<noteq> (Inr r, t)"
    using deny_binding_not_executed assms(2) by blast
  obtain ev es s1 where ev: "binding_failure L rc a command = Inr None"
      "engine_evaluate L (rt_engine rc) io ts a (rs_engine s) = (Inr ev, es)"
    and res: "resolve_decision rc a command proot timeout ev s1 = (Inr r, t)"
    using assms(1) nd unfolding runtime_execute_def Let_def reset_trace_def
    by (auto elim!: with_trace_Inr split: sum.split_asm option.split_asm prod.split_asm)
  have "run_admitted rc a command proot timeout ev s1 = (Inr r, t) \<and> e_decision ev \<noteq> DENY"
    using res assms(2) unfolding resolve_decision_def by (auto elim!: with_trace_Inr split: if_split_asm)
  moreover from this have "x_evaluation r = ev" using run_admitted_executed [OF _ assms(2)] by blast
  ultimately show ?thesis using ev by (simp add: binding_failure_None)
qed

lemma production_execute_executed:
  assumes "production_execute L dc io ts a command proot timeout pm s = (Inr r, t)" and "x_executed r"
  shows "valid_permit L (dc_permit_key dc) a command pm = Inr True
    \<and> runtime_execute L (dc_runtime dc) io ts a command proot timeout s = (Inr r, t)"
  using assms unfolding production_execute_def
  by (auto dest: deny_binding_not_executed split: sum.split_asm bool.split_asm)

lemma run_runtime_executed:
  assumes "run_runtime L dc ce a command proot timeout s = (Inr r, t)" and "x_executed r"
  shows "\<exists>es. engine_evaluate L (rt_engine (dc_runtime dc)) (ce_io ce) (ce_stamp ce) a (engine_of s) = (Inr (x_evaluation r), es)
    \<and> e_decision (x_evaluation r) \<noteq> DENY \<and> command_bound L (dc_runtime dc) a command"
proof -
  have "\<exists>rs. runtime_execute L (dc_runtime dc) (ce_io ce) (ce_stamp ce) a command proot timeout (di_runtime s) = (Inr r, rs)"
    using assms(1) unfolding run_runtime_def
    by (auto dest: production_execute_executed [OF _ assms(2)] split: prod.split_asm if_split_asm)
  then show ?thesis using runtime_execute_executed [OF _ assms(2)] by blast
qed

lemma engine_not_DENY:
  assumes "engine_evaluate L en io ts a s = (Inr ev, es)" and "e_decision ev \<noteq> DENY"
  shows "\<not> gate_violated L (en_policy en) a"
proof -
  have "e_decision (policy_evaluate L (en_policy en) a) \<noteq> DENY"
  proof
    assume d: "e_decision (policy_evaluate L (en_policy en) a) = DENY"
    with engine_judge_le(1) [of L en a] have "DENY \<le> e_decision (engine_judge L en a)" by simp
    also have "\<dots> \<le> e_decision ev" using engine_evaluate_Inr(1) [OF assms(1)] guard_result_le(1) by blast
    finally show False using assms(2) by (metis decision_le_DENY order_antisym)
  qed
  then show ?thesis using policy_block_is_deny [of L "en_policy en" a] by auto
qed

lemma bind_execution_Inr:
  assumes "bind_execution L production a command rq = Inr b"
  shows "capability a = PROCESS_EXEC \<and> command \<noteq> [] \<and> canonicalize_filesystem_resource L (hd command) = Inr (resource a)
    \<and> (production \<longrightarrow> dq_authorized rq = Some command) \<and> (\<exists>md. b = a\<lparr>metadata := md\<rparr>)"
  using assms unfolding bind_execution_def
  by (auto split: if_split_asm sum.split_asm prod.split_asm exn_class.split_asm option.split_asm intro: exI [of _ "metadata a"])

lemma as_denied_Inr [simp]: "as_denied r = Inr x \<longleftrightarrow> r = Inr x"
  by (cases r rule: as_denied.cases) simp_all

lemma trusted_context_for_Inr:
  assumes "trusted_context_for s rq = Inr tp" and "di_registry s = Some reg"
  shows "\<exists>did d. dq_domain_id rq = Some did \<and> require_active reg did = Inr d \<and> dq_granted rq \<subseteq> capability_ceiling d"
  using assms unfolding trusted_context_for_def assert_capabilities_def
  by (auto split: option.split_asm if_split_asm sum.split_asm)

text \<open>
  C1. An execution through the dispatcher is authorised end to end. If a dispatched command was
  executed, then the proposal canonicalised to an action with the process capability whose resource is
  the canonical executable of the command; that capability was requested, lies under the signed
  deployment ceiling and in the parent's capabilities; with a domain registry the domain was active and
  every requested capability lies under its ceiling; and in production the trusted state verified and
  the full command line is the one that the host authorised.
\<close>

theorem dispatched_execution_is_authorized:
  assumes "dispatch_execute L dc ce rq command proot timeout s = (Inr r, s')" and "x_executed r"
  shows "\<exists>a. dispatch_canonicalize L s rq = Inr a \<and> capability a = PROCESS_EXEC \<and> PROCESS_EXEC \<in> dq_granted rq
    \<and> canonicalize_filesystem_resource L (hd command) = Inr (resource a)
    \<and> \<not> outside PROCESS_EXEC (global_capability_ceiling (en_policy (rt_engine (dc_runtime dc))))
    \<and> \<not> outside PROCESS_EXEC (parent_capabilities a)
    \<and> (dc_production dc \<longrightarrow> dq_authorized rq = Some command \<and> dc_trusted_state dc (host_of s) = Inr ())
    \<and> (\<forall>reg. di_registry s = Some reg \<longrightarrow>
         (\<exists>did d. dq_domain_id rq = Some did \<and> require_active reg did = Inr d \<and> dq_granted rq \<subseteq> capability_ceiling d))"
proof -
  from assms obtain a b s2 s3 where ts: "dc_production dc \<longrightarrow> dc_trusted_state dc (host_of s) = Inr ()"
    and can: "dispatch_canonicalize L s rq = Inr a" and bnd: "bind_execution L (dc_production dc) a command rq = Inr b"
    and run: "run_runtime L dc ce b command proot timeout s2 = (Inr r, s3)"
    unfolding dispatch_execute_def chain_Inr check_trusted_state_def
    by (auto split: sum.split_asm if_split_asm)
  from bind_execution_Inr [OF bnd] obtain md where b: "b = a\<lparr>metadata := md\<rparr>" "capability a = PROCESS_EXEC"
    "canonicalize_filesystem_resource L (hd command) = Inr (resource a)" "dc_production dc \<longrightarrow> dq_authorized rq = Some command" by blast
  from run_runtime_executed [OF run assms(2)] engine_not_DENY have "\<not> gate_violated L (en_policy (rt_engine (dc_runtime dc))) b" by blast
  then have g: "\<not> outside PROCESS_EXEC (global_capability_ceiling (en_policy (rt_engine (dc_runtime dc))))"
      "PROCESS_EXEC \<in> granted_capabilities a" "\<not> outside PROCESS_EXEC (parent_capabilities a)"
    using b by (auto simp: gate_violated_def outside_iff)
  from can obtain t pc where tc: "trusted_context_for s rq = Inr (t, pc)"
    and ca: "canonicalize_action L (dq_proposal rq) t (dq_granted rq) pc = Inr a"
    unfolding dispatch_canonicalize_def by (auto split: sum.split_asm)
  have "granted_capabilities a = dq_granted rq"
    using ca unfolding canonicalize_action_def by (auto simp: Let_def split: if_split_asm sum.split_asm)
  then show ?thesis using can b g ts trusted_context_for_Inr [OF tc] by auto
qed

section \<open>Violations freeze the lineage\<close>

lemma registry_op_frame [simp]:
  "di_secret (snd (registry_op f reg s)) = di_secret s" "di_approvals (snd (registry_op f reg s)) = di_approvals s"
  "host_of (snd (registry_op f reg s)) = host_of s"
  by (simp_all add: registry_op_def set_ledger_def set_engine_def split: prod.split)

lemma registry_op_registry:
  "di_registry (snd (registry_op f reg s)) =
     Some (snd (f (reg\<lparr>dr_files := es_files (engine_of s), dr_world := es_world (engine_of s)\<rparr>)))"
  by (simp add: registry_op_def split: prod.split)

lemma record_dispatch_keeps:
  "domains (snd (record_dispatch L io ts did c res cmd reg)) = domains reg"
  "max_spawn_depth (snd (record_dispatch L io ts did c res cmd reg)) = max_spawn_depth reg"
  by (simp_all add: record_dispatch_def split: sum.split)

lemma lineage_inv_cong: "domains reg' = domains reg \<Longrightarrow> max_spawn_depth reg' = max_spawn_depth reg \<Longrightarrow> lineage_inv reg' = lineage_inv reg"
  by (simp add: lineage_inv_def)

lemma record_command_registry:
  assumes "record_command L ce rq a command s = (Inr u, s2)" and "di_registry s = Some reg"
  shows "\<exists>reg2. di_registry s2 = Some reg2 \<and> domains reg2 = domains reg \<and> max_spawn_depth reg2 = max_spawn_depth reg"
proof -
  from assms obtain did where did: "dq_domain_id rq = Some did" by (auto simp: record_command_def split: option.split_asm)
  let ?f = "record_dispatch L (ce_io ce) (ce_stamp ce) did (capability a) (resource a) command"
  have "s2 = snd (registry_op ?f reg s)"
    using assms did by (auto simp: record_command_def apfst_def map_prod_def split: prod.split_asm)
  then show ?thesis by (simp add: registry_op_registry record_dispatch_keeps)
qed

lemma run_runtime_registry:
  assumes "run_runtime L dc ce a command proot timeout s = (r, s')"
  shows "di_registry s' = di_registry s"
  using assms by (auto simp: run_runtime_def split: prod.split_asm)

text \<open>
  A violation freezes the whole lineage. When a dispatched command comes back with a hard policy
  block or with a behavioural flag of the session guard, and freezing is enabled, then every domain
  that shares the caller's root is frozen in the registry that the dispatcher is left with.
\<close>

theorem violation_freezes_lineage:
  assumes "dispatch_execute L dc ce rq command proot timeout s = (Inr r, s')"
    and "di_registry s = Some reg" and "lineage_inv reg" and "dq_domain_id rq = Some did" and "get_domain reg did = Inr d"
    and "dc_freeze dc" and "e_hard_block (x_evaluation r) \<or> behavioral_violation (x_evaluation r)"
  shows "\<exists>reg'. di_registry s' = Some reg' \<and> lineage_frozen (root_domain_id d) reg'"
proof -
  from assms(1) obtain b s2 s3 where cmd: "record_command L ce rq b command s = (Inr (), s2)"
    and run: "run_runtime L dc ce b command proot timeout s2 = (Inr r, s3)"
    and fr: "freeze_violators L dc ce rq (x_evaluation r) s3 = (Inr (), s')"
    unfolding dispatch_execute_def chain_Inr check_trusted_state_def by auto
  from record_command_registry [OF cmd assms(2)] run_runtime_registry [OF run] obtain reg2 where
    reg2: "di_registry s3 = Some reg2" "domains reg2 = domains reg" "max_spawn_depth reg2 = max_spawn_depth reg" by auto
  let ?reg3 = "reg2\<lparr>dr_files := es_files (engine_of s3), dr_world := es_world (engine_of s3)\<rparr>"
  from assms(5) have d: "dict_get (domains reg) did = Some d" by (auto simp: get_domain_def split: option.split_asm)
  have "get_domain reg2 did = Inr d" using assms(5) reg2 by (simp add: get_domain_def)
  then obtain reason where "s' = snd (registry_op (freeze_root L (ce_io ce) (ce_stamp ce) (root_domain_id d) reason) reg2 s3)"
    using fr assms(4,6,7) reg2(1) unfolding freeze_violators_def by auto (metis snd_conv)+
  then have "di_registry s' = Some (snd (freeze_root L (ce_io ce) (ce_stamp ce) (root_domain_id d) reason ?reg3))"
    by (simp add: registry_op_registry)
  moreover have "lineage_frozen (root_domain_id d) (snd (freeze_root L (ce_io ce) (ce_stamp ce) (root_domain_id d) reason ?reg3))"
    by (rule freeze_root_frozen [of _ did d]) (use assms(3) d reg2 lineage_inv_cong [of ?reg3 reg] in simp_all)
  ultimately show ?thesis by blast
qed

section \<open>Approvals guard the brokered effects\<close>

lemma set_engine_frame [simp]:
  "di_secret (set_engine es s) = di_secret s" "di_approvals (set_engine es s) = di_approvals s"
  "host_of (set_engine es s) = host_of s" "di_registry (set_engine es s) = di_registry s"
  by (simp_all add: set_engine_def)

lemma gate_op_frame [simp]: "di_secret (snd (gate_op f s)) = di_secret s"
  by (simp add: gate_op_def set_ledger_def split: prod.split)

lemma broker_record_frame [simp]:
  "di_secret (snd (broker_record L ce did b oper al det s)) = di_secret s"
  "di_approvals (snd (broker_record L ce did b oper al det s)) = di_approvals s"
  by (simp_all add: broker_record_def split: option.split)

lemma snd_chain_return [simp]: "snd (chain m (\<lambda>_ s. (r, s))) = snd m"
  by (auto simp: chain_def split: sum.split prod.split)

lemma with_broker_record_frame [simp]:
  "di_secret (snd (with_broker_record L ce did b oper sub ex m)) = di_secret (snd m)"
  "di_approvals (snd (with_broker_record L ce did b oper sub ex m)) = di_approvals (snd m)"
  by (simp_all add: with_broker_record_def split: sum.split prod.split)

lemma evaluate_broker_action_result:
  "di_secret (snd (evaluate_broker_action L dc ce a s)) = di_secret s
   \<and> di_approvals (snd (evaluate_broker_action L dc ce a s)) = di_approvals s
   \<and> host_of (snd (evaluate_broker_action L dc ce a s)) = host_of s
   \<and> (\<forall>b. fst (evaluate_broker_action L dc ce a s) = Inr b \<longrightarrow> b = a
        \<and> (\<exists>es ev es'. engine_evaluate L (rt_engine (dc_runtime dc)) (ce_io ce) (ce_stamp ce) a es = (Inr ev, es') \<and> e_decision ev = ALLOW))"
  by (auto simp: evaluate_broker_action_def chain_def check_trusted_state_def split: sum.split prod.split)

text \<open>What an authorising step leaves alone and what its success means.\<close>

definition authorizes ::
  "pylib \<Rightarrow> 'h dispatcher_config \<Rightarrow> 'w call_env \<Rightarrow> capability \<Rightarrow> ('w, 'h) dispatcher
     \<Rightarrow> action_request res \<times> ('w, 'h) dispatcher \<Rightarrow> bool" where
  "authorizes L dc ce cap s m \<longleftrightarrow>
     di_secret (snd m) = di_secret s \<and> di_approvals (snd m) = di_approvals s \<and> host_of (snd m) = host_of s
     \<and> (\<forall>a. fst m = Inr a \<longrightarrow> capability a = cap
          \<and> (\<exists>es ev es'. engine_evaluate L (rt_engine (dc_runtime dc)) (ce_io ce) (ce_stamp ce) a es = (Inr ev, es') \<and> e_decision ev = ALLOW))"

lemma authorizes_Inl: "authorizes L dc ce cap s (Inl e, s)"
  by (simp add: authorizes_def)

lemma evaluate_authorizes: "capability a = cap \<Longrightarrow> authorizes L dc ce cap s (evaluate_broker_action L dc ce a s)"
  using evaluate_broker_action_result [of L dc ce a s] unfolding authorizes_def by auto

lemma legacy_authorizes: "authorizes L dc ce cap s (authorize_legacy_broker_action L dc ce rq cap res s)"
  unfolding authorize_legacy_broker_action_def chain_def
  by (auto simp: authorizes_Inl evaluate_authorizes split: option.split sum.split prod.split exn_class.split)

lemma domain_authorizes: "authorizes L dc ce cap s (authorize_domain_broker_action L dc ce did oper res cap tsk s)"
  unfolding authorize_domain_broker_action_def chain_def
  by (auto simp: authorizes_Inl evaluate_authorizes split: option.split sum.split prod.split)

lemma perform_effect_guarded:
  assumes prod: "dc_production dc" and oper: "oper \<noteq> ''network.request''"
    and changed: "di_secret (snd (perform_broker_effect L dc ce a oper parameters approval effect s)) \<noteq> di_secret s"
  shows "\<exists>g binding rid fw' db'. approval_gate L dc ce s = Inr g
    \<and> binding_for L a oper parameters (ag_policy_digest g) (dc_session_id dc) = Inr binding
    \<and> consume L g (ce_seconds ce) (ce_fresh_id ce) binding approval
        (di_approvals s, es_files (engine_of s), es_world (engine_of s)) = (Inr rid, db', fw')
    \<and> dc_policy_digest dc (host_of s) = Inr (ag_policy_digest g)"
proof -
  obtain g where g: "approval_gate L dc ce s = Inr g"
    using changed prod by (cases "approval_gate L dc ce s") (auto simp: perform_broker_effect_def)
  obtain binding where b: "binding_for L a oper parameters (ag_policy_digest g) (dc_session_id dc) = Inr binding"
    using changed prod oper g
    by (cases "binding_for L a oper parameters (ag_policy_digest g) (dc_session_id dc)") (auto simp: perform_broker_effect_def chain_def)
  obtain q db' fw' where c: "consume L g (ce_seconds ce) (ce_fresh_id ce) binding approval
        (di_approvals s, es_files (engine_of s), es_world (engine_of s)) = (q, db', fw')" by (metis prod.collapse)
  let ?s1 = "(set_ledger (fst fw') (snd fw') s)\<lparr>di_approvals := db'\<rparr>"
  have op: "gate_op (consume L g (ce_seconds ce) (ce_fresh_id ce) binding approval) s = (q, ?s1)"
    by (cases fw') (simp add: gate_op_def c)
  obtain rid where rid: "q = Inr rid"
    using changed prod oper g b op by (cases q) (auto simp: perform_broker_effect_def chain_def set_ledger_def)
  have "recheck dc (ag_policy_digest g) a ?s1 \<noteq> Inl e" for e
  proof
    assume "recheck dc (ag_policy_digest g) a ?s1 = Inl e"
    then have "di_secret (snd (perform_broker_effect L dc ce a oper parameters approval effect s)) = di_secret s"
      using prod oper g b op rid by (simp add: perform_broker_effect_def chain_def [of "(_, _)"] set_ledger_def)
    with changed show False by simp
  qed
  then obtain u where "recheck dc (ag_policy_digest g) a ?s1 = Inr u" by (cases "recheck dc (ag_policy_digest g) a ?s1") auto
  then have "dc_policy_digest dc (host_of s) = Inr (ag_policy_digest g)"
    by (auto simp: recheck_def set_ledger_def set_engine_def split: sum.split_asm if_split_asm)
  with g b c rid show ?thesis by blast
qed

lemma chain_Inr_return: "chain m (\<lambda>x s. (Inr (f x), s)) = (map_sum id f (fst m), snd m)"
  by (auto simp: chain_def split: sum.split prod.split)

lemma authorize_secret_result:
  assumes "authorize_secret L dc ce name sandbox did rq s = (q, s1)"
  shows "di_secret s1 = di_secret s \<and> di_approvals s1 = di_approvals s \<and> host_of s1 = host_of s
    \<and> (\<forall>a box. q = Inr (a, box) \<longrightarrow> capability a = CREDENTIAL_READ
         \<and> (\<exists>es ev es'. engine_evaluate L (rt_engine (dc_runtime dc)) (ce_io ce) (ce_stamp ce) a es = (Inr ev, es') \<and> e_decision ev = ALLOW))"
proof -
  have r: "?thesis" if "authorizes L dc ce CREDENTIAL_READ s m" and "(q, s1) = (map_sum id (\<lambda>a. (a, b)) (fst m), snd m)" for m b
    using that unfolding authorizes_def by (cases "fst m") auto
  show ?thesis
  proof (cases "di_registry s")
    case None
    with assms have "(q, s1) = chain (authorize_legacy_broker_action L dc ce rq CREDENTIAL_READ name s) (\<lambda>a s. (Inr (a, sandbox), s))"
      by (simp add: authorize_secret_def)
    then show ?thesis unfolding chain_Inr_return [where f = "\<lambda>a. (a, sandbox)"] by (rule r [OF legacy_authorizes])
  next
    case (Some reg)
    show ?thesis
    proof (cases "\<exists>d. q = fst (chain (authorize_domain_broker_action L dc ce d ''secret.get'' name CREDENTIAL_READ ''brokered secret access'' s) (\<lambda>a s. (Inr (a, Some d), s)))
         \<and> s1 = snd (chain (authorize_domain_broker_action L dc ce d ''secret.get'' name CREDENTIAL_READ ''brokered secret access'' s) (\<lambda>a s. (Inr (a, Some d), s)))")
      case True
      then obtain d where "(q, s1) = chain (authorize_domain_broker_action L dc ce d ''secret.get'' name CREDENTIAL_READ ''brokered secret access'' s) (\<lambda>a s. (Inr (a, Some d), s))"
        by auto
      then show ?thesis unfolding chain_Inr_return [where f = "\<lambda>a. (a, Some d)"] by (rule r [OF domain_authorizes])
    next
      case False
      then have "s1 = s" "\<not> returns q" using assms Some
        by (auto simp: authorize_secret_def chain_def [of "(_, s)"] split: option.split_asm if_split_asm sum.split_asm) (metis fst_conv snd_conv)+
      then show ?thesis by auto
    qed
  qed
qed


text \<open>A permit minted for an action and a command line opens the runtime for exactly these.\<close>

lemma minted_permit_runs:
  assumes "ascii_text (hmac_hex L (dc_permit_key dc) (permit_message (action_hash L a) (head_text (hash_command L (Some command)))))"
  shows "production_execute L dc io ts a command proot timeout (Some (mint_dispatch_permit L (dc_permit_key dc) a command)) s
    = runtime_execute L (dc_runtime dc) io ts a command proot timeout s"
  using assms by (simp add: production_execute_def valid_permit_def mint_dispatch_permit_def compare_digest_def Let_def)

lemma foreign_permit_denied:
  assumes "action_hash L b \<noteq> action_hash L a \<or> hash_command L (Some command') \<noteq> hash_command L (Some command)"
  shows "production_execute L dc io ts a command proot timeout (Some (mint_dispatch_permit L key b command')) s
    = deny_binding L (dc_runtime dc) io ts a ''production runtime requires a dispatcher-minted execution permit'' (reset_trace a s)"
  using assms by (auto simp: production_execute_def valid_permit_def mint_dispatch_permit_def Let_def hash_command_def head_text_def)

section \<open>Concrete runs\<close>

definition disp_ce :: "(string \<Rightarrow> json res) \<Rightarrow> string \<Rightarrow> unit call_env" where
  "disp_ce loads fresh = \<lparr>ce_io = status_io 200, ce_stamp = ''t'', ce_now = 5, ce_seconds = 5, ce_peer = (1, 1000, 1000), ce_fresh_id = fresh,
     ce_loads = loads, ce_ssh = (\<lambda>m sg k. Inr ()), ce_ec = \<lparr>ec_point = (\<lambda>k. False), ec_verify = (\<lambda>k sg m. False)\<rparr>\<rparr>"

definition disp_dc :: "nat runtime_config \<Rightarrow> bool \<Rightarrow> nat dispatcher_config" where
  "disp_dc rc production = \<lparr>dc_runtime = rc, dc_production = production, dc_freeze = True, dc_trusted_state = (\<lambda>h. Inr ()),
     dc_permit_key = ''key'', dc_session_id = ''session'', dc_anchor_ready = True,
     dc_approval_config = (\<lambda>h. Inr (\<lparr>ac_credentials = [(''alice'', SshKey ''sk'')], ac_routine_urls = [], ac_ttl = 60\<rparr>, ''pd'')),
     dc_policy_digest = (\<lambda>h. Inr ''pd''), dc_egress = None\<rparr>"

definition disp_registry :: "unit domain_registry" where
  "disp_registry = registry_run plain_lib (status_io 200) ''t''
     [CreateRoot ''r1'' (demo_request\<lparr>rq_capabilities := {PROCESS_EXEC, AGENT_SPAWN}\<rparr>)] demo_registry"

definition disp_state :: "(unit, nat) dispatcher" where
  "disp_state = \<lparr>di_runtime = run_state, di_registry = Some disp_registry, di_secret = None, di_approvals = empty_db\<rparr>"

definition disp_request :: "capability set \<Rightarrow> dispatch_request" where
  "disp_request caps = \<lparr>dq_proposal = [(''operation'', ''exec''), (''resource'', ''/workspace/run'')], dq_trusted = demo_context,
     dq_granted = caps, dq_parent = None, dq_domain_id = Some ''r1'', dq_authorized = Some [''/workspace/run'']\<rparr>"

definition disp_run :: "capability set \<Rightarrow> execution_result res \<times> (unit, nat) dispatcher" where
  "disp_run caps = dispatch_execute plain_lib (disp_dc run_config True) (disp_ce (\<lambda>_. Inr JNull) ''f'') (disp_request caps)
     [''/workspace/run''] ''/workspace'' None disp_state"

lemma disp_run_executes: "\<exists>r s'. disp_run {PROCESS_EXEC} = (Inr r, s') \<and> x_executed r"
proof -
  have "result_sat (fst (disp_run {PROCESS_EXEC})) x_executed" by code_simp
  then show ?thesis by (cases "disp_run {PROCESS_EXEC}") (auto elim: result_satE)
qed

theorem dispatched_execution_is_authorized_witness:
  "\<exists>r s'. disp_run {PROCESS_EXEC} = (Inr r, s') \<and> x_executed r
     \<and> (\<exists>d. require_active disp_registry ''r1'' = Inr d \<and> PROCESS_EXEC \<in> capability_ceiling d)"
proof -
  obtain r s' where r: "disp_run {PROCESS_EXEC} = (Inr r, s')" "x_executed r" using disp_run_executes by blast
  from dispatched_execution_is_authorized [OF r(1) [unfolded disp_run_def] r(2)] r show ?thesis
    by (auto simp: disp_state_def disp_request_def)
qed

theorem violation_freezes_lineage_witness:
  "\<exists>r s' reg'. disp_run {} = (Inr r, s') \<and> e_hard_block (x_evaluation r)
     \<and> di_registry s' = Some reg' \<and> lineage_frozen ''r1'' reg'"
proof -
  have "result_sat (fst (disp_run {})) (\<lambda>r. e_hard_block (x_evaluation r))" by code_simp
  then obtain r s' where r: "disp_run {} = (Inr r, s')" "e_hard_block (x_evaluation r)"
    by (cases "disp_run {}") (auto elim: result_satE)
  have inv: "lineage_inv disp_registry"
    unfolding disp_registry_def registry_run_def
    by (intro registry.run_inv [OF new_registry_inv [OF new_demo_registry]]) (simp add: demo_registry_def)
  have "result_sat (get_domain disp_registry ''r1'') (\<lambda>d. root_domain_id d = ''r1'')" by code_simp
  then obtain d where d: "get_domain disp_registry ''r1'' = Inr d" "root_domain_id d = ''r1''" by (rule result_satE)
  have "\<exists>reg'. di_registry s' = Some reg' \<and> lineage_frozen (root_domain_id d) reg'"
    by (rule violation_freezes_lineage [OF r(1) [unfolded disp_run_def] _ inv _ d(1)])
      (simp_all add: disp_state_def disp_request_def disp_dc_def r(2))
  with r d(2) show ?thesis by auto
qed

text \<open>A production secret request with the proof of a pending approval.\<close>

definition secret_dc :: "nat dispatcher_config" where
  "secret_dc = disp_dc (run_config\<lparr>rt_engine := \<lparr>en_policy = default_policy, en_advisory = null_advisory, en_ledger = Some demo_config\<rparr>\<rparr>) True"

definition secret_ce :: "string \<Rightarrow> unit call_env" where
  "secret_ce = disp_ce (\<lambda>_. Inr (JObj (client_request ''tok'' ''db'' (Some ''sbx''))))"

definition secret_state :: "(unit, nat) dispatcher" where
  "secret_state = \<lparr>di_runtime = run_state, di_registry = None, di_secret = Some demo_broker, di_approvals = empty_db\<rparr>"

definition secret_rq :: dispatch_request where
  "secret_rq = \<lparr>dq_proposal = [(''operation'', ''secret.get''), (''resource'', ''db'')], dq_trusted = demo_context,
     dq_granted = {CREDENTIAL_READ}, dq_parent = None, dq_domain_id = None, dq_authorized = None\<rparr>"

definition secret_call :: "string \<Rightarrow> approval_proof option \<Rightarrow> (unit, nat) dispatcher \<Rightarrow> string res \<times> (unit, nat) dispatcher" where
  "secret_call fresh pr s = get_secret plain_lib secret_dc (secret_ce fresh) ''tok'' ''db'' (Some ''sbx'') None (Some secret_rq) 3 pr s"

definition secret_pending :: "(unit, nat) dispatcher" where
  "secret_pending = secret_state\<lparr>di_approvals := \<lparr>db_rows = [(''q1'', \<lparr>ar_binding = replicate 64 (CHR ''0''), ar_message = ''m'',
     ar_issued = 1, ar_expires = 61, ar_state = ''pending'', ar_credential = None, ar_outcome = None\<rparr>)], db_clock = 1, db_counters = []\<rparr>\<rparr>"

definition secret_proof :: approval_proof where
  "secret_proof = \<lparr>pr_request_id = ''q1'', pr_credential_id = ''alice'', pr_signature = ''sig''\<rparr>"

lemma secret_call_run:
  "case secret_call ''q2'' (Some secret_proof) secret_pending of
     (r, s') \<Rightarrow> r = Inr ''s3cret'' \<and> map_option (length \<circ> sb_events) (di_secret s') = Some 1"
  by code_simp


end
