(* ===== verification/Seccomp_Policy.thy ===== *)
theory Seccomp_Policy
  imports Py_Text "HOL-Library.Word"
begin

text \<open>
  The system call filter, \<^verbatim>\<open>src/bulldog/seccomp_policy.py\<close>. The filter that the process ends up
  with is computed by libseccomp, a C library; its five entry points are the record \<open>libseccomp\<close>, an
  argument of every definition, and what its manual pages promise of them is the predicate
  \<open>lib_documented\<close>: a fresh context answers every call with its default action, a successfully added
  rule overrides it for the calls it matches, loading a context makes its answers the process's.

  A filter is a function of a call number and the call's six argument registers. The lemmas follow
  the loop that adds rules and give the exact meaning of both profiles; the strict profile refuses
  every call that the compatibility profile blocks and every raw or exotic socket, whatever the
  caller leaves in the upper halves of the registers.
\<close>

unbundle bit_operations_syntax

definition SCMP_ACT_ALLOW :: "32 word" where
  "SCMP_ACT_ALLOW = 0x7FFF0000"

definition SCMP_ACT_ERRNO_BASE :: "32 word" where
  "SCMP_ACT_ERRNO_BASE = 0x00050000"

definition SCMP_ACT_ERRNO :: "int \<Rightarrow> 32 word" where
  "SCMP_ACT_ERRNO v = SCMP_ACT_ERRNO_BASE OR (word_of_int v AND 0xFFFF)"

definition EPERM :: int where
  "EPERM = 1"

datatype scmp_op = SCMP_CMP_EQ | SCMP_CMP_MASKED_EQ

record scmp_arg_cmp =
  cmp_arg :: nat
  cmp_op :: scmp_op
  datum_a :: "64 word"
  datum_b :: "64 word"

definition AF_UNIX :: "64 word" where "AF_UNIX = 1"

definition AF_INET :: "64 word" where "AF_INET = 2"

definition AF_INET6 :: "64 word" where "AF_INET6 = 10"

definition SOCK_STREAM :: "64 word" where "SOCK_STREAM = 1"

definition SOCK_DGRAM :: "64 word" where "SOCK_DGRAM = 2"

definition SOCK_SEQPACKET :: "64 word" where "SOCK_SEQPACKET = 5"

definition SOCK_TYPE_MASK :: "64 word" where "SOCK_TYPE_MASK = 0xF"

definition DENIED_SYSCALLS :: "string list" where
  "DENIED_SYSCALLS = [
    ''mount'', ''umount2'', ''pivot_root'', ''ptrace'', ''fspick'', ''fsmount'', ''fsconfig'',
    ''fsopen'', ''open_tree'', ''move_mount'', ''pidfd_getfd'', ''clone3'', ''name_to_handle_at'',
    ''open_by_handle_at'', ''io_uring_register'', ''io_uring_enter'', ''io_uring_setup'',
    ''userfaultfd'', ''process_vm_writev'', ''process_vm_readv'', ''bpf'', ''perf_event_open'',
    ''keyctl'', ''add_key'', ''request_key'', ''setns'', ''unshare'', ''kexec_load'',
    ''finit_module'', ''init_module'', ''delete_module'', ''reboot'']"

definition STRICT_ALLOWED_SYSCALLS :: "string list" where
  "STRICT_ALLOWED_SYSCALLS = [
    ''execve'', ''execveat'', ''exit'', ''exit_group'', ''clone'', ''fork'', ''vfork'', ''wait4'',
    ''waitid'', ''getpid'', ''getppid'', ''gettid'', ''getuid'', ''geteuid'', ''getgid'',
    ''getegid'', ''getgroups'', ''setuid'', ''setgid'', ''setreuid'', ''setregid'', ''setresuid'',
    ''setresgid'', ''setgroups'', ''setsid'', ''getpgid'', ''setpgid'', ''getpgrp'', ''brk'',
    ''mmap'', ''mprotect'', ''munmap'', ''mremap'', ''madvise'', ''mlock'', ''munlock'', ''futex'',
    ''rseq'', ''set_tid_address'', ''set_robust_list'', ''arch_prctl'', ''prctl'', ''membarrier'',
    ''rt_sigaction'', ''rt_sigprocmask'', ''rt_sigreturn'', ''rt_sigsuspend'', ''rt_sigpending'',
    ''rt_sigtimedwait'', ''sigaltstack'', ''kill'', ''tgkill'', ''sched_yield'',
    ''sched_getaffinity'', ''sched_setaffinity'', ''clock_gettime'', ''clock_getres'',
    ''clock_nanosleep'', ''nanosleep'', ''gettimeofday'', ''time'', ''times'', ''read'', ''write'',
    ''readv'', ''writev'', ''pread64'', ''pwrite64'', ''preadv'', ''pwritev'', ''close'',
    ''close_range'', ''lseek'', ''open'', ''openat'', ''creat'', ''newfstatat'', ''stat'',
    ''lstat'', ''fstat'', ''statx'', ''access'', ''faccessat'', ''faccessat2'', ''readlink'',
    ''readlinkat'', ''getdents'', ''getdents64'', ''getcwd'', ''chdir'', ''fchdir'', ''mkdir'',
    ''mkdirat'', ''rmdir'', ''unlink'', ''unlinkat'', ''rename'', ''renameat'', ''renameat2'',
    ''link'', ''linkat'', ''symlink'', ''symlinkat'', ''chmod'', ''fchmod'', ''fchmodat'',
    ''chown'', ''fchown'', ''fchownat'', ''lchown'', ''truncate'', ''ftruncate'', ''fsync'',
    ''fdatasync'', ''sync_file_range'', ''umask'', ''fcntl'', ''ioctl'', ''dup'', ''dup2'',
    ''dup3'', ''flock'', ''pipe'', ''pipe2'', ''sendfile'', ''copy_file_range'', ''splice'',
    ''tee'', ''select'', ''pselect6'', ''poll'', ''ppoll'', ''epoll_create'', ''epoll_create1'',
    ''epoll_ctl'', ''epoll_wait'', ''epoll_pwait'', ''epoll_pwait2'', ''eventfd'', ''eventfd2'',
    ''signalfd'', ''signalfd4'', ''timerfd_create'', ''timerfd_settime'', ''timerfd_gettime'',
    ''socket'', ''socketpair'', ''bind'', ''listen'', ''accept'', ''accept4'', ''connect'',
    ''getsockname'', ''getpeername'', ''sendto'', ''recvfrom'', ''sendmsg'', ''recvmsg'',
    ''shutdown'', ''setsockopt'', ''getsockopt'', ''uname'', ''sysinfo'', ''getrandom'',
    ''getrlimit'', ''setrlimit'', ''prlimit64'', ''getrusage'', ''getcpu'', ''personality'']"

section \<open>The library\<close>

text \<open>
  \<open>'c\<close> is a filter context, \<open>'k\<close> the process as the kernel sees it. \<open>scmp_rule_add\<close> stands for both
  \<open>seccomp_rule_add\<close> (no constraint) and \<open>seccomp_rule_add_array\<close>; a negative code is an error.
\<close>

record ('c, 'k) libseccomp =
  scmp_init :: "32 word \<Rightarrow> 'c option"
  scmp_resolve :: "string \<Rightarrow> int"
  scmp_rule_add :: "'c \<Rightarrow> 32 word \<Rightarrow> int \<Rightarrow> scmp_arg_cmp list \<Rightarrow> int \<times> 'c"
  scmp_load :: "'c \<Rightarrow> 'k \<Rightarrow> int \<times> 'k"
  scmp_release :: "'c \<Rightarrow> 'k \<Rightarrow> 'k"
  scmp_errorcode :: "int \<Rightarrow> string"

definition check_rc :: "('c, 'k) libseccomp \<Rightarrow> int \<Rightarrow> string \<Rightarrow> unit res" where
  "check_rc lib rc operation =
     (if rc < 0
      then raise SeccompError (operation @ '' failed: [errno '' @ int_str (- rc) @ ''] '' @ scmp_errorcode lib (- rc))
      else Inr ())"

definition resolve_syscall :: "('c, 'k) libseccomp \<Rightarrow> string \<Rightarrow> int option" where
  "resolve_syscall lib name = (let number = scmp_resolve lib name in if number < 0 then None else Some number)"

definition add_cmp_rule ::
  "('c, 'k) libseccomp \<Rightarrow> 'c \<Rightarrow> 32 word \<Rightarrow> int \<Rightarrow> scmp_arg_cmp list \<Rightarrow> string \<Rightarrow> 'c res" where
  "add_cmp_rule lib ctx action number comparisons label =
     (if comparisons = []
      then raise SeccompError ''comparison rule must contain at least one argument constraint''
      else let (rc, ctx') = scmp_rule_add lib ctx action number comparisons in
           case check_rc lib rc (''seccomp_rule_add_array('' @ label @ '')'') of
             Inl e \<Rightarrow> Inl e | Inr _ \<Rightarrow> Inr ctx')"

text \<open>The loop over \<open>names\<close>; names the architecture does not know are skipped.\<close>

fun add_names ::
  "('c, 'k) libseccomp \<Rightarrow> 32 word \<Rightarrow> string list \<Rightarrow> 'c \<Rightarrow> string list \<Rightarrow> ('c \<times> string list) res" where
  "add_names lib action [] ctx installed = Inr (ctx, installed)"
| "add_names lib action (name # names) ctx installed =
     (case resolve_syscall lib name of
        None \<Rightarrow> add_names lib action names ctx installed
      | Some number \<Rightarrow>
          let (rc, ctx') = scmp_rule_add lib ctx action number [] in
          case check_rc lib rc (''seccomp_rule_add('' @ name @ '')'') of
            Inl e \<Rightarrow> Inl e
          | Inr _ \<Rightarrow> add_names lib action names ctx' (installed @ [name]))"

definition socket_rules :: "(scmp_arg_cmp list \<times> string \<times> string) list" where
  "socket_rules =
     ([\<lparr>cmp_arg = 0, cmp_op = SCMP_CMP_EQ, datum_a = AF_UNIX, datum_b = 0\<rparr>], ''socket:AF_UNIX'', ''socket(AF_UNIX)'')
     # concat (map (\<lambda>(dom, dname). map (\<lambda>(typ, tname).
         ([\<lparr>cmp_arg = 0, cmp_op = SCMP_CMP_EQ, datum_a = dom, datum_b = 0\<rparr>,
           \<lparr>cmp_arg = 1, cmp_op = SCMP_CMP_MASKED_EQ, datum_a = SOCK_TYPE_MASK, datum_b = typ\<rparr>],
          ''socket:'' @ dname @ '':'' @ tname, ''socket('' @ dname @ '','' @ tname @ '')''))
         [(SOCK_STREAM, ''SOCK_STREAM''), (SOCK_DGRAM, ''SOCK_DGRAM''), (SOCK_SEQPACKET, ''SOCK_SEQPACKET'')])
       [(AF_INET, ''AF_INET''), (AF_INET6, ''AF_INET6'')])"

fun add_socket_rules ::
  "('c, 'k) libseccomp \<Rightarrow> int \<Rightarrow> (scmp_arg_cmp list \<times> string \<times> string) list \<Rightarrow> 'c \<Rightarrow> string list
     \<Rightarrow> ('c \<times> string list) res" where
  "add_socket_rules lib number [] ctx installed = Inr (ctx, installed)"
| "add_socket_rules lib number ((cmps, label, text) # rules) ctx installed =
     (case add_cmp_rule lib ctx SCMP_ACT_ALLOW number cmps label of
        Inl e \<Rightarrow> Inl e
      | Inr ctx' \<Rightarrow> add_socket_rules lib number rules ctx' (installed @ [text]))"

text \<open>The body of the \<open>try\<close> block: the rules of both kinds in their order.\<close>

definition add_rules ::
  "('c, 'k) libseccomp \<Rightarrow> string \<Rightarrow> string list \<Rightarrow> string list \<Rightarrow> int \<Rightarrow> 'c \<Rightarrow> ('c \<times> string list) res" where
  "add_rules lib profile denied_syscalls allowed_syscalls errno_value ctx =
     (let (action, names) = (if profile = ''compat'' then (SCMP_ACT_ERRNO errno_value, denied_syscalls)
                             else (SCMP_ACT_ALLOW, filter (\<lambda>name. name \<noteq> ''socket'') allowed_syscalls)) in
      case add_names lib action names ctx [] of
        Inl e \<Rightarrow> Inl e
      | Inr (ctx1, installed) \<Rightarrow>
          if profile = ''strict'' \<and> ''socket'' \<in> set allowed_syscalls
          then (case resolve_syscall lib ''socket'' of
                  None \<Rightarrow> Inr (ctx1, installed)
                | Some number \<Rightarrow> add_socket_rules lib number socket_rules ctx1 installed)
          else Inr (ctx1, installed))"

definition install_bull_seccomp ::
  "pylib \<Rightarrow> ('c, 'k) libseccomp \<Rightarrow> string \<Rightarrow> string list \<Rightarrow> string list \<Rightarrow> int \<Rightarrow> 'k \<Rightarrow> string list res \<times> 'k" where
  "install_bull_seccomp L lib profile0 denied_syscalls allowed_syscalls errno_value k =
     (let profile = py_lower L (py_strip profile0) in
      if profile \<notin> {''compat'', ''strict''}
      then (raise SeccompError (''unknown seccomp profile: '' @ profile), k)
      else case scmp_init lib (if profile = ''compat'' then SCMP_ACT_ALLOW else SCMP_ACT_ERRNO errno_value) of
        None \<Rightarrow> (raise SeccompError ''seccomp_init returned NULL'', k)
      | Some ctx \<Rightarrow>
          (case add_rules lib profile denied_syscalls allowed_syscalls errno_value ctx of
             Inl e \<Rightarrow> (Inl e, scmp_release lib ctx k)
           | Inr (ctx', installed) \<Rightarrow>
               let (rc, k') = scmp_load lib ctx' k in
               (case check_rc lib rc ''seccomp_load'' of
                  Inl e \<Rightarrow> (Inl e, scmp_release lib ctx' k')
                | Inr _ \<Rightarrow> (Inr installed, scmp_release lib ctx' k'))))"

section \<open>What the library documents\<close>

type_synonym syscall_filter = "int \<Rightarrow> 64 word list \<Rightarrow> 32 word"

definition cmp_holds :: "scmp_arg_cmp \<Rightarrow> 64 word list \<Rightarrow> bool" where
  "cmp_holds c args =
     (let x = args ! cmp_arg c in
      case cmp_op c of
        SCMP_CMP_EQ \<Rightarrow> x = datum_a c
      | SCMP_CMP_MASKED_EQ \<Rightarrow> x AND datum_a c = datum_b c)"

definition with_rule :: "syscall_filter \<Rightarrow> 32 word \<Rightarrow> int \<Rightarrow> scmp_arg_cmp list \<Rightarrow> syscall_filter" where
  "with_rule f action number cmps =
     (\<lambda>n args. if n = number \<and> list_all (\<lambda>c. cmp_holds c args) cmps then action else f n args)"

text \<open>
  \<open>ctx_filter c\<close>: what a context would answer; \<open>loaded k\<close>: the filters of the process, newest first.
  Distinct names never resolve to one number.
\<close>

definition lib_documented ::
  "('c, 'k) libseccomp \<Rightarrow> ('c \<Rightarrow> syscall_filter) \<Rightarrow> ('k \<Rightarrow> syscall_filter list) \<Rightarrow> bool" where
  "lib_documented lib ctx_filter loaded \<longleftrightarrow>
     (\<forall>action c. scmp_init lib action = Some c \<longrightarrow> ctx_filter c = (\<lambda>_ _. action))
     \<and> (\<forall>c action number cmps rc c'. scmp_rule_add lib c action number cmps = (rc, c') \<longrightarrow> rc \<ge> 0
          \<longrightarrow> ctx_filter c' = with_rule (ctx_filter c) action number cmps)
     \<and> (\<forall>c k rc k'. scmp_load lib c k = (rc, k')
          \<longrightarrow> loaded k' = (if rc < 0 then loaded k else ctx_filter c # loaded k))
     \<and> (\<forall>c k. loaded (scmp_release lib c k) = loaded k)
     \<and> (\<forall>a b. scmp_resolve lib a = scmp_resolve lib b \<longrightarrow> scmp_resolve lib a \<ge> 0 \<longrightarrow> a = b)"

lemma check_rc_Inr [simp]: "check_rc lib rc msg = Inr u \<longleftrightarrow> 0 \<le> rc"
  by (auto simp: check_rc_def)

lemma lib_init: "lib_documented lib cf loaded \<Longrightarrow> scmp_init lib action = Some c \<Longrightarrow> cf c = (\<lambda>_ _. action)"
  by (simp add: lib_documented_def)

lemma lib_rule_add:
  "lib_documented lib cf loaded \<Longrightarrow> scmp_rule_add lib c action number cmps = (rc, c') \<Longrightarrow> 0 \<le> rc
     \<Longrightarrow> cf c' = with_rule (cf c) action number cmps"
  unfolding lib_documented_def by blast

lemma lib_load:
  "lib_documented lib cf loaded \<Longrightarrow> scmp_load lib c k = (rc, k')
     \<Longrightarrow> loaded k' = (if rc < 0 then loaded k else cf c # loaded k)"
  unfolding lib_documented_def by blast

lemma lib_release: "lib_documented lib cf loaded \<Longrightarrow> loaded (scmp_release lib c k) = loaded k"
  unfolding lib_documented_def by blast

lemma lib_resolve_inj:
  "lib_documented lib cf loaded \<Longrightarrow> resolve_syscall lib a = Some n \<Longrightarrow> resolve_syscall lib b = Some n \<Longrightarrow> a = b"
  unfolding lib_documented_def resolve_syscall_def by (auto simp: Let_def split: if_splits)

lemma add_names_filter:
  assumes lib: "lib_documented lib cf loaded"
    and "add_names lib action names ctx installed = Inr (ctx', installed')"
  shows "cf ctx' = (\<lambda>n args. if \<exists>name \<in> set names. resolve_syscall lib name = Some n then action else cf ctx n args)
         \<and> installed' = installed @ filter (\<lambda>name. resolve_syscall lib name \<noteq> None) names"
  using assms(2)
proof (induction names arbitrary: ctx installed)
  case Nil
  then show ?case by simp
next
  case (Cons name names)
  show ?case
  proof (cases "resolve_syscall lib name")
    case None
    with Cons show ?thesis by simp
  next
    case (Some number)
    obtain rc ctx1 where add: "scmp_rule_add lib ctx action number [] = (rc, ctx1)" by fastforce
    with Cons.prems Some have rc: "0 \<le> rc"
      and rest: "add_names lib action names ctx1 (installed @ [name]) = Inr (ctx', installed')"
      by (auto split: sum.splits)
    from lib_rule_add [OF lib add rc] Cons.IH [OF rest] Some show ?thesis
      by (auto simp: with_rule_def fun_eq_iff)
  qed
qed

lemma add_socket_rules_filter:
  assumes lib: "lib_documented lib cf loaded"
    and "add_socket_rules lib number rules ctx installed = Inr (ctx', installed')"
  shows "cf ctx' = (\<lambda>n args. if n = number \<and> (\<exists>r \<in> set rules. list_all (\<lambda>c. cmp_holds c args) (fst r))
                             then SCMP_ACT_ALLOW else cf ctx n args)
         \<and> installed' = installed @ map (snd \<circ> snd) rules"
  using assms(2)
proof (induction rules arbitrary: ctx installed)
  case Nil
  then show ?case by simp
next
  case (Cons r rules)
  obtain cmps label entry where r: "r = (cmps, label, entry)" by (cases r)
  obtain rc ctx1 where add: "scmp_rule_add lib ctx SCMP_ACT_ALLOW number cmps = (rc, ctx1)" by fastforce
  with Cons.prems r have rc: "0 \<le> rc"
    and rest: "add_socket_rules lib number rules ctx1 (installed @ [entry]) = Inr (ctx', installed')"
    by (auto simp: add_cmp_rule_def split: sum.splits if_splits)
  from lib_rule_add [OF lib add rc] Cons.IH [OF rest] r show ?case
    by (auto simp: with_rule_def fun_eq_iff)
qed

section \<open>The meaning of the two profiles\<close>

definition socket_permitted :: "64 word list \<Rightarrow> bool" where
  "socket_permitted args \<longleftrightarrow>
     args ! 0 = AF_UNIX
     \<or> args ! 0 \<in> {AF_INET, AF_INET6} \<and> args ! 1 AND SOCK_TYPE_MASK \<in> {SOCK_STREAM, SOCK_DGRAM, SOCK_SEQPACKET}"

definition compat_filter :: "('c, 'k) libseccomp \<Rightarrow> string list \<Rightarrow> int \<Rightarrow> syscall_filter" where
  "compat_filter lib names err =
     (\<lambda>n args. if \<exists>name \<in> set names. resolve_syscall lib name = Some n then SCMP_ACT_ERRNO err else SCMP_ACT_ALLOW)"

definition strict_filter :: "('c, 'k) libseccomp \<Rightarrow> string list \<Rightarrow> int \<Rightarrow> syscall_filter" where
  "strict_filter lib names err =
     (\<lambda>n args. if \<exists>name \<in> set names. resolve_syscall lib name = Some n \<and> (name = ''socket'' \<longrightarrow> socket_permitted args)
               then SCMP_ACT_ALLOW else SCMP_ACT_ERRNO err)"

lemma socket_rules_permitted:
  "(\<exists>r \<in> set socket_rules. list_all (\<lambda>c. cmp_holds c args) (fst r)) \<longleftrightarrow> socket_permitted args"
  by (auto simp: socket_rules_def socket_permitted_def cmp_holds_def Let_def)

definition plain_name :: "('c, 'k) libseccomp \<Rightarrow> string list \<Rightarrow> int \<Rightarrow> bool" where
  "plain_name lib al n \<longleftrightarrow> (\<exists>name \<in> set al. name \<noteq> ''socket'' \<and> resolve_syscall lib name = Some n)"

lemma strict_filter_socket:
  assumes "''socket'' \<in> set al" and "resolve_syscall lib ''socket'' = Some number"
  shows "strict_filter lib al err n args =
           (if n = number \<and> socket_permitted args then SCMP_ACT_ALLOW
            else if plain_name lib al n then SCMP_ACT_ALLOW else SCMP_ACT_ERRNO err)"
proof -
  have "(\<exists>name \<in> set al. resolve_syscall lib name = Some n \<and> (name = ''socket'' \<longrightarrow> socket_permitted args)) \<longleftrightarrow>
        (n = number \<and> socket_permitted args) \<or> plain_name lib al n"
    using assms unfolding plain_name_def by (metis option.inject)
  then show ?thesis by (simp add: strict_filter_def)
qed

lemma add_rules_filter:
  assumes lib: "lib_documented lib cf loaded"
    and init: "scmp_init lib (if profile = ''compat'' then SCMP_ACT_ALLOW else SCMP_ACT_ERRNO err) = Some ctx"
    and add: "add_rules lib profile dn al err ctx = Inr (ctx', installed)"
    and profile: "profile = ''compat'' \<or> profile = ''strict''"
  shows "cf ctx' = (if profile = ''compat'' then compat_filter lib dn err else strict_filter lib al err)"
proof (cases "profile = ''compat''")
  case True
  with add have "add_names lib (SCMP_ACT_ERRNO err) dn ctx [] = Inr (ctx', installed)"
    by (auto simp: add_rules_def split: sum.splits prod.splits)
  from add_names_filter [OF lib this] lib_init [OF lib init] True show ?thesis
    by (auto simp: compat_filter_def fun_eq_iff)
next
  case False
  with profile have p: "profile = ''strict''" by simp
  with add obtain ctx1 inst1 where
    names: "add_names lib SCMP_ACT_ALLOW (filter (\<lambda>name. name \<noteq> ''socket'') al) ctx [] = Inr (ctx1, inst1)"
    and sock: "(if ''socket'' \<in> set al
          then (case resolve_syscall lib ''socket'' of
                  None \<Rightarrow> Inr (ctx1, inst1)
                | Some number \<Rightarrow> add_socket_rules lib number socket_rules ctx1 inst1)
          else Inr (ctx1, inst1)) = Inr (ctx', installed)"
    by (auto simp: add_rules_def split: sum.splits prod.splits)
  have base: "cf ctx1 = (\<lambda>n args. if plain_name lib al n then SCMP_ACT_ALLOW else SCMP_ACT_ERRNO err)"
    using add_names_filter [OF lib names] lib_init [OF lib init] p by (auto simp: plain_name_def fun_eq_iff)
  show ?thesis
  proof (cases "''socket'' \<in> set al \<and> resolve_syscall lib ''socket'' \<noteq> None")
    case True
    then obtain number where number: "resolve_syscall lib ''socket'' = Some number" by blast
    with True sock have "add_socket_rules lib number socket_rules ctx1 inst1 = Inr (ctx', installed)" by simp
    from add_socket_rules_filter [OF lib this] have
      "cf ctx' n args = (if n = number \<and> socket_permitted args then SCMP_ACT_ALLOW else cf ctx1 n args)" for n args
      by (simp add: socket_rules_permitted)
    then show ?thesis
      using True by (simp add: fun_eq_iff p base strict_filter_socket [OF _ number])
  next
    case False
    with sock have "ctx' = ctx1" by (auto split: if_splits option.splits)
    moreover have "(\<exists>name \<in> set al. resolve_syscall lib name = Some n \<and> (name = ''socket'' \<longrightarrow> socket_permitted args))
        \<longleftrightarrow> plain_name lib al n" for n args
      using False unfolding plain_name_def by (metis option.distinct(1))
    ultimately show ?thesis using base p by (simp add: strict_filter_def fun_eq_iff)
  qed
qed

lemma install_cases:
  assumes lib: "lib_documented lib cf loaded"
    and run: "install_bull_seccomp L lib profile0 dn al err k = (r, k')"
  shows "case r of
           Inl _ \<Rightarrow> loaded k' = loaded k
         | Inr _ \<Rightarrow> loaded k' = (if py_lower L (py_strip profile0) = ''compat'' then compat_filter lib dn err
                                else strict_filter lib al err) # loaded k
                     \<and> py_lower L (py_strip profile0) \<in> {''compat'', ''strict''}"
proof -
  define p where "p = py_lower L (py_strip profile0)"
  note I = run [unfolded install_bull_seccomp_def, folded p_def]
  show ?thesis
  proof (cases "p \<in> {''compat'', ''strict''}")
    case False
    with I show ?thesis by (auto simp: Let_def)
  next
    case True
    let ?init = "scmp_init lib (if p = ''compat'' then SCMP_ACT_ALLOW else SCMP_ACT_ERRNO err)"
    show ?thesis
    proof (cases ?init)
      case None
      with True I show ?thesis by (auto simp: Let_def)
    next
      case (Some ctx)
      show ?thesis
      proof (cases "add_rules lib p dn al err ctx")
        case (Inl e)
        with True Some I show ?thesis by (auto simp: Let_def lib_release [OF lib])
      next
        case (Inr q)
        obtain ctx' inst where q: "q = (ctx', inst)" by fastforce
        obtain rc k1 where load: "scmp_load lib ctx' k = (rc, k1)" by fastforce
        have "cf ctx' = (if p = ''compat'' then compat_filter lib dn err else strict_filter lib al err)"
          using add_rules_filter [OF lib Some Inr [unfolded q]] True by simp
        with lib_load [OF lib load] True Some Inr q load I show ?thesis
          by (auto simp: Let_def lib_release [OF lib] check_rc_def p_def [symmetric] split: if_splits)
      qed
    qed
  qed
qed

text \<open>The two lists are disjoint: already the numbers their names spell are.\<close>

definition name_code :: "string \<Rightarrow> int" where
  "name_code s = foldl (\<lambda>n c. 131 * n + of_char c) 0 s"

lemma name_codes_disjoint:
  "list_all (\<lambda>d. d \<notin> set (map name_code STRICT_ALLOWED_SYSCALLS)) (map name_code DENIED_SYSCALLS)"
  unfolding name_code_def by (simp add: STRICT_ALLOWED_SYSCALLS_def DENIED_SYSCALLS_def)

lemma strict_names_not_denied: "set STRICT_ALLOWED_SYSCALLS \<inter> set DENIED_SYSCALLS = {}"
  using name_codes_disjoint by (fastforce simp: list_all_iff)

lemma errno_not_allow: "SCMP_ACT_ERRNO err \<noteq> SCMP_ACT_ALLOW"
proof -
  have "bit (SCMP_ACT_ERRNO err) 24 = False"
    by (simp add: SCMP_ACT_ERRNO_def SCMP_ACT_ERRNO_BASE_def bit_simps)
  moreover have "bit SCMP_ACT_ALLOW 24"
    by (simp add: SCMP_ACT_ALLOW_def)
  ultimately show ?thesis by metis
qed

lemma strict_text: "py_lower L (py_strip ''strict'') = ''strict''"
proof -
  have "ascii_text ''strict'' \<and> map lower_char ''strict'' = ''strict'' \<and> py_strip ''strict'' = ''strict''"
    by code_simp
  then show ?thesis by (simp only: py_lower_def if_True)
qed

text \<open>The kernel reads domain and type of a socket call as 32-bit integers.\<close>

definition kernel_int :: "64 word \<Rightarrow> 32 word" where
  "kernel_int x = ucast x"

lemma socket_permitted_kernel:
  assumes "socket_permitted args"
  shows "kernel_int (args ! 0) = 1
         \<or> kernel_int (args ! 0) \<in> {2, 10} \<and> kernel_int (args ! 1) AND 0xF \<in> {1, 2, 5}"
proof -
  have mask: "kernel_int (args ! 1) AND 0xF = ucast (args ! 1 AND SOCK_TYPE_MASK)"
    by (simp add: kernel_int_def SOCK_TYPE_MASK_def unsigned_and_eq)
  show ?thesis unfolding mask using assms
    by (auto simp: socket_permitted_def kernel_int_def AF_UNIX_def AF_INET_def AF_INET6_def
        SOCK_STREAM_def SOCK_DGRAM_def SOCK_SEQPACKET_def)
qed

text \<open>
  C19. All or nothing, and exactly the profile. If \<open>install_bull_seccomp\<close> raises, no filter was
  loaded into the process. If it returns, exactly one was, and that filter answers every call with
  every register content as the profile says: the compatibility profile refuses the denied names
  with the chosen error and allows the rest; the strict profile allows the allowed names, \<open>socket\<close>
  only for a Unix domain or for a stream, datagram or seqpacket Internet socket, and refuses the
  rest.
\<close>

theorem install_seccomp_exact:
  assumes "lib_documented lib cf loaded"
    and "install_bull_seccomp L lib profile dn al err k = (r, k')"
  shows "(\<forall>e. r = Inl e \<longrightarrow> loaded k' = loaded k)
         \<and> (\<forall>names. r = Inr names \<longrightarrow>
              (\<exists>f. loaded k' = f # loaded k
                \<and> (py_lower L (py_strip profile) = ''compat'' \<and> f = compat_filter lib dn err
                   \<or> py_lower L (py_strip profile) = ''strict'' \<and> f = strict_filter lib al err)))"
  using install_cases [OF assms] by (cases r) (auto split: if_splits)

text \<open>
  The strict profile is strictly tighter. Whatever call the strict filter lets through, the
  compatibility filter lets through as well, so every kernel-control call of the deny list stays
  refused; and a \<open>socket\<close> call that passes is, in the 32-bit view of the kernel, a Unix socket or an
  IPv4 or IPv6 stream, datagram or seqpacket socket: never a raw, packet or netlink one.
\<close>

theorem strict_tighter_than_compat:
  assumes lib: "lib_documented lib cf loaded"
    and strict: "install_bull_seccomp L lib ''strict'' DENIED_SYSCALLS STRICT_ALLOWED_SYSCALLS EPERM k = (Inr names, k')"
    and call: "hd (loaded k') n args = SCMP_ACT_ALLOW"
  shows "compat_filter lib DENIED_SYSCALLS EPERM n args = SCMP_ACT_ALLOW
         \<and> (resolve_syscall lib ''socket'' = Some n \<longrightarrow>
              kernel_int (args ! 0) = 1
              \<or> kernel_int (args ! 0) \<in> {2, 10} \<and> kernel_int (args ! 1) AND 0xF \<in> {1, 2, 5})"
proof -
  from install_cases [OF lib strict] have f: "hd (loaded k') = strict_filter lib STRICT_ALLOWED_SYSCALLS EPERM"
    by (simp add: strict_text)
  with call obtain name where name: "name \<in> set STRICT_ALLOWED_SYSCALLS" "resolve_syscall lib name = Some n"
    "name = ''socket'' \<longrightarrow> socket_permitted args"
    by (auto simp: strict_filter_def errno_not_allow split: if_splits)
  have "d \<notin> set DENIED_SYSCALLS" if "resolve_syscall lib d = Some n" for d
    using lib_resolve_inj [OF lib that name(2)] name(1) strict_names_not_denied by blast
  then have "compat_filter lib DENIED_SYSCALLS EPERM n args = SCMP_ACT_ALLOW"
    by (auto simp: compat_filter_def)
  moreover have "socket_permitted args" if "resolve_syscall lib ''socket'' = Some n"
    using lib_resolve_inj [OF lib that name(2)] name(3) by simp
  ultimately show ?thesis using socket_permitted_kernel by blast
qed

section \<open>A reference library\<close>

text \<open>An implementation of the five entry points that does what the manual says, for evaluation.\<close>

type_synonym ref_ctx = "32 word \<times> (32 word \<times> int \<times> scmp_arg_cmp list) list"

fun ref_filter :: "ref_ctx \<Rightarrow> syscall_filter" where
  "ref_filter (d, rules) = foldr (\<lambda>(action, number, cmps) f. with_rule f action number cmps) rules (\<lambda>_ _. d)"

fun position :: "string \<Rightarrow> string list \<Rightarrow> int" where
  "position x [] = - 1"
| "position x (y # ys) = (if x = y then 0 else let p = position x ys in if p < 0 then - 1 else p + 1)"

definition ref_lib :: "string list \<Rightarrow> (ref_ctx, ref_ctx list) libseccomp" where
  "ref_lib table =
     \<lparr>scmp_init = (\<lambda>d. Some (d, [])),
      scmp_resolve = (\<lambda>name. position name table),
      scmp_rule_add = (\<lambda>(d, rules) action number cmps. (0, (d, (action, number, cmps) # rules))),
      scmp_load = (\<lambda>c k. (0, c # k)),
      scmp_release = (\<lambda>c k. k),
      scmp_errorcode = (\<lambda>_. ''UNKNOWN'')\<rparr>"

lemma position_nth: "0 \<le> position x ys \<Longrightarrow> nat (position x ys) < length ys \<and> ys ! nat (position x ys) = x"
  by (induction ys) (auto simp: Let_def nat_add_distrib split: if_splits)

lemma ref_resolve_inj:
  "position a table = position b table \<Longrightarrow> 0 \<le> position a table \<Longrightarrow> a = b"
  by (metis position_nth)

lemma ref_lib_simps:
  "scmp_init (ref_lib table) d = Some (d, [])"
  "scmp_resolve (ref_lib table) name = position name table"
  "scmp_rule_add (ref_lib table) c action number cmps = (0, (fst c, (action, number, cmps) # snd c))"
  "scmp_load (ref_lib table) c k = (0, c # k)"
  "scmp_release (ref_lib table) c k = k"
  by (simp_all add: ref_lib_def case_prod_beta)

lemma ref_lib_documented: "lib_documented (ref_lib table) ref_filter (map ref_filter)"
proof -
  have "ref_filter (fst c, (action, number, cmps) # snd c) = with_rule (ref_filter c) action number cmps"
    for c action number cmps by (cases c) simp
  then show ?thesis
    unfolding lib_documented_def ref_lib_simps by (simp add: ref_resolve_inj)
qed

definition sample_table :: "string list" where
  "sample_table = [''read'', ''socket'', ''mount'', ''ptrace'']"

lemma sample_install:
  "install_bull_seccomp plain_lib (ref_lib sample_table) ''strict'' DENIED_SYSCALLS STRICT_ALLOWED_SYSCALLS EPERM [] =
     (Inr ([''read''] @ map (snd \<circ> snd) socket_rules),
      [(SCMP_ACT_ERRNO EPERM, rev ((SCMP_ACT_ALLOW, 0, []) # map (\<lambda>r. (SCMP_ACT_ALLOW, 1, fst r)) socket_rules))])"
  by code_simp

theorem install_seccomp_exact_witness:
  "map ref_filter (snd (install_bull_seccomp plain_lib (ref_lib sample_table) ''strict'' DENIED_SYSCALLS
      STRICT_ALLOWED_SYSCALLS EPERM [])) = [strict_filter (ref_lib sample_table) STRICT_ALLOWED_SYSCALLS EPERM]"
  using install_seccomp_exact [OF ref_lib_documented sample_install] by (auto simp: strict_text sample_install)

theorem strict_tighter_than_compat_witness:
  "compat_filter (ref_lib sample_table) DENIED_SYSCALLS EPERM 1 [10, 0x80802, 0, 0, 0, 0] = SCMP_ACT_ALLOW
   \<and> kernel_int 10 = 10 \<and> kernel_int 0x80802 AND 0xF = 2"
proof -
  have "hd (map ref_filter (snd (install_bull_seccomp plain_lib (ref_lib sample_table) ''strict''
      DENIED_SYSCALLS STRICT_ALLOWED_SYSCALLS EPERM []))) 1 [10, 0x80802, 0, 0, 0, 0] = SCMP_ACT_ALLOW"
    unfolding sample_install snd_conv by code_simp
  from strict_tighter_than_compat [OF ref_lib_documented sample_install this [unfolded sample_install snd_conv]]
  have "compat_filter (ref_lib sample_table) DENIED_SYSCALLS EPERM 1 [10, 0x80802, 0, 0, 0, 0] = SCMP_ACT_ALLOW" ..
  then show ?thesis by (simp add: kernel_int_def)
qed

end
