(* ===== verification/Microvm_Protocol.thy ===== *)
theory Microvm_Protocol
  imports Anchor_Service Hardware_Protocol
begin

text \<open>
  The control channel between the host and the guest of one MicroVM session,
  \<^verbatim>\<open>src/bulldog/microvm_protocol.py\<close>. Channel state is the record \<open>channel\<close>; \<open>send\<close> and \<open>receive\<close>
  are the public operations with their fail-stop wrapper, \<open>send_frame\<close> and \<open>receive_frame\<close> the bodies.
  The file descriptor is non-blocking: what one call of \<open>_transfer\<close> sees of it is a list of events
  (deadline reached, not ready, would block, some bytes moved); an exhausted list is the deadline.
  The JSON parser is the argument \<open>parse\<close>.

  The lemmas show that a transfer is insensitive to how the bytes are cut into chunks, that a channel
  never works again after its first failure, that execution authority crosses it at most once, and
  that the payloads one side accepts are a prefix of what the other side sent: no replay, reordering,
  reflection or gap.
\<close>

section \<open>State\<close>

record channel =
  ch_session :: string
  ch_key :: string
  ch_side :: string
  ch_timeout :: rat
  ch_sent :: int
  ch_received :: int
  ch_failed :: bool
  ch_executed :: bool

definition new_channel :: "string \<Rightarrow> string \<Rightarrow> string \<Rightarrow> rat \<Rightarrow> channel res" where
  "new_channel session key side timeout =
     (if \<not> hex64 session \<or> length key < 32 then anchor_error ''invalid control session identity''
      else if side \<notin> {''host'', ''guest''} \<or> \<not> (0 < timeout \<and> timeout \<le> 120)
        then anchor_error ''invalid control channel configuration''
      else Inr \<lparr>ch_session = session, ch_key = key, ch_side = side, ch_timeout = timeout,
                ch_sent = 0, ch_received = 0, ch_failed = False, ch_executed = False\<rparr>)"

section \<open>Transfers\<close>

datatype write_event = W_Deadline | W_Not_Ready | W_Would_Block | W_Count nat

datatype read_event = R_Deadline | R_Not_Ready | R_Would_Block | R_Chunk string

text \<open>\<open>_transfer(data=...)\<close>: the bytes that left, and the outcome.\<close>

fun transfer_write :: "write_event list \<Rightarrow> string \<Rightarrow> unit res \<times> string" where
  "transfer_write evs [] = (Inr (), [])"
| "transfer_write [] (c # data) = (anchor_error ''control deadline exceeded'', [])"
| "transfer_write (W_Deadline # evs) (c # data) = (anchor_error ''control deadline exceeded'', [])"
| "transfer_write (W_Not_Ready # evs) (c # data) = (anchor_error ''control deadline exceeded'', [])"
| "transfer_write (W_Would_Block # evs) (c # data) = transfer_write evs (c # data)"
| "transfer_write (W_Count n # evs) (c # data) =
     (if n = 0 then (anchor_error ''control channel disconnected'', [])
      else let (r, out) = transfer_write evs (drop n (c # data)) in (r, take n (c # data) @ out))"

text \<open>
  \<open>_transfer(length=...)\<close>: the bytes read and the events left. The kernel returns at most the number
  of bytes asked for and keeps the rest.
\<close>

fun transfer_read :: "read_event list \<Rightarrow> nat \<Rightarrow> (string \<times> read_event list) res" where
  "transfer_read evs 0 = Inr ([], evs)"
| "transfer_read [] (Suc n) = anchor_error ''control deadline exceeded''"
| "transfer_read (R_Deadline # evs) (Suc n) = anchor_error ''control deadline exceeded''"
| "transfer_read (R_Not_Ready # evs) (Suc n) = anchor_error ''control deadline exceeded''"
| "transfer_read (R_Would_Block # evs) (Suc n) = transfer_read evs (Suc n)"
| "transfer_read (R_Chunk s # evs) (Suc n) =
     (if s = [] then anchor_error ''control channel disconnected''
      else if length s > Suc n then Inr (take (Suc n) s, R_Chunk (drop (Suc n) s) # evs)
      else case transfer_read evs (Suc n - length s) of
             Inl e \<Rightarrow> Inl e
           | Inr (rest, evs') \<Rightarrow> Inr (s @ rest, evs'))"

section \<open>Sending\<close>

definition CONTROL_KINDS :: "string set" where
  "CONTROL_KINDS = {''ready'', ''execute'', ''result'', ''error''}"

definition control_body :: "channel \<Rightarrow> string \<Rightarrow> jobj \<Rightarrow> jobj" where
  "control_body ch kind payload =
     [(''version'', JInt 1), (''session'', JStr (ch_session ch)), (''sequence'', JInt (ch_sent ch + 1)),
      (''kind'', JStr kind), (''payload'', JObj payload)]"

definition control_message :: "pylib \<Rightarrow> channel \<Rightarrow> string \<Rightarrow> jobj \<Rightarrow> jobj" where
  "control_message L ch kind payload =
     authenticate L (control_body ch kind payload) (ch_key ch) (''control-'' @ ch_side ch)"

definition send_frame ::
  "pylib \<Rightarrow> write_event list \<Rightarrow> string \<Rightarrow> jobj \<Rightarrow> channel \<Rightarrow> unit res \<times> string \<times> channel" where
  "send_frame L evs kind payload ch =
     (if kind = ''execute'' \<and> (ch_side ch \<noteq> ''host'' \<or> ch_executed ch)
        then (anchor_error ''one-shot execution authority already used or wrong direction'', [], ch)
      else if kind \<notin> CONTROL_KINDS then (anchor_error ''unsupported control operation'', [], ch)
      else let encoded = canonical L (control_message L ch kind payload) in
        if int (length encoded) > MAX_FRAME then (anchor_error ''control frame exceeds limit'', [], ch)
        else (case transfer_write evs (be_bytes 4 (length encoded) @ encoded) of
                (Inl e, out) \<Rightarrow> (Inl e, out, ch)
              | (Inr _, out) \<Rightarrow>
                  (Inr (), out, ch\<lparr>ch_sent := ch_sent ch + 1, ch_executed := ch_executed ch \<or> kind = ''execute''\<rparr>)))"

definition send :: "pylib \<Rightarrow> write_event list \<Rightarrow> string \<Rightarrow> jobj \<Rightarrow> channel \<Rightarrow> unit res \<times> string \<times> channel" where
  "send L evs kind payload ch =
     (if ch_failed ch then (anchor_error ''control channel is unusable after failure'', [], ch)
      else case send_frame L evs kind payload ch of
        (Inl e, out, ch') \<Rightarrow> (Inl e, out, ch'\<lparr>ch_failed := True\<rparr>)
      | (Inr u, out, ch') \<Rightarrow> (Inr u, out, ch'))"

section \<open>Receiving\<close>

definition peer_of :: "channel \<Rightarrow> string" where
  "peer_of ch = (if ch_side ch = ''host'' then ''guest'' else ''host'')"

definition control_fields :: "string set" where
  "control_fields = {''version'', ''session'', ''sequence'', ''kind'', ''payload'', ''mac''}"

text \<open>Membership in a Python set hashes its operand: lists and dictionaries raise.\<close>

definition kind_in :: "json \<Rightarrow> string set \<Rightarrow> bool res" where
  "kind_in j S = (case j of JStr s \<Rightarrow> Inr (s \<in> S) | JArr _ \<Rightarrow> raise TypeError ''unhashable type''
                          | JObj _ \<Rightarrow> raise TypeError ''unhashable type'' | _ \<Rightarrow> Inr False)"

definition control_content :: "string \<Rightarrow> json \<Rightarrow> json \<Rightarrow> (string \<times> jobj) res" where
  "control_content expected kind payload =
     (case kind_in kind {expected, ''error''} of
        Inl e \<Rightarrow> Inl e
      | Inr known \<Rightarrow>
          (case (known, kind, payload) of
             (True, JStr k, JObj p) \<Rightarrow> Inr (k, p)
           | _ \<Rightarrow> anchor_error ''unexpected control message or session/sequence mismatch''))"

definition check_control :: "channel \<Rightarrow> string \<Rightarrow> jobj \<Rightarrow> (string \<times> jobj) res" where
  "check_control ch expected m =
     (if fst ` set m \<noteq> control_fields \<or> jget m ''version'' \<noteq> JInt 1 \<or> jget m ''session'' \<noteq> JStr (ch_session ch)
         \<or> jget m ''sequence'' \<noteq> JInt (ch_received ch + 1)
      then anchor_error ''unexpected control message or session/sequence mismatch''
      else control_content expected (jget m ''kind'') (jget m ''payload''))"

definition remote_error :: "pylib \<Rightarrow> jobj \<Rightarrow> 'a res" where
  "remote_error L payload =
     raise RemoteSessionError (''guest session failed: '' @
       (case dict_get payload ''type'' of None \<Rightarrow> ''unknown'' | Some v \<Rightarrow> str_of_json L v) @ '': '' @
       (case dict_get payload ''detail'' of None \<Rightarrow> [] | Some v \<Rightarrow> str_of_json L v))"

text \<open>From the decoded message on: authentication, the field checks, the counters.\<close>

definition take_message :: "pylib \<Rightarrow> string \<Rightarrow> jobj \<Rightarrow> channel \<Rightarrow> jobj res \<times> channel" where
  "take_message L expected m ch =
     (case verify_mac L m (ch_key ch) (''control-'' @ peer_of ch) of
        Inl e \<Rightarrow> (Inl e, ch)
      | Inr _ \<Rightarrow>
     (case check_control ch expected m of
        Inl e \<Rightarrow> (Inl e, ch)
      | Inr (kind, payload) \<Rightarrow>
          (if kind = ''error'' \<and> expected \<noteq> ''error'' then remote_error L payload else Inr payload,
           ch\<lparr>ch_received := ch_received ch + 1, ch_executed := ch_executed ch \<or> kind = ''execute''\<rparr>)))"

text \<open>The framing: four bytes of length, the frame, its JSON.\<close>

definition read_message :: "(string \<Rightarrow> json option) \<Rightarrow> read_event list \<Rightarrow> (jobj \<times> read_event list) res" where
  "read_message parse evs =
     (case transfer_read evs 4 of
        Inl e \<Rightarrow> Inl e
      | Inr (header, evs1) \<Rightarrow>
          let n = be_val header in
          if \<not> (0 < n \<and> int n \<le> MAX_FRAME) then anchor_error ''invalid control frame length''
          else (case transfer_read evs1 n of
             Inl e \<Rightarrow> Inl e
           | Inr (raw, evs2) \<Rightarrow>
               (case decode \<lparr>wf_length = int (length raw), wf_value = parse raw\<rparr> of
                  Inl e \<Rightarrow> Inl e
                | Inr m \<Rightarrow> Inr (m, evs2))))"

definition receive_frame ::
  "pylib \<Rightarrow> (string \<Rightarrow> json option) \<Rightarrow> read_event list \<Rightarrow> string \<Rightarrow> channel
     \<Rightarrow> jobj res \<times> read_event list \<times> channel" where
  "receive_frame L parse evs expected ch =
     (if expected = ''execute'' \<and> (ch_side ch \<noteq> ''guest'' \<or> ch_executed ch)
        then (anchor_error ''one-shot execution authority already used or wrong direction'', [], ch)
      else case read_message parse evs of
        Inl e \<Rightarrow> (Inl e, [], ch)
      | Inr (m, rest) \<Rightarrow> let (r, ch') = take_message L expected m ch in (r, rest, ch'))"

text \<open>After a failure the descriptor is not read again; the events left are then not recorded.\<close>

definition receive ::
  "pylib \<Rightarrow> (string \<Rightarrow> json option) \<Rightarrow> read_event list \<Rightarrow> string \<Rightarrow> channel
     \<Rightarrow> jobj res \<times> read_event list \<times> channel" where
  "receive L parse evs expected ch =
     (if ch_failed ch then (anchor_error ''control channel is unusable after failure'', [], ch)
      else case receive_frame L parse evs expected ch of
        (Inl e, rest, ch') \<Rightarrow> (Inl e, rest, ch'\<lparr>ch_failed := True\<rparr>)
      | (Inr p, rest, ch') \<Rightarrow> (Inr p, rest, ch'))"

section \<open>A channel in use\<close>

datatype channel_op =
    Send "write_event list" string jobj
  | Receive "read_event list" string

datatype channel_out =
    Sent string jobj
  | Got string jobj
  | Failed exn

fun channel_step :: "pylib \<Rightarrow> (string \<Rightarrow> json option) \<Rightarrow> channel_op \<Rightarrow> channel \<Rightarrow> channel_out \<times> channel" where
  "channel_step L parse (Send evs kind payload) ch =
     (case send L evs kind payload ch of
        (Inl e, _, ch') \<Rightarrow> (Failed e, ch') | (Inr _, _, ch') \<Rightarrow> (Sent kind payload, ch'))"
| "channel_step L parse (Receive evs expected) ch =
     (case receive L parse evs expected ch of
        (Inl e, _, ch') \<Rightarrow> (Failed e, ch') | (Inr p, _, ch') \<Rightarrow> (Got expected p, ch'))"

section \<open>Transfers move exactly the bytes\<close>

lemma transfer_write_ok: "transfer_write evs data = (Inr u, out) \<Longrightarrow> out = data"
proof (induction evs data arbitrary: u out rule: transfer_write.induct)
  case (6 n evs c data)
  obtain r out' where rest: "transfer_write evs (drop n (c # data)) = (r, out')" by fastforce
  with "6.prems" have "n \<noteq> 0" "r = Inr u" "out = take n (c # data) @ out'" by (auto split: if_splits)
  with "6.IH" [of u out'] rest show ?case by (simp del: drop_Suc_Cons take_Suc_Cons)
qed simp_all

lemma transfer_write_prefix: "prefix (snd (transfer_write evs data)) data"
proof (induction evs data rule: transfer_write.induct)
  case (6 n evs c data)
  show ?case
  proof (cases "n = 0")
    case False
    with 6 have "prefix (snd (transfer_write evs (drop n (c # data)))) (drop n (c # data))" by blast
    then obtain zs where "drop n (c # data) = snd (transfer_write evs (drop n (c # data))) @ zs" by (auto elim: prefixE)
    then have "c # data = (take n (c # data) @ snd (transfer_write evs (drop n (c # data)))) @ zs"
      by (metis append.assoc append_take_drop_id)
    with False show ?thesis by (simp add: case_prod_beta prefix_def del: drop_Suc_Cons take_Suc_Cons) metis
  qed simp
qed simp_all

text \<open>The bytes that a script of read events delivers.\<close>

fun stream_of :: "read_event list \<Rightarrow> string" where
  "stream_of [] = []"
| "stream_of (R_Chunk s # evs) = s @ stream_of evs"
| "stream_of (e # evs) = stream_of evs"

definition flowing :: "read_event list \<Rightarrow> bool" where
  "flowing evs \<longleftrightarrow> list_all (\<lambda>e. case e of R_Would_Block \<Rightarrow> True | R_Chunk s \<Rightarrow> s \<noteq> [] | _ \<Rightarrow> False) evs"

lemma transfer_read_ok:
  "flowing evs \<Longrightarrow> n \<le> length (stream_of evs) \<Longrightarrow>
     \<exists>evs'. transfer_read evs n = Inr (take n (stream_of evs), evs') \<and> flowing evs' \<and> stream_of evs' = drop n (stream_of evs)"
proof (induction evs n rule: transfer_read.induct)
  case (6 s evs n)
  from "6.prems" have s: "s \<noteq> []" and fl: "flowing evs" by (auto simp: flowing_def)
  show ?case
  proof (cases "length s > Suc n")
    case True
    with s fl show ?thesis by (auto simp: flowing_def)
  next
    case False
    with "6.prems" have "Suc n - length s \<le> length (stream_of evs)" by simp
    from "6.IH" [OF s False fl this] obtain evs' where
      "transfer_read evs (Suc n - length s) = Inr (take (Suc n - length s) (stream_of evs), evs')"
      "flowing evs'" "stream_of evs' = drop (Suc n - length s) (stream_of evs)" by blast
    with False s show ?thesis by simp
  qed
qed (auto simp: flowing_def)

section \<open>Fail-stop and one-shot execution\<close>

lemma send_cases:
  assumes "send L evs kind payload ch = (r, out, ch')"
  shows "case r of
           Inl _ \<Rightarrow> ch_failed ch' \<and> (ch' = ch \<or> ch' = ch\<lparr>ch_failed := True\<rparr>)
         | Inr _ \<Rightarrow> \<not> ch_failed ch \<and> kind \<in> CONTROL_KINDS \<and> (kind = ''execute'' \<longrightarrow> ch_side ch = ''host'' \<and> \<not> ch_executed ch)
             \<and> out = be_bytes 4 (length (canonical L (control_message L ch kind payload)))
                       @ canonical L (control_message L ch kind payload)
             \<and> int (length (canonical L (control_message L ch kind payload))) \<le> MAX_FRAME
             \<and> ch' = ch\<lparr>ch_sent := ch_sent ch + 1, ch_executed := ch_executed ch \<or> kind = ''execute''\<rparr>"
proof (cases "ch_failed ch")
  case True
  with assms show ?thesis by (auto simp: send_def)
next
  case False
  let ?enc = "canonical L (control_message L ch kind payload)"
  obtain w o' where w: "transfer_write evs (be_bytes 4 (length ?enc) @ ?enc) = (w, o')" by fastforce
  with False assms transfer_write_ok [of evs "be_bytes 4 (length ?enc) @ ?enc" _ o'] show ?thesis
    by (cases w) (auto simp: send_def send_frame_def Let_def split: if_splits)
qed

text \<open>What a message must be for \<open>receive\<close> to take it.\<close>

definition accepted_message ::
  "pylib \<Rightarrow> channel \<Rightarrow> string \<Rightarrow> jobj \<Rightarrow> string \<Rightarrow> jobj \<Rightarrow> bool" where
  "accepted_message L ch expected m kind payload \<longleftrightarrow>
     distinct (map fst m) \<and> verify_mac L m (ch_key ch) (''control-'' @ peer_of ch) = Inr ()
     \<and> jget m ''session'' = JStr (ch_session ch) \<and> jget m ''sequence'' = JInt (ch_received ch + 1)
     \<and> jget m ''kind'' = JStr kind \<and> jget m ''payload'' = JObj payload \<and> kind \<in> {expected, ''error''}
     \<and> (expected = ''execute'' \<longrightarrow> ch_side ch = ''guest'' \<and> \<not> ch_executed ch)"

lemma control_content_Inr:
  assumes "control_content expected j p = Inr (kind, payload)"
  shows "j = JStr kind \<and> p = JObj payload \<and> kind \<in> {expected, ''error''}"
proof (cases j)
  case (JStr s)
  with assms show ?thesis
    by (cases "s \<in> {expected, ''error''}"; cases p) (simp_all add: control_content_def kind_in_def)
qed (use assms in \<open>simp_all add: control_content_def kind_in_def\<close>)

lemma check_control_Inr:
  assumes "check_control ch expected m = Inr (kind, payload)"
  shows "jget m ''session'' = JStr (ch_session ch) \<and> jget m ''sequence'' = JInt (ch_received ch + 1)
     \<and> control_content expected (jget m ''kind'') (jget m ''payload'') = Inr (kind, payload)"
  using assms by (simp add: check_control_def split: if_splits)

lemma take_message_cases:
  assumes "take_message L expected m ch = (r, ch')" and m: "distinct (map fst m)"
    and guard: "\<not> (expected = ''execute'' \<and> (ch_side ch \<noteq> ''guest'' \<or> ch_executed ch))"
  shows "(ch' = ch \<and> (\<exists>e. r = Inl e))
       \<or> (\<exists>kind payload. accepted_message L ch expected m kind payload
            \<and> ch' = ch\<lparr>ch_received := ch_received ch + 1, ch_executed := ch_executed ch \<or> kind = ''execute''\<rparr>
            \<and> (if kind = ''error'' \<and> expected \<noteq> ''error'' then \<exists>e. r = Inl e else r = Inr payload))"
proof (cases "verify_mac L m (ch_key ch) (''control-'' @ peer_of ch)")
  case (Inl e)
  with assms(1) show ?thesis by (auto simp: take_message_def)
next
  case mac: (Inr u)
  show ?thesis
  proof (cases "check_control ch expected m")
    case (Inl e)
    with mac assms(1) show ?thesis by (auto simp: take_message_def)
  next
    case (Inr q)
    obtain kind payload where q: "q = (kind, payload)" by fastforce
    from check_control_Inr [OF Inr [unfolded q]] control_content_Inr [of expected _ _ kind payload] mac m guard
    have "accepted_message L ch expected m kind payload" by (auto simp: accepted_message_def)
    moreover from assms(1) mac Inr q have
      "ch' = ch\<lparr>ch_received := ch_received ch + 1, ch_executed := ch_executed ch \<or> kind = ''execute''\<rparr>
       \<and> r = (if kind = ''error'' \<and> expected \<noteq> ''error'' then remote_error L payload else Inr payload)"
      by (simp add: take_message_def)
    ultimately show ?thesis by (auto simp: remote_error_def)
  qed
qed

lemma read_message_distinct: "read_message parse evs = Inr (m, rest) \<Longrightarrow> distinct (map fst m)"
  by (auto simp: read_message_def Let_def dest: decode_distinct split: sum.splits prod.splits if_splits)

lemma receive_cases:
  assumes "receive L parse evs expected ch = (r, rest, ch')"
  shows "(\<exists>e. r = Inl e \<and> ch_failed ch' \<and> ch_executed ch \<le> ch_executed ch')
       \<or> \<not> ch_failed ch \<and> (\<exists>m payload. read_message parse evs = Inr (m, rest)
            \<and> accepted_message L ch expected m expected payload \<and> r = Inr payload
            \<and> ch' = ch\<lparr>ch_received := ch_received ch + 1, ch_executed := ch_executed ch \<or> expected = ''execute''\<rparr>)"
proof (cases "ch_failed ch \<or> expected = ''execute'' \<and> (ch_side ch \<noteq> ''guest'' \<or> ch_executed ch)")
  case True
  with assms show ?thesis by (auto simp: receive_def receive_frame_def split: if_splits)
next
  case False
  show ?thesis
  proof (cases "read_message parse evs")
    case (Inl e)
    with False assms show ?thesis by (auto simp: receive_def receive_frame_def split: if_splits)
  next
    case (Inr q)
    obtain m rest1 where q: "q = (m, rest1)" by fastforce
    obtain r1 ch1 where t: "take_message L expected m ch = (r1, ch1)" by fastforce
    have rr: "(r, rest, ch') = (case r1 of Inl e \<Rightarrow> (Inl e, rest1, ch1\<lparr>ch_failed := True\<rparr>) | Inr p \<Rightarrow> (Inr p, rest1, ch1))"
      using False assms Inr q t by (auto simp: receive_def receive_frame_def split: sum.splits if_splits)
    from take_message_cases [OF t read_message_distinct [OF Inr [unfolded q]]] False consider
        (fail) e where "r1 = Inl e" "ch_executed ch \<le> ch_executed ch1"
      | (ok) kind payload where "accepted_message L ch expected m kind payload" "r1 = Inr payload"
          "kind = ''error'' \<longrightarrow> expected = ''error''"
          "ch1 = ch\<lparr>ch_received := ch_received ch + 1, ch_executed := ch_executed ch \<or> kind = ''execute''\<rparr>"
      by (auto split: if_splits)
    then show ?thesis
    proof cases
      case fail
      with rr show ?thesis by auto
    next
      case ok
      then have "kind = expected" by (auto simp: accepted_message_def)
      with ok rr False Inr q show ?thesis by auto
    qed
  qed
qed

lemma send_failed_state:
  "send L evs kind payload ch = (r, out, ch') \<Longrightarrow>
     ch_received ch' = ch_received ch \<and> ch_executed ch \<le> ch_executed ch'"
  using send_cases [of L evs kind payload ch r out ch'] by (cases r) auto

fun failed_out :: "channel_out \<Rightarrow> bool" where
  "failed_out (Failed _) = True"
| "failed_out _ = False"

fun execute_out :: "channel_out \<Rightarrow> bool" where
  "execute_out (Sent kind _) = (kind = ''execute'')"
| "execute_out (Got kind _) = (kind = ''execute'')"
| "execute_out (Failed _) = False"

lemma step_when_failed: "ch_failed ch \<Longrightarrow> \<exists>e. channel_step L parse op ch = (Failed e, ch)"
  by (cases op) (simp_all add: send_def receive_def)

lemma step_failed_state: "channel_step L parse op ch = (Failed e, ch') \<Longrightarrow> ch_failed ch'"
proof (cases op)
  case (Send evs kind payload)
  obtain r out ch1 where s: "send L evs kind payload ch = (r, out, ch1)" by (metis prod_cases3)
  assume "channel_step L parse op ch = (Failed e, ch')"
  with Send s send_cases [OF s] show ?thesis by (auto split: sum.splits)
next
  case (Receive evs expected)
  obtain r rest ch1 where s: "receive L parse evs expected ch = (r, rest, ch1)" by (metis prod_cases3)
  assume "channel_step L parse op ch = (Failed e, ch')"
  with Receive s receive_cases [OF s] show ?thesis by (auto split: sum.splits)
qed

lemma step_executed:
  assumes "channel_step L parse op ch = (o', ch')"
  shows "ch_executed ch \<longrightarrow> ch_executed ch'" and "execute_out o' \<longrightarrow> \<not> ch_executed ch \<and> ch_executed ch'"
proof -
  have "(ch_executed ch \<longrightarrow> ch_executed ch') \<and> (execute_out o' \<longrightarrow> \<not> ch_executed ch \<and> ch_executed ch')"
  proof (cases op)
    case (Send evs kind payload)
    obtain r out ch1 where s: "send L evs kind payload ch = (r, out, ch1)" by (metis prod_cases3)
    with assms Send send_cases [OF s] show ?thesis by (auto split: sum.splits)
  next
    case (Receive evs expected)
    obtain r rest ch1 where s: "receive L parse evs expected ch = (r, rest, ch1)" by (metis prod_cases3)
    with assms Receive receive_cases [OF s] show ?thesis by (auto simp: accepted_message_def split: sum.splits)
  qed
  then show "ch_executed ch \<longrightarrow> ch_executed ch'" and "execute_out o' \<longrightarrow> \<not> ch_executed ch \<and> ch_executed ch'"
    by blast+
qed

lemma run_when_failed: "ch_failed ch \<Longrightarrow> list_all failed_out (fst (run_ops (channel_step L parse) ops ch))"
proof (induction ops)
  case (Cons op ops)
  from step_when_failed [OF Cons.prems] obtain e where "channel_step L parse op ch = (Failed e, ch)" by blast
  with Cons show ?case by simp
qed simp


section \<open>In order, without gaps, replays or reflections\<close>

text \<open>A JSON value up to the order of its keys.\<close>

fun json_norm :: "json \<Rightarrow> json" where
  "json_norm (JArr vs) = JArr (map json_norm vs)"
| "json_norm (JObj kvs) = JObj (sort_key fst (map (\<lambda>(k, v). (k, json_norm v)) kvs))"
| "json_norm v = v"

lemma map_of_sort_key: "distinct (map fst d) \<Longrightarrow> map_of (sort_key fst d) = map_of d"
  by (subst map_of_inject_set) (auto simp: distinct_map)

lemma json_norm_get:
  assumes "distinct (map fst d)" and "distinct (map fst e)" and "json_norm (JObj d) = json_norm (JObj e)"
  shows "json_norm (jget d k) = json_norm (jget e k)"
proof -
  let ?n = "\<lambda>d. map (\<lambda>(k, v). (k, json_norm v)) d"
  have keys: "map fst (?n d) = map fst d" for d by (induction d) auto
  have get: "map_of (sort_key fst (?n d)) k = map_option json_norm (map_of d k)" if "distinct (map fst d)" for d
  proof -
    from that have "distinct (map fst (?n d))" unfolding keys .
    then show ?thesis by (simp only: map_of_sort_key dict_get_map_values)
  qed
  from assms(3) have "sort_key fst (?n d) = sort_key fst (?n e)" by simp
  with get [OF assms(1)] get [OF assms(2)] have "map_option json_norm (map_of d k) = map_option json_norm (map_of e k)"
    by simp
  then show ?thesis by (cases "map_of d k"; cases "map_of e k") (simp_all add: jget_def)
qed

lemma json_norm_atom: "json_norm v = JInt i \<longleftrightarrow> v = JInt i" "json_norm v = JStr s \<longleftrightarrow> v = JStr s"
  by (cases v; simp)+

lemma jget_body_of: "k \<noteq> ''mac'' \<Longrightarrow> jget (body_of m) k = jget m k"
  by (induction m) (auto simp: jget_def body_of_def)

lemma distinct_body_of: "distinct (map fst m) \<Longrightarrow> distinct (map fst (body_of m))"
  by (simp add: body_of_def distinct_map_filter)

lemma control_body_simps:
  "distinct (map fst (control_body c kind payload))"
  "jget (control_body c kind payload) ''sequence'' = JInt (ch_sent c + 1)"
  "jget (control_body c kind payload) ''kind'' = JStr kind"
  "jget (control_body c kind payload) ''payload'' = JObj payload"
  by (simp_all add: control_body_def jget_def)

text \<open>
  Every message that a side authenticates, with the channel state at that moment: sends that pass
  the guards of \<open>send\<close>, whether or not all their bytes leave.
\<close>

fun attempt :: "channel_op \<Rightarrow> channel \<Rightarrow> (channel \<times> string \<times> jobj) list" where
  "attempt (Send evs kind payload) ch =
     (if \<not> ch_failed ch \<and> kind \<in> CONTROL_KINDS \<and> (kind = ''execute'' \<longrightarrow> ch_side ch = ''host'' \<and> \<not> ch_executed ch)
      then [(ch, kind, payload)] else [])"
| "attempt (Receive evs expected) ch = []"

fun attempts ::
  "pylib \<Rightarrow> (string \<Rightarrow> json option) \<Rightarrow> channel_op list \<Rightarrow> channel \<Rightarrow> (channel \<times> string \<times> jobj) list" where
  "attempts L parse [] ch = []"
| "attempts L parse (op # ops) ch = attempt op ch @ attempts L parse ops (snd (channel_step L parse op ch))"

text \<open>The messages that the other side decodes, and the payloads it hands to its caller.\<close>

fun incoming :: "(string \<Rightarrow> json option) \<Rightarrow> channel_op list \<Rightarrow> jobj list" where
  "incoming parse [] = []"
| "incoming parse (Send evs kind payload # ops) = incoming parse ops"
| "incoming parse (Receive evs expected # ops) =
     (case read_message parse evs of Inl _ \<Rightarrow> [] | Inr (m, _) \<Rightarrow> [m]) @ incoming parse ops"

fun got :: "channel_out list \<Rightarrow> (string \<times> json) list" where
  "got [] = []"
| "got (Got kind payload # xs) = (kind, json_norm (JObj payload)) # got xs"
| "got (x # xs) = got xs"

definition sent_view :: "channel \<times> string \<times> jobj \<Rightarrow> string \<times> json" where
  "sent_view = (\<lambda>(c, kind, payload). (kind, json_norm (JObj payload)))"

lemma attempts_failed: "ch_failed ch \<Longrightarrow> attempts L parse ops ch = []"
proof (induction ops)
  case (Cons op ops)
  from step_when_failed [OF Cons.prems] obtain e where "channel_step L parse op ch = (Failed e, ch)" by blast
  with Cons show ?case by (cases op) simp_all
qed simp

lemma got_failed: "list_all failed_out xs \<Longrightarrow> got xs = []"
  by (induction xs rule: got.induct) auto

lemma step_send_count:
  assumes "channel_step L parse op ch = (x, ch')" and "\<not> ch_failed ch'"
  shows "ch_sent ch' = ch_sent ch + int (length (attempt op ch))"
proof (cases op)
  case (Send evs kind payload)
  obtain r out ch1 where s: "send L evs kind payload ch = (r, out, ch1)" by (metis prod_cases3)
  with assms Send send_cases [OF s] show ?thesis by (auto split: sum.splits)
next
  case (Receive evs expected)
  obtain r rest ch1 where s: "receive L parse evs expected ch = (r, rest, ch1)" by (metis prod_cases3)
  with assms Receive receive_cases [OF s] show ?thesis by (auto split: sum.splits)
qed

lemma attempts_numbered:
  "i < length (attempts L parse ops ch) \<Longrightarrow> ch_sent (fst (attempts L parse ops ch ! i)) = ch_sent ch + int i"
proof (induction ops arbitrary: ch i)
  case Nil
  then show ?case by simp
next
  case (Cons op ops)
  obtain x ch' where x: "channel_step L parse op ch = (x, ch')" by fastforce
  have "length (attempt op ch) \<le> 1" by (cases op) auto
  have one: "attempt op ch \<noteq> [] \<Longrightarrow> fst (attempt op ch ! 0) = ch" by (cases op) (auto split: if_splits)
  show ?case
  proof (cases "i < length (attempt op ch)")
    case True
    with \<open>length (attempt op ch) \<le> 1\<close> one show ?thesis by (cases i) (auto simp: nth_append)
  next
    case False
    with Cons.prems x have i: "i - length (attempt op ch) < length (attempts L parse ops ch')" by auto
    then have "\<not> ch_failed ch'" using attempts_failed [of ch' L parse ops] by auto
    with Cons.IH [OF i] step_send_count [OF x] False x show ?thesis by (simp add: nth_append)
  qed
qed

lemma got_prefix:
  assumes numbered: "\<And>i. i < length A \<Longrightarrow> ch_sent (fst (A ! i)) = int i"
    and authentic: "\<And>m. m \<in> set (incoming parse ops) \<Longrightarrow> verify_mac L m (ch_key ch) (''control-'' @ peer_of ch) = Inr ()
        \<Longrightarrow> \<exists>c kind payload. (c, kind, payload) \<in> set A
               \<and> json_norm (JObj (body_of m)) = json_norm (JObj (control_body c kind payload))"
    and "ch_received ch = int n"
  shows "prefix (got (fst (run_ops (channel_step L parse) ops ch))) (map sent_view (drop n A))"
  using authentic assms(3)
proof (induction ops arbitrary: ch n)
  case Nil
  then show ?case by simp
next
  case (Cons op ops)
  have rest: "\<exists>c kind payload. (c, kind, payload) \<in> set A
               \<and> json_norm (JObj (body_of m)) = json_norm (JObj (control_body c kind payload))"
    if "m \<in> set (incoming parse ops)" "verify_mac L m (ch_key ch) (''control-'' @ peer_of ch) = Inr ()" for m
    using Cons.prems(1) [of m] that by (cases op) auto
  show ?case
  proof (cases op)
    case (Send evs kind payload)
    obtain r out ch1 where s: "send L evs kind payload ch = (r, out, ch1)" by (metis prod_cases3)
    have same: "ch_key ch1 = ch_key ch" "peer_of ch1 = peer_of ch" "ch_received ch1 = int n"
      using send_cases [OF s] Cons.prems(2) by (cases r; auto simp: peer_of_def)+
    with Cons.IH [of ch1 n] rest Send s show ?thesis by (cases r) auto
  next
    case (Receive evs expected)
    obtain r rs ch1 where s: "receive L parse evs expected ch = (r, rs, ch1)" by (metis prod_cases3)
    from receive_cases [OF s] consider (fail) e where "r = Inl e" "ch_failed ch1"
      | (ok) m payload where "read_message parse evs = Inr (m, rs)" "accepted_message L ch expected m expected payload"
          "r = Inr payload"
          "ch1 = ch\<lparr>ch_received := ch_received ch + 1, ch_executed := ch_executed ch \<or> expected = ''execute''\<rparr>"
      by blast
    then show ?thesis
    proof cases
      case fail
      with Receive s run_when_failed [of ch1 L parse ops] show ?thesis by (simp add: got_failed)
    next
      case ok
      from ok(2) have m: "distinct (map fst m)" "verify_mac L m (ch_key ch) (''control-'' @ peer_of ch) = Inr ()"
        "jget m ''sequence'' = JInt (int n + 1)" "jget m ''kind'' = JStr expected" "jget m ''payload'' = JObj payload"
        using Cons.prems(2) by (auto simp: accepted_message_def)
      from Cons.prems(1) [OF _ m(2)] ok(1) Receive obtain c k p where
        A: "(c, k, p) \<in> set A" "json_norm (JObj (body_of m)) = json_norm (JObj (control_body c k p))" by auto
      note get = json_norm_get [OF distinct_body_of [OF m(1)] control_body_simps(1) A(2)]
      from get [of "''sequence''"] m(3) have seq: "ch_sent c = int n" by (simp add: jget_body_of control_body_simps)
      from get [of "''kind''"] m(4) have kind: "k = expected" by (simp add: jget_body_of control_body_simps)
      from get [of "''payload''"] m(5) have pay: "json_norm (JObj payload) = json_norm (JObj p)"
        by (simp only: jget_body_of control_body_simps) (simp add: jget_body_of)
      from A(1) obtain i where i: "i < length A" "A ! i = (c, k, p)" by (auto simp: in_set_conv_nth)
      with numbered [OF i(1)] seq have n: "n < length A" "A ! n = (c, k, p)" by simp_all
      have "prefix (got (fst (run_ops (channel_step L parse) ops ch1))) (map sent_view (drop (Suc n) A))"
        using Cons.IH [of ch1 "Suc n"] rest ok(4) Cons.prems(2) by (simp add: peer_of_def)
      moreover have "drop n A = (c, k, p) # drop (Suc n) A" using n by (metis Cons_nth_drop_Suc)
      ultimately show ?thesis using Receive s ok(3) kind pay by (simp add: sent_view_def)
    qed
  qed
qed

lemma new_channel_Inr:
  assumes "new_channel session key side t = Inr ch"
  shows "ch_session ch = session \<and> ch_key ch = key \<and> ch_side ch = side \<and> ch_sent ch = 0 \<and> ch_received ch = 0
         \<and> \<not> ch_failed ch \<and> side \<in> {''host'', ''guest''}"
proof -
  from assms have "side \<in> {''host'', ''guest''}" unfolding new_channel_def by (metis Inr_not_Inl)
  moreover from assms have "ch = \<lparr>ch_session = session, ch_key = key, ch_side = side, ch_timeout = t,
      ch_sent = 0, ch_received = 0, ch_failed = False, ch_executed = False\<rparr>"
    unfolding new_channel_def by (metis Inr_not_Inl sum.inject(2))
  ultimately show ?thesis by simp
qed

text \<open>
  C18. First in, first out, and only what the peer sent. Let two ends of a session run any sequences of
  operations. If every message that the receiving end decodes and that carries a valid code for the
  peer's direction was authenticated by the peer (which is what a message authentication code is for),
  then the payloads that the receiving end returns are, in order and up to key order in JSON objects, a
  prefix of the messages that the peer sent: nothing is replayed, reordered, skipped or reflected back.
\<close>

theorem channel_delivers_in_order:
  assumes h: "new_channel session key side t = Inr h"
    and g: "new_channel session key side' t' = Inr g" and "side \<noteq> side'"
    and authentic: "\<forall>m \<in> set (incoming parse gops). verify_mac L m key (''control-'' @ side) = Inr () \<longrightarrow>
        (\<exists>c kind payload. (c, kind, payload) \<in> set (attempts L parse hops h)
           \<and> json_norm (JObj (body_of m)) = json_norm (JObj (control_body c kind payload)))"
  shows "prefix (got (fst (run_ops (channel_step L parse) gops g))) (map sent_view (attempts L parse hops h))"
proof -
  have hs: "ch_sent h = 0" "side \<in> {''host'', ''guest''}" using new_channel_Inr [OF h] by simp_all
  have gs: "ch_received g = int 0" "ch_key g = key" "ch_side g = side'" "side' \<in> {''host'', ''guest''}"
    using new_channel_Inr [OF g] by simp_all
  have f: "ch_sent h = 0" "ch_received g = int 0" "ch_key g = key" "peer_of g = side"
    using hs gs \<open>side \<noteq> side'\<close> by (auto simp: peer_of_def)
  have "prefix (got (fst (run_ops (channel_step L parse) gops g))) (map sent_view (drop 0 (attempts L parse hops h)))"
  proof (rule got_prefix [OF _ _ f(2)])
    show "ch_sent (fst (attempts L parse hops h ! i)) = int i" if "i < length (attempts L parse hops h)" for i
      using attempts_numbered [OF that] f(1) by simp
  qed (use authentic f in simp)
  then show ?thesis by simp
qed

section \<open>What one end sends the other receives\<close>

abbreviation norm_obj :: "jobj \<Rightarrow> jobj" where
  "norm_obj d \<equiv> sort_key fst (map (\<lambda>(k, v). (k, json_norm v)) d)"

lemma insort_key_map_snd:
  "insort_key fst (k, f v) (map (\<lambda>(k, v). (k, f v)) xs) = map (\<lambda>(k, v). (k, f v)) (insort_key fst (k, v) xs)"
  by (induction xs) auto

lemma sort_key_map_snd: "sort_key fst (map (\<lambda>(k, v). (k, f v)) xs) = map (\<lambda>(k, v). (k, f v)) (sort_key fst xs)"
  by (induction xs) (auto simp: insort_key_map_snd)

lemma dumps_norm: "dumps L a b (json_norm v) = dumps L a b v"
proof (induction v rule: json_norm.induct)
  case (1 vs)
  then have "map (dumps L a b) (map json_norm vs) = map (dumps L a b) vs" by simp
  then show ?case by (simp only: json_norm.simps dumps.simps)
next
  case (2 kvs)
  have "sort_key fst (map (\<lambda>(k, v). (k, dumps L a b v)) (norm_obj kvs))
      = sort_key fst (sort_key fst (map (\<lambda>(k, v). (k, dumps L a b v)) (map (\<lambda>(k, v). (k, json_norm v)) kvs)))"
    by (simp only: sort_key_map_snd)
  also have "\<dots> = sort_key fst (map (\<lambda>(k, v). (k, dumps L a b (json_norm v))) kvs)"
    by (simp add: sort_key_id_if_sorted sorted_sort_key comp_def split_def)
  also have "map (\<lambda>(k, v). (k, dumps L a b (json_norm v))) kvs = map (\<lambda>(k, v). (k, dumps L a b v)) kvs"
    using 2 by (auto simp: snds.simps)
  finally show ?case by simp
qed simp_all

lemma mac_of_norm: "mac_of L (norm_obj d) key purpose = mac_of L d key purpose"
proof -
  have "body_of (norm_obj d) = norm_obj (body_of d)"
    by (simp add: body_of_def filter_sort filter_map comp_def split_def)
  moreover have "canonical L (norm_obj (body_of d)) = canonical L (body_of d)"
    using dumps_norm [of L "'',''" "'':''" "JObj (body_of d)"] by (simp add: canonical_def)
  ultimately show ?thesis by (simp add: mac_of_def)
qed

lemma dup_free_norm: "dup_free (json_norm v) = dup_free v"
proof (induction v rule: json_norm.induct)
  case (1 vs)
  then show ?case by (auto simp: list_all_iff)
next
  case (2 kvs)
  have keys: "map fst (map (\<lambda>(k, v). (k, json_norm v)) kvs) = map fst kvs" by (induction kvs) auto
  have "distinct (map fst (norm_obj kvs)) = distinct (map fst (map (\<lambda>(k, v). (k, json_norm v)) kvs))"
    by (simp only: distinct_map distinct_sort set_sort)
  with keys have "distinct (map fst (norm_obj kvs)) = distinct (map fst kvs)" by (simp only:)
  moreover have "list_all (\<lambda>(k, v). dup_free v) (norm_obj kvs) = list_all (\<lambda>(k, v). dup_free v) kvs"
    using 2 by (fastforce simp: list_all_iff snds.simps)
  ultimately show ?case by (simp only: json_norm.simps dup_free.simps)
qed simp_all

lemma jget_norm: "distinct (map fst d) \<Longrightarrow> jget (norm_obj d) k = json_norm (jget d k)"
proof -
  assume d: "distinct (map fst d)"
  have keys: "map fst (map (\<lambda>(k, v). (k, json_norm v)) d) = map fst d" by (induction d) auto
  with d have "distinct (map fst (map (\<lambda>(k, v). (k, json_norm v)) d))" by (simp only:)
  then show ?thesis
    by (simp only: jget_def map_of_sort_key dict_get_map_values) (cases "dict_get d k"; simp)
qed

lemma control_message_simps:
  "distinct (map fst (control_message L ch kind payload))"
  "fst ` set (control_message L ch kind payload) = control_fields"
  "jget (control_message L ch kind payload) ''version'' = JInt 1"
  "jget (control_message L ch kind payload) ''session'' = JStr (ch_session ch)"
  "jget (control_message L ch kind payload) ''sequence'' = JInt (ch_sent ch + 1)"
  "jget (control_message L ch kind payload) ''kind'' = JStr kind"
  "jget (control_message L ch kind payload) ''payload'' = JObj payload"
  "jget (control_message L ch kind payload) ''mac''
     = JStr (mac_of L (control_body ch kind payload) (ch_key ch) (''control-'' @ ch_side ch))"
  by (simp_all add: control_message_def authenticate_def body_of_def control_body_def control_fields_def jget_def)

lemma body_of_control_message: "body_of (control_message L ch kind payload) = control_body ch kind payload"
  by (simp add: control_message_def authenticate_def body_of_def control_body_def)

lemma take_sent_message:
  assumes peers: "ch_session g = ch_session h" "ch_key g = ch_key h" "peer_of g = ch_side h"
    and step: "ch_received g = ch_sent h"
    and mac: "ascii_text (mac_of L (control_body h kind payload) (ch_key h) (''control-'' @ ch_side h))"
  shows "take_message L kind (norm_obj (control_message L h kind payload)) g =
           (Inr (norm_obj payload), g\<lparr>ch_received := ch_received g + 1, ch_executed := ch_executed g \<or> kind = ''execute''\<rparr>)"
proof -
  let ?m = "control_message L h kind payload"
  have get: "jget (norm_obj ?m) k = json_norm (jget ?m k)" for k
    by (rule jget_norm [OF control_message_simps(1)])
  have keys: "fst ` set (norm_obj ?m) = control_fields"
    using control_message_simps(2) [of L h kind payload] by (force simp: image_iff)
  have "mac_of L ?m key purpose = mac_of L (control_body h kind payload) key purpose" for key purpose
    using body_of_control_message [of L h kind payload] body_of_control_message
    by (simp add: mac_of_def) (simp add: body_of_def control_body_def)
  then have "mac_of L (norm_obj ?m) (ch_key g) (''control-'' @ peer_of g)
      = mac_of L (control_body h kind payload) (ch_key h) (''control-'' @ ch_side h)"
    by (simp only: mac_of_norm peers)
  with mac have "verify_mac L (norm_obj ?m) (ch_key g) (''control-'' @ peer_of g) = Inr ()"
    unfolding verify_mac_def get by (simp add: control_message_simps compare_digest_def peers)
  moreover have "check_control g kind (norm_obj ?m) = Inr (kind, norm_obj payload)"
    unfolding check_control_def get keys
    by (simp add: control_message_simps peers step control_content_def kind_in_def)
  ultimately show ?thesis by (simp add: take_message_def)
qed

lemma read_sent_frame:
  assumes evs: "flowing evs" "stream_of evs = be_bytes 4 (length raw) @ raw @ later"
    and raw: "raw \<noteq> []" "int (length raw) \<le> MAX_FRAME"
    and parse: "parse raw = Some (JObj d)" "dup_free (JObj d)"
  shows "\<exists>rest. read_message parse evs = Inr (d, rest) \<and> flowing rest \<and> stream_of rest = later"
proof -
  obtain evs1 where r1: "transfer_read evs 4 = Inr (be_bytes 4 (length raw), evs1)"
    and e1: "flowing evs1" "stream_of evs1 = raw @ later"
    using transfer_read_ok [OF evs(1), of 4] evs(2) by auto
  obtain evs2 where r2: "transfer_read evs1 (length raw) = Inr (raw, evs2)"
    and e2: "flowing evs2" "stream_of evs2 = later"
    using transfer_read_ok [OF e1(1), of "length raw"] e1(2) by auto
  from raw have n: "be_val (be_bytes 4 (length raw)) = length raw" by (intro be_val_bytes) (simp add: MAX_FRAME_def)
  with r1 r2 e2 raw parse show ?thesis
    by (simp add: read_message_def decode_def Let_def)
qed

text \<open>
  What one end sends the other receives. If a \<open>send\<close> succeeded and the peer is in step, then
  \<open>receive\<close> on the bytes that left, however they are cut into chunks, returns the payload (up to key
  order), both counters agree again, and no byte of what follows is consumed. Of the JSON parser this
  uses that it inverts the encoder on this frame, and of the authentication code that it is ASCII.
\<close>

theorem channel_round_trip:
  assumes s: "send L evs kind payload h = (Inr u, out, h')"
    and peers: "ch_session g = ch_session h" "ch_key g = ch_key h" "peer_of g = ch_side h" "ch_side g \<in> {''host'', ''guest''}"
    and step: "ch_received g = ch_sent h" "\<not> ch_failed g" "kind = ''execute'' \<longrightarrow> \<not> ch_executed g"
    and stream: "flowing revs" "stream_of revs = out @ later"
    and parse: "parse (canonical L (control_message L h kind payload)) = Some (json_norm (JObj (control_message L h kind payload)))"
    and mac: "ascii_text (mac_of L (control_body h kind payload) (ch_key h) (''control-'' @ ch_side h))"
    and payload: "dup_free (JObj payload)"
  shows "\<exists>rest g'. receive L parse revs kind g = (Inr (norm_obj payload), rest, g') \<and> flowing rest \<and> stream_of rest = later
           \<and> ch_received g' = ch_sent h' \<and> \<not> ch_failed g'"
proof -
  let ?m = "control_message L h kind payload"
  from send_cases [OF s] have sent: "out = be_bytes 4 (length (canonical L ?m)) @ canonical L ?m"
    "int (length (canonical L ?m)) \<le> MAX_FRAME" "ch_sent h' = ch_sent h + 1"
    and host: "kind = ''execute'' \<longrightarrow> ch_side h = ''host''"
    by auto
  have "dup_free (JObj ?m)"
    using payload control_message_simps(1) [of L h kind payload]
    by (auto simp: control_message_def authenticate_def body_of_def control_body_def)
  then have "dup_free (JObj (norm_obj ?m))" using dup_free_norm [of "JObj ?m"] by simp
  moreover have "canonical L ?m \<noteq> []" by (simp add: canonical_def)
  ultimately obtain rest where rd: "read_message parse revs = Inr (norm_obj ?m, rest)" "flowing rest" "stream_of rest = later"
    using read_sent_frame [of revs "canonical L ?m" later parse "norm_obj ?m"] stream sent parse by auto
  have "kind = ''execute'' \<longrightarrow> ch_side g = ''guest''" using host peers by (auto simp: peer_of_def)
  with rd take_sent_message [OF peers(1-3) step(1) mac] step sent show ?thesis
    by (auto simp: receive_def receive_frame_def)
qed

section \<open>A session evaluated\<close>

definition demo_channel :: "string \<Rightarrow> channel" where
  "demo_channel side = \<lparr>ch_session = replicate 64 (CHR ''a''), ch_key = replicate 32 (CHR ''k''), ch_side = side,
     ch_timeout = 10, ch_sent = 0, ch_received = 0, ch_failed = False, ch_executed = False\<rparr>"

definition demo_channel_frame :: string where
  "demo_channel_frame = canonical plain_lib (control_message plain_lib (demo_channel ''host'') ''execute'' [(''argv'', JStr ''ls'')])"

definition demo_out :: string where
  "demo_out = be_bytes 4 (length demo_channel_frame) @ demo_channel_frame"

definition demo_parse :: "string \<Rightarrow> json option" where
  "demo_parse s = Some (json_norm (JObj (control_message plain_lib (demo_channel ''host'') ''execute'' [(''argv'', JStr ''ls'')])))"

lemma demo_channel_new: "new_channel (replicate 64 (CHR ''a'')) (replicate 32 (CHR ''k'')) ''host'' 10 = Inr (demo_channel ''host'')"
  "new_channel (replicate 64 (CHR ''a'')) (replicate 32 (CHR ''k'')) ''guest'' 10 = Inr (demo_channel ''guest'')"
  by (simp_all add: new_channel_def demo_channel_def hex64_def list_all_iff)

lemma transfer_write_once: "data \<noteq> [] \<Longrightarrow> transfer_write [W_Count (length data)] data = (Inr (), data)"
  by (cases data) simp_all

lemma demo_frame_size: "int (length demo_channel_frame) \<le> 65536"
  by code_simp

lemma demo_send:
  "send plain_lib [W_Count (length demo_out)] ''execute'' [(''argv'', JStr ''ls'')] (demo_channel ''host'') =
     (Inr (), demo_out, (demo_channel ''host'')\<lparr>ch_sent := 1, ch_executed := True\<rparr>)"
proof -
  have "demo_out \<noteq> []" by (simp add: demo_out_def demo_channel_frame_def canonical_def)
  from transfer_write_once [OF this] demo_frame_size show ?thesis
    unfolding send_def send_frame_def demo_channel_frame_def [symmetric] demo_out_def [symmetric] Let_def
    by (simp add: CONTROL_KINDS_def MAX_FRAME_def demo_channel_def)
qed

lemma demo_mac: "ascii_text (mac_of plain_lib d key purpose)"
  by (simp add: mac_of_def plain_lib_def ascii_text_def is_ascii_def list_all_iff)

theorem channel_round_trip_witness:
  "\<exists>rest g'. receive plain_lib demo_parse [R_Chunk demo_out] ''execute'' (demo_channel ''guest'')
     = (Inr [(''argv'', JStr ''ls'')], rest, g') \<and> ch_received g' = 1 \<and> \<not> ch_failed g'"
proof -
  have "demo_out \<noteq> []" by (simp add: demo_out_def demo_channel_frame_def canonical_def)
  then have "flowing [R_Chunk demo_out]" "stream_of [R_Chunk demo_out] = demo_out @ []" by (simp_all add: flowing_def)
  from channel_round_trip [OF demo_send, of "demo_channel ''guest''" "[R_Chunk demo_out]" "[]" demo_parse] this
  show ?thesis
    by (simp add: demo_mac demo_parse_def) (auto simp: demo_channel_def peer_of_def)
qed

theorem channel_delivers_in_order_witness:
  "prefix (got (fst (run_ops (channel_step plain_lib demo_parse) [Receive [R_Chunk demo_out] ''execute''] (demo_channel ''guest''))))
     [(''execute'', JObj [(''argv'', JStr ''ls'')])]"
proof -
  let ?m = "control_message plain_lib (demo_channel ''host'') ''execute'' [(''argv'', JStr ''ls'')]"
  let ?hops = "[Send [W_Count (length demo_out)] ''execute'' [(''argv'', JStr ''ls'')]]"
  have at: "attempts plain_lib demo_parse ?hops (demo_channel ''host'') = [(demo_channel ''host'', ''execute'', [(''argv'', JStr ''ls'')])]"
    by (simp add: demo_channel_def CONTROL_KINDS_def)
  have "json_norm (JObj (body_of (norm_obj ?m))) = json_norm (JObj (control_body (demo_channel ''host'') ''execute'' [(''argv'', JStr ''ls'')]))"
    by code_simp
  then have "\<forall>m \<in> set (incoming demo_parse [Receive [R_Chunk demo_out] ''execute'']).
      verify_mac plain_lib m (replicate 32 (CHR ''k'')) (''control-'' @ ''host'') = Inr () \<longrightarrow>
      (\<exists>c kind payload. (c, kind, payload) \<in> set (attempts plain_lib demo_parse ?hops (demo_channel ''host''))
         \<and> json_norm (JObj (body_of m)) = json_norm (JObj (control_body c kind payload)))"
    unfolding at by (auto simp: read_message_def decode_def demo_parse_def Let_def split: sum.splits prod.splits if_splits)
  from channel_delivers_in_order [OF demo_channel_new _ this] show ?thesis
    unfolding at by (simp add: sent_view_def)
qed

end
