(* ===== verification/Py_Regex.thy ===== *)
theory Py_Regex
  imports Py_Text
begin

text \<open>
  Python's \<open>re\<close> module as far as the repository uses it. A pattern is a value of \<open>rx\<close>: literals with
  the IGNORECASE flag, character classes, sequence, ordered choice, greedy counted repetition of a
  class, and the word boundary. Text is a list of code points. \<open>rmatch\<close> is the backtracking matcher in
  continuation style: the first way to match in Python's priority order whose continuation succeeds.
  \<open>rx_search\<close> and \<open>rx_findall\<close> scan for the leftmost and for all non-overlapping matches.

  \<open>matches\<close> is the declarative reading of a pattern, a relation between positions; the lemmas show
  that the matcher finds a match exactly when one exists.
\<close>

section \<open>Text as code points\<close>

type_synonym cps = "int list"

abbreviation cp :: "char \<Rightarrow> int" where
  "cp c \<equiv> of_char c"

definition point_len :: "char \<Rightarrow> nat" where
  "point_len c = (if cp c < 192 then 1 else if cp c < 224 then 2 else if cp c < 240 then 3 else 4)"

function points :: "string \<Rightarrow> cps" where
  "points [] = []"
| "points (c # s) =
     (let n = point_len c;
          top = (if n = 1 then cp c else if n = 2 then cp c mod 32 else if n = 3 then cp c mod 16 else cp c mod 8)
      in foldl (\<lambda>a b. 64 * a + cp b mod 64) top (take (n - 1) s) # points (drop (n - 1) s))"
  by pat_completeness auto
termination
  by (relation "measure length") (auto simp: less_Suc_eq_le)

definition utf8_point :: "int \<Rightarrow> string" where
  "utf8_point n =
     (if n < 128 then [char_of n]
      else if n < 2048 then map char_of [192 + n div 64, 128 + n mod 64]
      else if n < 65536 then map char_of [224 + n div 4096, 128 + n div 64 mod 64, 128 + n mod 64]
      else map char_of [240 + n div 262144, 128 + n div 4096 mod 64, 128 + n div 64 mod 64, 128 + n mod 64])"

definition text_of :: "cps \<Rightarrow> string" where
  "text_of xs = concat (map utf8_point xs)"

lemma cp_code: "cp c = int (code c)"
  by (cases c) (simp add: of_char_def)

lemma point_len_ascii: "is_ascii c \<Longrightarrow> point_len c = 1"
  by (simp add: is_ascii_def point_len_def cp_code)

lemma points_ascii: "ascii_text s \<Longrightarrow> points s = map cp s"
  by (induction s) (simp_all add: ascii_text_def point_len_ascii)

lemma text_of_points_ascii: "ascii_text s \<Longrightarrow> text_of (points s) = s"
proof -
  assume s: "ascii_text s"
  then have "concat (map utf8_point (map cp s)) = s"
    by (induction s) (simp_all add: ascii_text_def utf8_point_def is_ascii_def cp_code)
  with s show ?thesis by (simp add: text_of_def points_ascii)
qed

text \<open>Unicode white space, what \<open>\s\<close> and \<open>str.strip\<close> mean by it.\<close>

definition is_space_point :: "int \<Rightarrow> bool" where
  "is_space_point n \<longleftrightarrow>
     9 \<le> n \<and> n \<le> 13 \<or> 28 \<le> n \<and> n \<le> 32 \<or> n \<in> {133, 160, 5760, 8232, 8233, 8239, 8287, 12288} \<or> 8192 \<le> n \<and> n \<le> 8202"

text \<open>\<open>\w\<close>: ASCII letters, digits and the underscore, and what the Unicode table \<open>wd\<close> says beyond.\<close>

definition is_word_point :: "(int \<Rightarrow> bool) \<Rightarrow> int \<Rightarrow> bool" where
  "is_word_point wd n \<longleftrightarrow>
     (if n < 128 then 48 \<le> n \<and> n \<le> 57 \<or> 65 \<le> n \<and> n \<le> 90 \<or> 97 \<le> n \<and> n \<le> 122 \<or> n = 95 else wd n)"

section \<open>Patterns\<close>

datatype cclass =
    Any_But_Newline
  | Space
  | One_Of "(int \<times> int) list"
  | None_Of "(int \<times> int) list"
  | Ci int

text \<open>
  Under IGNORECASE a lower-case ASCII letter matches its two cases and the code points that Python's
  case tables put with it: dotted and dotless i, the long s and the Kelvin sign.
\<close>

definition ci_match :: "int \<Rightarrow> int \<Rightarrow> bool" where
  "ci_match c x \<longleftrightarrow>
     x = c \<or> 97 \<le> c \<and> c \<le> 122 \<and> (x = c - 32 \<or> c = 105 \<and> x \<in> {304, 305} \<or> c = 115 \<and> x = 383 \<or> c = 107 \<and> x = 8490)"

definition in_ranges :: "(int \<times> int) list \<Rightarrow> int \<Rightarrow> bool" where
  "in_ranges rs x \<longleftrightarrow> list_ex (\<lambda>(lo, hi). lo \<le> x \<and> x \<le> hi) rs"

fun cmatch :: "cclass \<Rightarrow> int \<Rightarrow> bool" where
  "cmatch Any_But_Newline x = (x \<noteq> 10)"
| "cmatch Space x = is_space_point x"
| "cmatch (One_Of rs) x = in_ranges rs x"
| "cmatch (None_Of rs) x = (\<not> in_ranges rs x)"
| "cmatch (Ci c) x = ci_match c x"

datatype rx =
    Empty
  | Cls cclass
  | Seq rx rx
  | Alt rx rx
  | Rep int "int option" cclass
  | Word_Boundary

abbreviation rx_opt :: "rx \<Rightarrow> rx" where
  "rx_opt r \<equiv> Alt r Empty"

abbreviation rx_spaces :: rx where
  "rx_spaces \<equiv> Rep 1 None Space"

abbreviation rx_spaces0 :: rx where
  "rx_spaces0 \<equiv> Rep 0 None Space"

definition rx_lit :: "string \<Rightarrow> rx" where
  "rx_lit s = foldr (\<lambda>c r. Seq (Cls (Ci (cp c))) r) s Empty"

definition rx_seq :: "rx list \<Rightarrow> rx" where
  "rx_seq rs = foldr Seq rs Empty"

fun rx_alts :: "rx list \<Rightarrow> rx" where
  "rx_alts [] = Rep 1 (Some 0) Space"
| "rx_alts [r] = r"
| "rx_alts (r # rs) = Alt r (rx_alts rs)"

section \<open>The matcher\<close>

text \<open>A position: the code point before it, if any, and the text after it.\<close>

type_synonym rpos = "int option \<times> cps"

definition rep_room :: "int option \<Rightarrow> bool" where
  "rep_room mx \<longleftrightarrow> (case mx of None \<Rightarrow> True | Some n \<Rightarrow> 0 < n)"

fun rep_match :: "cclass \<Rightarrow> int \<Rightarrow> int option \<Rightarrow> int option \<Rightarrow> cps \<Rightarrow> (rpos \<Rightarrow> 'a option) \<Rightarrow> 'a option" where
  "rep_match c mn mx pv [] k = (if mn \<le> 0 then k (pv, []) else None)"
| "rep_match c mn mx pv (x # xs) k =
     (let stop = (if mn \<le> 0 then k (pv, x # xs) else None) in
      if rep_room mx \<and> cmatch c x
      then (case rep_match c (mn - 1) (map_option (\<lambda>n. n - 1) mx) (Some x) xs k of Some r \<Rightarrow> Some r | None \<Rightarrow> stop)
      else stop)"

definition at_boundary :: "(int \<Rightarrow> bool) \<Rightarrow> rpos \<Rightarrow> bool" where
  "at_boundary wd p \<longleftrightarrow>
     (case fst p of None \<Rightarrow> False | Some x \<Rightarrow> is_word_point wd x)
     \<noteq> (case snd p of [] \<Rightarrow> False | x # _ \<Rightarrow> is_word_point wd x)"

fun rmatch :: "(int \<Rightarrow> bool) \<Rightarrow> rx \<Rightarrow> rpos \<Rightarrow> (rpos \<Rightarrow> 'a option) \<Rightarrow> 'a option" where
  "rmatch wd Empty p k = k p"
| "rmatch wd (Cls c) p k =
     (case snd p of [] \<Rightarrow> None | x # xs \<Rightarrow> if cmatch c x then k (Some x, xs) else None)"
| "rmatch wd (Seq a b) p k = rmatch wd a p (\<lambda>q. rmatch wd b q k)"
| "rmatch wd (Alt a b) p k = (case rmatch wd a p k of Some r \<Rightarrow> Some r | None \<Rightarrow> rmatch wd b p k)"
| "rmatch wd (Rep mn mx c) p k = rep_match c mn mx (fst p) (snd p) k"
| "rmatch wd Word_Boundary p k = (if at_boundary wd p then k p else None)"

text \<open>The leftmost match: the text of the match and the position behind it.\<close>

fun search_from :: "(int \<Rightarrow> bool) \<Rightarrow> rx \<Rightarrow> int option \<Rightarrow> cps \<Rightarrow> (cps \<times> rpos) option" where
  "search_from wd r pv [] = rmatch wd r (pv, []) (\<lambda>q. Some ([], q))"
| "search_from wd r pv (x # xs) =
     (case rmatch wd r (pv, x # xs) (\<lambda>q. Some (take (length (x # xs) - length (snd q)) (x # xs), q)) of
        Some m \<Rightarrow> Some m
      | None \<Rightarrow> search_from wd r (Some x) xs)"

definition rx_search :: "(int \<Rightarrow> bool) \<Rightarrow> rx \<Rightarrow> cps \<Rightarrow> cps option" where
  "rx_search wd r s = map_option fst (search_from wd r None s)"

text \<open>All non-overlapping matches from left to right, for patterns that never match the empty text.\<close>

function findall_from :: "(int \<Rightarrow> bool) \<Rightarrow> rx \<Rightarrow> int option \<Rightarrow> cps \<Rightarrow> cps list" where
  "findall_from wd r pv s =
     (case search_from wd r pv s of
        None \<Rightarrow> []
      | Some (m, pv', rest) \<Rightarrow> if length rest < length s then m # findall_from wd r pv' rest else [m])"
  by pat_completeness auto
termination
  by (relation "measure (\<lambda>(wd, r, pv, s). length s)") auto

declare findall_from.simps [simp del]

definition rx_findall :: "(int \<Rightarrow> bool) \<Rightarrow> rx \<Rightarrow> cps \<Rightarrow> cps list" where
  "rx_findall wd r s = findall_from wd r None s"

section \<open>What a pattern means\<close>

fun matches :: "(int \<Rightarrow> bool) \<Rightarrow> rx \<Rightarrow> rpos \<Rightarrow> rpos \<Rightarrow> bool" where
  "matches wd Empty p q \<longleftrightarrow> q = p"
| "matches wd (Cls c) p q \<longleftrightarrow> (\<exists>x. snd p = x # snd q \<and> cmatch c x \<and> fst q = Some x)"
| "matches wd (Seq a b) p q \<longleftrightarrow> (\<exists>m. matches wd a p m \<and> matches wd b m q)"
| "matches wd (Alt a b) p q \<longleftrightarrow> matches wd a p q \<or> matches wd b p q"
| "matches wd (Rep mn mx c) p q \<longleftrightarrow>
     (\<exists>us. snd p = us @ snd q \<and> list_all (cmatch c) us \<and> mn \<le> int (length us)
        \<and> (case mx of None \<Rightarrow> True | Some n \<Rightarrow> us = [] \<or> int (length us) \<le> n)
        \<and> fst q = (if us = [] then fst p else Some (last us)))"
| "matches wd Word_Boundary p q \<longleftrightarrow> at_boundary wd p \<and> q = p"

lemma matches_rep_Cons:
  "matches wd (Rep mn mx c) (pv, x # xs) q \<longleftrightarrow>
     mn \<le> 0 \<and> q = (pv, x # xs)
     \<or> rep_room mx \<and> cmatch c x \<and> matches wd (Rep (mn - 1) (map_option (\<lambda>n. n - 1) mx) c) (Some x, xs) q"
  (is "?l \<longleftrightarrow> ?stop \<or> ?go")
proof
  assume ?l
  then obtain us where us: "x # xs = us @ snd q" "list_all (cmatch c) us" "mn \<le> int (length us)"
    "case mx of None \<Rightarrow> True | Some n \<Rightarrow> us = [] \<or> int (length us) \<le> n" "fst q = (if us = [] then pv else Some (last us))" by auto
  show "?stop \<or> ?go"
  proof (cases us)
    case Nil
    with us show ?thesis by (simp add: prod_eq_iff)
  next
    case (Cons u vs)
    with us have "xs = vs @ snd q" "list_all (cmatch c) vs" "mn - 1 \<le> int (length vs)" "cmatch c x" "rep_room mx"
      "case map_option (\<lambda>n. n - 1) mx of None \<Rightarrow> True | Some n \<Rightarrow> vs = [] \<or> int (length vs) \<le> n"
      "fst q = (if vs = [] then Some x else Some (last vs))"
      by (auto simp: rep_room_def split: option.splits)
    then show ?thesis by auto
  qed
next
  assume "?stop \<or> ?go"
  then show ?l
  proof
    assume ?stop
    then show ?l by (auto intro!: exI [of _ "[]"] split: option.splits)
  next
    assume go: ?go
    then obtain us where us: "xs = us @ snd q" "list_all (cmatch c) us" "mn - 1 \<le> int (length us)"
      "case map_option (\<lambda>n. n - 1) mx of None \<Rightarrow> True | Some n \<Rightarrow> us = [] \<or> int (length us) \<le> n"
      "fst q = (if us = [] then Some x else Some (last us))" by auto
    with go show ?l by (auto simp: rep_room_def intro!: exI [of _ "x # us"] split: option.splits)
  qed
qed

lemma rep_match_iff:
  "(\<exists>r. rep_match c mn mx pv s k = Some r) \<longleftrightarrow> (\<exists>q r. matches wd (Rep mn mx c) (pv, s) q \<and> k q = Some r)"
proof (induction c mn mx pv s k rule: rep_match.induct)
  case (1 c mn mx pv k)
  show ?case by (auto simp: prod_eq_iff split: option.splits)
next
  case (2 c mn mx pv x xs k)
  show ?case
  proof (cases "rep_room mx \<and> cmatch c x")
    case True
    note IH = 2 [OF refl True]
    have "(\<exists>r. rep_match c mn mx pv (x # xs) k = Some r) \<longleftrightarrow>
        (\<exists>r. rep_match c (mn - 1) (map_option (\<lambda>n. n - 1) mx) (Some x) xs k = Some r)
        \<or> mn \<le> 0 \<and> (\<exists>r. k (pv, x # xs) = Some r)"
      using True by (cases "rep_match c (mn - 1) (map_option (\<lambda>n. n - 1) mx) (Some x) xs k") (simp_all add: Let_def)
    then show ?thesis unfolding matches_rep_Cons IH using True by blast
  next
    case False
    then have "rep_match c mn mx pv (x # xs) k = (if mn \<le> 0 then k (pv, x # xs) else None)"
      by (simp only: rep_match.simps Let_def if_False)
    then have "(\<exists>r. rep_match c mn mx pv (x # xs) k = Some r) \<longleftrightarrow> mn \<le> 0 \<and> (\<exists>r. k (pv, x # xs) = Some r)"
      by (simp del: rep_match.simps)
    with False show ?thesis unfolding matches_rep_Cons by blast
  qed
qed

lemma rmatch_iff: "(\<exists>y. rmatch wd r p k = Some y) \<longleftrightarrow> (\<exists>q y. matches wd r p q \<and> k q = Some y)"
proof (induction r arbitrary: p k)
  case (Cls c)
  show ?case by (cases "snd p") (auto simp: prod_eq_iff split: if_splits)
next
  case (Seq a b)
  show ?case by (simp add: Seq.IH) blast
next
  case (Alt a b)
  have "(\<exists>y. rmatch wd (Alt a b) p k = Some y) \<longleftrightarrow> (\<exists>y. rmatch wd a p k = Some y) \<or> (\<exists>y. rmatch wd b p k = Some y)"
    by (cases "rmatch wd a p k") auto
  with Alt show ?case by auto
next
  case (Rep mn mx c)
  show ?case using rep_match_iff [of c mn mx "fst p" "snd p" k wd] by simp
qed auto

text \<open>\<open>occurs\<close>: some part of the text, at its place, is a match.\<close>

definition occurs :: "(int \<Rightarrow> bool) \<Rightarrow> rx \<Rightarrow> int option \<Rightarrow> cps \<Rightarrow> bool" where
  "occurs wd r pv s \<longleftrightarrow>
     (\<exists>us vs q. s = us @ vs \<and> matches wd r (if us = [] then pv else Some (last us), vs) q)"

lemma occurs_Cons: "occurs wd r pv (x # xs) \<longleftrightarrow> (\<exists>q. matches wd r (pv, x # xs) q) \<or> occurs wd r (Some x) xs"
  (is "?l \<longleftrightarrow> ?r")
proof
  assume ?l
  then obtain us vs q where us: "x # xs = us @ vs" "matches wd r (if us = [] then pv else Some (last us), vs) q"
    by (auto simp: occurs_def)
  show ?r
  proof (cases us)
    case Nil
    with us show ?thesis by (metis append_Nil)
  next
    case (Cons u ws)
    with us have "xs = ws @ vs" "matches wd r (if ws = [] then Some x else Some (last ws), vs) q" by auto
    then show ?thesis unfolding occurs_def by blast
  qed
next
  assume ?r
  then show ?l
  proof
    assume "\<exists>q. matches wd r (pv, x # xs) q"
    then obtain q where "matches wd r (if ([]::cps) = [] then pv else Some (last []), x # xs) q" by auto
    then show ?l unfolding occurs_def by (metis append_Nil)
  next
    assume "occurs wd r (Some x) xs"
    then obtain us vs q where "xs = us @ vs" "matches wd r (if us = [] then Some x else Some (last us), vs) q"
      by (auto simp: occurs_def)
    then have "x # xs = (x # us) @ vs" "matches wd r (if x # us = [] then pv else Some (last (x # us)), vs) q"
      by (auto split: if_splits)
    then show ?l unfolding occurs_def by blast
  qed
qed

lemma search_from_iff: "(\<exists>y. search_from wd r pv s = Some y) \<longleftrightarrow> occurs wd r pv s"
proof (induction s arbitrary: pv)
  case Nil
  have "(\<exists>y. rmatch wd r (pv, []) (\<lambda>q. Some ([] :: cps, q)) = Some y) \<longleftrightarrow> (\<exists>q. matches wd r (pv, []) q)"
    unfolding rmatch_iff by simp
  then show ?case by (simp add: occurs_def)
next
  case (Cons x xs)
  let ?k = "\<lambda>q :: rpos. Some (take (length (x # xs) - length (snd q)) (x # xs), q)"
  have "(\<exists>y. rmatch wd r (pv, x # xs) ?k = Some y) \<longleftrightarrow> (\<exists>q. matches wd r (pv, x # xs) q)"
    unfolding rmatch_iff by simp
  with Cons.IH [of "Some x"] show ?case
    unfolding occurs_Cons by (cases "rmatch wd r (pv, x # xs) ?k") auto
qed

lemma rx_search_iff: "(\<exists>m. rx_search wd r s = Some m) \<longleftrightarrow> occurs wd r None s"
  unfolding search_from_iff [symmetric] rx_search_def by auto

lemma occurs_search_from: "search_from wd r pv s = None \<longleftrightarrow> \<not> occurs wd r pv s"
  unfolding search_from_iff [symmetric] by (metis not_None_eq)

end
