(* ===== verification/Agent_Contracts.thy ===== *)
theory Agent_Contracts
  imports Py_Regex
begin

text \<open>
  The data that the agents of \<^verbatim>\<open>src/bulldog/multiagent\<close> exchange (\<^verbatim>\<open>contracts.py\<close>) and the Python values
  that their payloads carry. \<open>pyv\<close> is a value as the code inspects it: the scalar types, text, bytes,
  dictionaries (keys by their text), sequences and sets in iteration order, dataclass instances and
  any other object by its \<open>repr\<close>. Time stamps and durations are not modelled; nothing depends on
  them. Identifiers from \<open>uuid4\<close> come from the argument \<open>uid\<close> of the operations that need one.
\<close>

datatype pyv =
    PNone
  | PBool bool
  | PInt int
  | PFloat rat
  | PStr string
  | PBytes string
  | PDict "(string \<times> pyv) list"
  | PSeq "pyv list"
  | PData string "(string \<times> pyv) list"
  | POther string

fun py_truthy :: "pyv \<Rightarrow> bool" where
  "py_truthy PNone = False"
| "py_truthy (PBool b) = b"
| "py_truthy (PInt i) = (i \<noteq> 0)"
| "py_truthy (PFloat q) = (q \<noteq> 0)"
| "py_truthy (PStr s) = (s \<noteq> [])"
| "py_truthy (PBytes s) = (s \<noteq> [])"
| "py_truthy (PDict d) = (d \<noteq> [])"
| "py_truthy (PSeq xs) = (xs \<noteq> [])"
| "py_truthy _ = True"

definition py_get :: "(string \<times> pyv) list \<Rightarrow> string \<Rightarrow> pyv \<Rightarrow> pyv" where
  "py_get d k dflt = (case dict_get d k of None \<Rightarrow> dflt | Some v \<Rightarrow> v)"

text \<open>\<open>str(v)\<close>: text as it is, everything else as the interpreter prints it (\<open>sh\<close>).\<close>

definition py_str :: "(pyv \<Rightarrow> string) \<Rightarrow> pyv \<Rightarrow> string" where
  "py_str sh v = (case v of PStr s \<Rightarrow> s | _ \<Rightarrow> sh v)"

text \<open>\<open>dict(v)\<close>: a mapping, or a sequence of pairs with hashable keys.\<close>

definition py_hashable :: "pyv \<Rightarrow> bool" where
  "py_hashable v \<longleftrightarrow> (case v of PSeq _ \<Rightarrow> False | PDict _ \<Rightarrow> False | _ \<Rightarrow> True)"

definition py_pair :: "(pyv \<Rightarrow> string) \<Rightarrow> pyv \<Rightarrow> (string \<times> pyv) res" where
  "py_pair sh p =
     (case p of
        PSeq xs \<Rightarrow>
          if length xs \<noteq> 2 then raise ValueError ''dictionary update sequence element has wrong length''
          else if \<not> py_hashable (hd xs) then raise TypeError ''unhashable type''
          else Inr (py_str sh (hd xs), last xs)
      | PStr s \<Rightarrow>
          if length (points s) \<noteq> 2 then raise ValueError ''dictionary update sequence element has wrong length''
          else Inr (text_of [hd (points s)], PStr (text_of [last (points s)]))
      | _ \<Rightarrow> raise TypeError ''cannot convert dictionary update sequence element to a sequence'')"

fun py_pairs :: "(pyv \<Rightarrow> string) \<Rightarrow> pyv list \<Rightarrow> (string \<times> pyv) list \<Rightarrow> (string \<times> pyv) list res" where
  "py_pairs sh [] acc = Inr acc"
| "py_pairs sh (v # vs) acc =
     (case py_pair sh v of Inl e \<Rightarrow> Inl e | Inr (k, x) \<Rightarrow> py_pairs sh vs (dict_set k x acc))"

definition py_dict :: "(pyv \<Rightarrow> string) \<Rightarrow> pyv \<Rightarrow> (string \<times> pyv) list res" where
  "py_dict sh v =
     (case v of
        PDict d \<Rightarrow> Inr d
      | PSeq vs \<Rightarrow> py_pairs sh vs []
      | PStr s \<Rightarrow> if s = [] then Inr [] else raise ValueError ''dictionary update sequence element has wrong length''
      | PBytes s \<Rightarrow> if s = [] then Inr [] else raise TypeError ''cannot convert dictionary update sequence element to a sequence''
      | _ \<Rightarrow> raise TypeError ''object is not iterable'')"

section \<open>Contracts\<close>

datatype verdict = V_ALLOW | V_DENY | V_CHALLENGE

fun verdict_value :: "verdict \<Rightarrow> string" where
  "verdict_value V_ALLOW = ''allow''"
| "verdict_value V_DENY = ''deny''"
| "verdict_value V_CHALLENGE = ''challenge''"

datatype severity = S_INFO | S_LOW | S_MEDIUM | S_HIGH | S_CRITICAL

fun severity_value :: "severity \<Rightarrow> string" where
  "severity_value S_INFO = ''info''"
| "severity_value S_LOW = ''low''"
| "severity_value S_MEDIUM = ''medium''"
| "severity_value S_HIGH = ''high''"
| "severity_value S_CRITICAL = ''critical''"

record agent_identity =
  ag_id :: string
  ag_name :: string
  ag_caps :: "string list"

definition identity_has :: "agent_identity \<Rightarrow> string \<Rightarrow> bool" where
  "identity_has i cap \<longleftrightarrow> cap \<in> set (ag_caps i)"

record envelope =
  env_message :: string
  env_trace :: string
  env_sender :: string
  env_recipient :: string
  env_type :: string
  env_payload :: "(string \<times> pyv) list"
  env_hops :: int

definition forwarded :: "string \<Rightarrow> envelope \<Rightarrow> string \<Rightarrow> string \<Rightarrow> (string \<times> pyv) list \<Rightarrow> envelope" where
  "forwarded mid e recipient kind payload =
     \<lparr>env_message = mid, env_trace = env_trace e, env_sender = env_sender e, env_recipient = recipient,
      env_type = kind, env_payload = payload, env_hops = env_hops e + 1\<rparr>"

record finding =
  f_agent :: string
  f_severity :: severity
  f_code :: string
  f_summary :: string
  f_detail :: string

record agent_result =
  r_agent :: string
  r_success :: bool
  r_verdict :: verdict
  r_output :: pyv
  r_findings :: "finding list"

text \<open>The dataclasses as the values that \<open>asdict\<close> turns them into.\<close>

definition finding_value :: "finding \<Rightarrow> pyv" where
  "finding_value f = PData ''Finding''
     [(''agent_id'', PStr (f_agent f)), (''severity'', PStr (severity_value (f_severity f))), (''code'', PStr (f_code f)),
      (''summary'', PStr (f_summary f)), (''detail'', PStr (f_detail f))]"

definition result_value :: "agent_result \<Rightarrow> pyv" where
  "result_value r = PData ''AgentResult''
     [(''agent_id'', PStr (r_agent r)), (''success'', PBool (r_success r)), (''verdict'', PStr (verdict_value (r_verdict r))),
      (''output'', r_output r), (''findings'', PSeq (map finding_value (r_findings r))), (''duration_s'', PFloat 0)]"

record trace_record =
  tr_trace :: string
  tr_agent :: string
  tr_event :: string
  tr_detail :: "(string \<times> pyv) list"

text \<open>A leaked canary is an exception with a finding; all others are a class and a message.\<close>

datatype agent_exn = Leak finding | Raised exn

type_synonym 'a ares = "agent_exn + 'a"

fun exn_type :: "(exn_class \<Rightarrow> string) \<Rightarrow> agent_exn \<Rightarrow> string" where
  "exn_type nm (Leak f) = ''HoneyTokenLeak''"
| "exn_type nm (Raised e) = nm (fst e)"

end
