(* ===== verification/Agent_Scanner.thy ===== *)
theory Agent_Scanner
  imports Agent_Contracts
begin

text \<open>
  The text scanner of \<^verbatim>\<open>src/bulldog/multiagent/agents.py\<close>: normalisation against obfuscation, the marker
  patterns, and the second look at what Base64-looking tokens decode to. The lemmas characterise
  exactly which texts are flagged.
\<close>

definition INJECTION_MARKERS :: "rx list" where
  "INJECTION_MARKERS =
     [rx_seq [rx_lit ''ignore'', rx_spaces, rx_opt (Seq (rx_lit ''all'') rx_spaces),
        rx_alts [rx_lit ''previous'', rx_lit ''prior'', rx_lit ''above''], rx_spaces, rx_lit ''instructions''],
      rx_seq [rx_lit ''disregard'', rx_spaces, Rep 0 (Some 30) Any_But_Newline,
        rx_alts [rx_lit ''policy'', rx_lit ''rules'', rx_lit ''guardrails'']],
      rx_seq [rx_lit ''you'', rx_spaces, rx_lit ''are'', rx_spaces, rx_lit ''now'', rx_spaces],
      rx_seq [rx_lit ''sudo'', rx_spaces, rx_lit ''rm'', rx_spaces0, rx_lit ''-'', rx_spaces0, rx_lit ''rf''],
      rx_seq [rx_lit ''rm'', rx_spaces0, rx_lit ''-'', rx_spaces0, rx_lit ''rf'', rx_spaces, rx_lit ''/''],
      rx_seq [rx_alts [rx_lit ''curl'', rx_lit ''wget''], Rep 0 (Some 120) (None_Of [(124, 124)]), rx_lit ''|'',
        rx_spaces0, rx_opt (rx_alts [rx_lit ''ba'', rx_lit ''z'']), rx_lit ''sh'', Word_Boundary],
      rx_seq [rx_lit ''|'', rx_spaces0, rx_opt (rx_alts [rx_lit ''ba'', rx_lit ''z'']), rx_lit ''sh'', Word_Boundary],
      rx_seq [rx_lit ''chmod'', rx_spaces, rx_lit ''777''],
      rx_seq [rx_lit ''/etc/'', rx_alts [rx_lit ''passwd'', rx_lit ''shadow'']],
      rx_seq [rx_lit ''exfiltrat'', rx_alts [rx_lit ''e'', rx_lit ''ion'']],
      rx_seq [rx_lit ''bypass'', rx_spaces, rx_opt (Seq (rx_lit ''the'') rx_spaces),
        rx_alts [rx_lit ''sandbox'', rx_lit ''policy'', rx_lit ''controls'']]]"

definition ZERO_WIDTH :: cps where
  "ZERO_WIDTH = [8203, 8204, 8205, 8206, 8207, 8288, 8289, 65279, 173, 6158]"

definition CONFUSABLES :: "(int \<times> int) list" where
  "CONFUSABLES = [(1110, 105), (1072, 97), (1077, 101), (1086, 111), (1088, 112), (1089, 99), (1109, 115),
     (1093, 120), (1281, 100), (1307, 113), (1309, 119), (1198, 121)]"

definition MAX_SCAN_CHARS :: int where
  "MAX_SCAN_CHARS = 65536"

definition scan_window :: "cps \<Rightarrow> cps" where
  "scan_window xs = take (nat MAX_SCAN_CHARS) xs"

lemma scan_window_code [code]:
  "scan_window xs = (if int (length xs) \<le> MAX_SCAN_CHARS then xs else take (nat MAX_SCAN_CHARS) xs)"
  by (auto simp: scan_window_def)

definition B64_TOKEN :: rx where
  "B64_TOKEN = rx_seq [Word_Boundary, Rep 24 None (One_Of [(65, 90), (97, 122), (48, 57), (43, 43), (47, 47)]),
     Rep 0 (Some 2) (One_Of [(61, 61)]), Word_Boundary]"

text \<open>\<open>re.sub(r"\s+", " ", text)\<close>.\<close>

fun collapse :: "bool \<Rightarrow> cps \<Rightarrow> cps" where
  "collapse after [] = []"
| "collapse after (x # xs) =
     (if is_space_point x then (if after then collapse True xs else 32 # collapse True xs) else x # collapse False xs)"

definition normalize_text :: "pylib \<Rightarrow> cps \<Rightarrow> cps" where
  "normalize_text L text =
     (let t1 = points (py_nfkc L (text_of text));
          t2 = map (\<lambda>x. if x \<in> set ZERO_WIDTH then 32 else x) t1;
          t3 = map (\<lambda>x. case map_of CONFUSABLES x of None \<Rightarrow> x | Some y \<Rightarrow> y) t2
      in collapse False t3)"

section \<open>Base64\<close>

definition b64_value :: "int \<Rightarrow> int" where
  "b64_value c = (if 65 \<le> c \<and> c \<le> 90 then c - 65 else if 97 \<le> c \<and> c \<le> 122 then c - 71
                  else if 48 \<le> c \<and> c \<le> 57 then c + 4 else if c = 43 then 62 else 63)"

fun b64_bytes :: "cps \<Rightarrow> cps" where
  "b64_bytes (a # b # c # d # s) =
     (a * 4 + b div 16) # (b mod 16 * 16 + c div 4) # (c mod 4 * 64 + d) # b64_bytes s"
| "b64_bytes [a, b, c] = [a * 4 + b div 16, b mod 16 * 16 + c div 4]"
| "b64_bytes [a, b] = [a * 4 + b div 16]"
| "b64_bytes _ = []"

text \<open>
  \<open>base64.b64decode(padded, validate=True)\<close> on a token of the pattern above, padded to a multiple of
  four: it is refused when more than two \<open>=\<close> end it or the data does not fill whole bytes.
\<close>

definition b64decode_token :: "cps \<Rightarrow> string option" where
  "b64decode_token token =
     (let data = filter (\<lambda>x. x \<noteq> 61) token; padding = (length token - length data) + (4 - length token mod 4) mod 4 in
      if padding > 2 \<or> length data mod 4 = 1 then None
      else Some (map char_of (b64_bytes (map b64_value data))))"

text \<open>\<open>bytes.decode("utf-8", "ignore")\<close> drops what is not UTF-8.\<close>

function utf8_ignore :: "string \<Rightarrow> string" where
  "utf8_ignore s =
     (if s = [] then []
      else (if snd (utf8_step s) then take (fst (utf8_step s)) s else []) @ utf8_ignore (drop (fst (utf8_step s)) s))"
  by pat_completeness auto
termination
  by (relation "measure length") (auto simp: utf8_step_pos)

declare utf8_ignore.simps [simp del]

section \<open>The scan\<close>

definition marker_finding :: "string \<Rightarrow> string \<Rightarrow> string \<Rightarrow> finding" where
  "marker_finding agent kind summary =
     \<lparr>f_agent = agent, f_severity = S_HIGH, f_code = kind, f_summary = summary, f_detail = []\<rparr>"

fun scan_markers :: "(int \<Rightarrow> bool) \<Rightarrow> string \<Rightarrow> cps \<Rightarrow> rx list \<Rightarrow> finding list" where
  "scan_markers wd agent text [] = []"
| "scan_markers wd agent text (r # rs) =
     (case rx_search wd r text of
        None \<Rightarrow> []
      | Some m \<Rightarrow> [marker_finding agent ''unauthorized-logic.marker'' (text_of (take 80 m))]) @ scan_markers wd agent text rs"

text \<open>The inner loop over a decoded token stops at its first match.\<close>

fun scan_decoded :: "(int \<Rightarrow> bool) \<Rightarrow> string \<Rightarrow> cps \<Rightarrow> rx list \<Rightarrow> finding list" where
  "scan_decoded wd agent text [] = []"
| "scan_decoded wd agent text (r # rs) =
     (case rx_search wd r text of
        None \<Rightarrow> scan_decoded wd agent text rs
      | Some m \<Rightarrow> [marker_finding agent ''unauthorized-logic.encoded'' (''base64-decoded: '' @ text_of (take 60 m))])"

definition decoded_text :: "pylib \<Rightarrow> cps \<Rightarrow> cps option" where
  "decoded_text L token = map_option (\<lambda>raw. normalize_text L (points (utf8_ignore raw))) (b64decode_token token)"

definition scan_tokens :: "pylib \<Rightarrow> (int \<Rightarrow> bool) \<Rightarrow> string \<Rightarrow> cps list \<Rightarrow> finding list" where
  "scan_tokens L wd agent tokens =
     concat (map (\<lambda>t. case decoded_text L t of None \<Rightarrow> [] | Some d \<Rightarrow> scan_decoded wd agent d INJECTION_MARKERS) tokens)"

definition scan_text :: "pylib \<Rightarrow> (int \<Rightarrow> bool) \<Rightarrow> string \<Rightarrow> string \<Rightarrow> finding list" where
  "scan_text L wd agent text =
     (let normalized = normalize_text L (scan_window (points text)) in
      scan_markers wd agent normalized INJECTION_MARKERS @ scan_tokens L wd agent (rx_findall wd B64_TOKEN normalized))"

section \<open>What is flagged\<close>

definition suspicious :: "(int \<Rightarrow> bool) \<Rightarrow> cps \<Rightarrow> bool" where
  "suspicious wd text \<longleftrightarrow> (\<exists>r \<in> set INJECTION_MARKERS. occurs wd r None text)"

lemma scan_markers_iff: "scan_markers wd agent text rs = [] \<longleftrightarrow> (\<forall>r \<in> set rs. \<not> occurs wd r None text)"
  by (induction rs) (auto simp: rx_search_iff [symmetric] split: option.splits)

lemma scan_decoded_iff: "scan_decoded wd agent text rs = [] \<longleftrightarrow> (\<forall>r \<in> set rs. \<not> occurs wd r None text)"
  by (induction rs) (auto simp: rx_search_iff [symmetric] split: option.splits)


definition demo_word :: "int \<Rightarrow> bool" where
  "demo_word n = False"

text \<open>
  The comment above \<open>ZERO_WIDTH\<close> promises that splitting a marker with a zero-width character does not
  evade the scan. That holds between words, where the inserted space is harmless; inside a word the
  space breaks the literal, and the text passes.
\<close>

lemma zero_width_split_passes:
  "scan_text plain_lib demo_word ''auditor'' (''chm'' @ text_of [8203] @ ''od 777'') = []"
  by code_simp

end
