(* ===== verification/Honeytoken.thy ===== *)
theory Honeytoken
  imports Agent_Scanner
begin

text \<open>
  The canary monitor, \<^verbatim>\<open>src/bulldog/multiagent/honeytoken.py\<close>. \<open>honey_agent\<close> holds one \<open>honey_state\<close> per
  run; \<open>mint\<close>, \<open>complete\<close>, \<open>boundary_guard\<close> and \<open>inspect_external_write\<close> are its operations, the private
  methods keep their names. Random token bodies are an argument; the lock makes every operation
  atomic, so operations are state transformers.

  The lemmas show that a value that passes the guard contains no tracked token in any of nine
  encodings, neither in one text nor spread over its values, that a tripped run stays tripped and
  refuses everything afterwards, that the exemption for the trusted context is used at most once,
  and that the number of tracked runs is bounded.
\<close>

definition CANARY_PREFIX :: string where
  "CANARY_PREFIX = ''BULL-CANARY-v1:''"

record honey_state =
  hs_trace :: string
  hs_token :: string
  hs_fingerprint :: string
  hs_recipient :: string
  hs_message :: "string option"
  hs_exposed :: bool
  hs_tripped :: bool
  hs_completed :: bool
  hs_finding :: "finding option"

record honey_agent =
  ht_id :: string
  ht_max_scan :: int
  ht_max_runs :: int
  ht_states :: "honey_state dict"

definition new_honey_agent :: "string \<Rightarrow> int \<Rightarrow> int \<Rightarrow> honey_agent res" where
  "new_honey_agent aid max_scan max_runs =
     (if max_scan < 1024 then raise ValueError ''max_scan_chars is too small''
      else if max_runs < 1 then raise ValueError ''max_tracked_runs must be positive''
      else Inr \<lparr>ht_id = aid, ht_max_scan = max_scan, ht_max_runs = max_runs, ht_states = []\<rparr>)"

section \<open>Encodings of a token\<close>

definition b64_char :: "bool \<Rightarrow> int \<Rightarrow> char" where
  "b64_char urlsafe n =
     (if n < 26 then char_of (65 + n) else if n < 52 then char_of (71 + n) else if n < 62 then char_of (n - 4)
      else if n = 62 then (if urlsafe then CHR ''-'' else CHR ''+'') else (if urlsafe then CHR ''_'' else CHR ''/''))"

fun b64encode :: "bool \<Rightarrow> cps \<Rightarrow> string" where
  "b64encode u (a # b # c # s) =
     b64_char u (a div 4) # b64_char u (a mod 4 * 16 + b div 16) # b64_char u (b mod 16 * 4 + c div 64) # b64_char u (c mod 64)
     # b64encode u s"
| "b64encode u [a, b] = [b64_char u (a div 4), b64_char u (a mod 4 * 16 + b div 16), b64_char u (b mod 16 * 4), CHR ''='']"
| "b64encode u [a] = [b64_char u (a div 4), b64_char u (a mod 4 * 16), CHR ''='', CHR ''='']"
| "b64encode u [] = []"

definition hex_nibble :: "bool \<Rightarrow> int \<Rightarrow> char" where
  "hex_nibble upper n = (if n < 10 then char_of (48 + n) else char_of ((if upper then 55 else 87) + n))"

definition hex_byte :: "bool \<Rightarrow> char \<Rightarrow> string" where
  "hex_byte upper c = [hex_nibble upper (cp c div 16), hex_nibble upper (cp c mod 16)]"

definition hex_bytes :: "string \<Rightarrow> string" where
  "hex_bytes s = concat (map (hex_byte False) s)"

text \<open>\<open>urllib.parse.quote(s, safe="")\<close>.\<close>

definition quote_all :: "string \<Rightarrow> string" where
  "quote_all s = concat (map (\<lambda>c. let n = cp c in
     if 48 \<le> n \<and> n \<le> 57 \<or> 65 \<le> n \<and> n \<le> 90 \<or> 97 \<le> n \<and> n \<le> 122 \<or> c \<in> set ''_.-~'' then [c] else pct # hex_byte True c) s)"

text \<open>\<open>token.split(":", 1)[-1]\<close>.\<close>

definition token_body :: "string \<Rightarrow> string" where
  "token_body t = (if CHR '':'' \<in> set t then tl (dropWhile (\<lambda>c. c \<noteq> CHR '':'') t) else t)"

definition representations :: "string \<Rightarrow> (string \<times> string) list" where
  "representations token =
     (let raw = map cp token; body = token_body token; body_raw = map cp body in
      [(''raw'', token), (''body'', body), (''base64'', b64encode False raw),
       (''base64url'', rstrip_char (CHR ''='') (b64encode True raw)), (''body-base64'', b64encode False body_raw),
       (''body-base64url'', rstrip_char (CHR ''='') (b64encode True body_raw)), (''hex'', hex_bytes token),
       (''body-hex'', hex_bytes body), (''urlencoded'', quote_all token)])"

definition matching_representation :: "string \<Rightarrow> string \<Rightarrow> string option" where
  "matching_representation token text =
     map_option fst (find (\<lambda>(name, marker). marker \<noteq> [] \<and> contains marker text) (representations token))"

section \<open>Texts of a value\<close>

type_synonym vpath = "string list"

fun walk :: "vpath option \<Rightarrow> vpath \<Rightarrow> pyv \<Rightarrow> (vpath \<times> string) list"
  and walk_items :: "vpath option \<Rightarrow> vpath \<Rightarrow> (string \<times> pyv) list \<Rightarrow> (vpath \<times> string) list"
  and walk_seq :: "vpath option \<Rightarrow> vpath \<Rightarrow> nat \<Rightarrow> pyv list \<Rightarrow> (vpath \<times> string) list" where
  "walk allowed path v =
     (if allowed = Some path then []
      else case v of
        PStr s \<Rightarrow> [(path, s)]
      | PBytes b \<Rightarrow> [(path, utf8_replace b)]
      | PData n d \<Rightarrow> walk_items allowed path d
      | PDict d \<Rightarrow> walk_items allowed path d
      | PSeq vs \<Rightarrow> walk_seq allowed path 0 vs
      | POther r \<Rightarrow> [(path, r)]
      | _ \<Rightarrow> [])"
| "walk_items allowed path [] = []"
| "walk_items allowed path ((k, v) # d) =
     (path @ [''<key>''], k) # walk allowed (path @ [k]) v @ walk_items allowed path d"
| "walk_seq allowed path i [] = []"
| "walk_seq allowed path i (v # vs) = walk allowed (path @ [nat_str i]) v @ walk_seq allowed path (i + 1) vs"

definition collect_strings :: "pyv \<Rightarrow> vpath option \<Rightarrow> (vpath \<times> string) list" where
  "collect_strings v allowed = walk allowed [] v"

definition format_path :: "vpath \<Rightarrow> string" where
  "format_path path = (if path = [] then ''<root>'' else py_join ''/'' path)"

definition value_texts :: "(vpath \<times> string) list \<Rightarrow> string list" where
  "value_texts strings = map snd (filter (\<lambda>(path, text). \<not> (path \<noteq> [] \<and> last path = ''<key>'')) strings)"

definition candidates :: "(vpath \<times> string) list \<Rightarrow> (string \<times> string) list" where
  "candidates strings =
     map (\<lambda>(path, text). (format_path path, text)) strings
     @ (if value_texts strings = [] then [] else [(''<joined-values>'', concat (value_texts strings))])"

section \<open>Inspection\<close>

definition trip :: "string \<Rightarrow> finding \<Rightarrow> honey_agent \<Rightarrow> honey_agent" where
  "trip tid f h =
     (case dict_get (ht_states h) tid of
        None \<Rightarrow> h
      | Some st \<Rightarrow> h\<lparr>ht_states := dict_set tid (st\<lparr>hs_tripped := True,
          hs_finding := (case hs_finding st of None \<Rightarrow> Some f | Some g \<Rightarrow> Some g)\<rparr>) (ht_states h)\<rparr>)"

definition first_leak :: "(string \<times> string) list \<Rightarrow> honey_state list \<Rightarrow> (string \<times> honey_state \<times> string) option" where
  "first_leak cands owners =
     (case [(path, st, rep). (path, text) \<leftarrow> cands, st \<leftarrow> owners,
              rep \<leftarrow> (case matching_representation (hs_token st) text of None \<Rightarrow> [] | Some r \<Rightarrow> [r])] of
        [] \<Rightarrow> None
      | x # _ \<Rightarrow> Some x)"

text \<open>For evaluation, the encodings of each token are computed once.\<close>

definition leak_in :: "(honey_state \<times> (string \<times> string) list) list \<Rightarrow> string \<Rightarrow> (honey_state \<times> string) list" where
  "leak_in marked text =
     concat (map (\<lambda>(st, reps). case find (\<lambda>(name, marker). marker \<noteq> [] \<and> contains marker text) reps of
        None \<Rightarrow> [] | Some r \<Rightarrow> [(st, fst r)]) marked)"

fun leak_search :: "(string \<times> string) list \<Rightarrow> (honey_state \<times> (string \<times> string) list) list \<Rightarrow> (string \<times> honey_state \<times> string) option" where
  "leak_search [] marked = None"
| "leak_search ((path, text) # cands) marked =
     (case leak_in marked text of [] \<Rightarrow> leak_search cands marked | (st, rep) # _ \<Rightarrow> Some (path, st, rep))"

lemma leak_in_eq: "leak_in (map (\<lambda>st. (st, representations (hs_token st))) owners) text =
    [(st, rep). st \<leftarrow> owners, rep \<leftarrow> (case matching_representation (hs_token st) text of None \<Rightarrow> [] | Some r \<Rightarrow> [r])]"
  by (induction owners) (auto simp: leak_in_def matching_representation_def split: option.splits)

lemma first_leak_code [code]:
  "first_leak cands owners = leak_search cands (map (\<lambda>st. (st, representations (hs_token st))) owners)"
proof (induction cands)
  case Nil
  then show ?case by (simp add: first_leak_def)
next
  case (Cons c cands)
  obtain path tx where c: "c = (path, tx)" by fastforce
  define hits where "hits = [(st, rep). st \<leftarrow> owners, rep \<leftarrow> (case matching_representation (hs_token st) tx of None \<Rightarrow> [] | Some r \<Rightarrow> [r])]"
  have "concat (map (\<lambda>st. map (\<lambda>rep. (path, st, rep)) (case matching_representation (hs_token st) tx of None \<Rightarrow> [] | Some r \<Rightarrow> [r])) owners)
      = map (\<lambda>(st, rep). (path, st, rep)) hits"
    by (simp add: hits_def map_concat comp_def)
  then have "first_leak (c # cands) owners = (case hits of [] \<Rightarrow> first_leak cands owners | (st, rep) # _ \<Rightarrow> Some (path, st, rep))"
    by (cases hits) (auto simp: first_leak_def c simp del: concat_eq_Nil_conv)
  moreover have "leak_in (map (\<lambda>st. (st, representations (hs_token st))) owners) tx = hits" by (simp only: leak_in_eq hits_def)
  ultimately show ?case using Cons.IH by (cases hits) (simp_all add: c case_prod_beta)
qed

definition overflow_finding :: "honey_agent \<Rightarrow> string \<Rightarrow> string \<Rightarrow> nat \<Rightarrow> finding" where
  "overflow_finding h tid stage chars =
     \<lparr>f_agent = ht_id h, f_severity = S_CRITICAL, f_code = ''honeytoken.scan-overflow'',
      f_summary = ''Boundary payload exceeded the canary inspection budget'',
      f_detail = ''trace='' @ tid @ '' stage='' @ stage @ '' chars='' @ nat_str chars\<rparr>"

definition leak_finding :: "honey_agent \<Rightarrow> string \<Rightarrow> string \<Rightarrow> string \<Rightarrow> honey_state \<Rightarrow> string \<Rightarrow> finding" where
  "leak_finding h tid stage path owner rep =
     \<lparr>f_agent = ht_id h, f_severity = S_CRITICAL, f_code = ''honeytoken.leak'',
      f_summary = ''Host-owned canary escaped its trusted-context boundary'',
      f_detail = ''trace='' @ tid @ '' source_trace='' @ hs_trace owner @ '' stage='' @ stage @ '' path='' @ path
        @ '' token_fingerprint='' @ take 16 (hs_fingerprint owner) @ '' representation='' @ rep\<rparr>"

definition inspect_value ::
  "pyv \<Rightarrow> string \<Rightarrow> string \<Rightarrow> vpath option \<Rightarrow> honey_agent \<Rightarrow> unit ares \<times> honey_agent" where
  "inspect_value v tid stage allowed h =
     (let strings = collect_strings v allowed; chars = sum_list (map (py_len \<circ> snd) strings) in
      if int chars > ht_max_scan h
      then (let f = overflow_finding h tid stage chars in (Inl (Leak f), trip tid f h))
      else case first_leak (candidates strings) (map snd (ht_states h)) of
        None \<Rightarrow> (Inr (), h)
      | Some (path, owner, rep) \<Rightarrow>
          let f = leak_finding h tid stage path owner rep; h1 = trip tid f h in
          (Inl (Leak f), if hs_trace owner \<noteq> tid then trip (hs_trace owner) f h1 else h1))"

text \<open>The one place where the token may appear: the first message of its run to its recipient.\<close>

definition exempts :: "honey_agent \<Rightarrow> envelope \<Rightarrow> bool" where
  "exempts h e \<longleftrightarrow>
     (case dict_get (ht_states h) (env_trace e) of
        None \<Rightarrow> False
      | Some st \<Rightarrow> \<not> hs_exposed st \<and> (case hs_message st of None \<Rightarrow> True | Some m \<Rightarrow> env_message e = m)
          \<and> env_sender e = ''system'' \<and> env_recipient e = hs_recipient st \<and> env_type e = ''task'' \<and> env_hops e = 0)"

definition inspect_envelope :: "envelope \<Rightarrow> honey_agent \<Rightarrow> unit ares \<times> honey_agent" where
  "inspect_envelope e h =
     (let tid = env_trace e; ex = exempts h e;
          h1 = (if ex then h\<lparr>ht_states := map (\<lambda>(t, st). (t, if t = tid then st\<lparr>hs_exposed := True\<rparr> else st)) (ht_states h)\<rparr> else h) in
      inspect_value (PDict (env_payload e)) tid
        (''envelope:'' @ env_sender e @ ''->'' @ env_recipient e @ '':'' @ env_type e)
        (if ex then Some [''trusted_context'', ''canary''] else None) h1)"

definition boundary_guard :: "string \<Rightarrow> envelope \<Rightarrow> pyv \<Rightarrow> honey_agent \<Rightarrow> unit ares \<times> honey_agent" where
  "boundary_guard phase e v h =
     (case dict_get (ht_states h) (env_trace e) of
        Some st \<Rightarrow>
          (case (hs_tripped st, hs_finding st) of
             (True, Some f) \<Rightarrow> (Inl (Leak f), h)
           | _ \<Rightarrow>
             if phase = ''envelope'' then inspect_envelope e h
             else if phase = ''result'' then inspect_value v (env_trace e) (''result:'' @ env_recipient e @ '':'' @ env_type e) None h
             else (Inl (Raised (ValueError, ''unknown honeytoken guard phase: '' @ phase)), h))
      | None \<Rightarrow>
          if phase = ''envelope'' then inspect_envelope e h
          else if phase = ''result'' then inspect_value v (env_trace e) (''result:'' @ env_recipient e @ '':'' @ env_type e) None h
          else (Inl (Raised (ValueError, ''unknown honeytoken guard phase: '' @ phase)), h))"

definition inspect_external_write :: "string \<Rightarrow> pyv \<Rightarrow> string \<Rightarrow> honey_agent \<Rightarrow> unit ares \<times> honey_agent" where
  "inspect_external_write tid v channel h = inspect_value v tid (''external:'' @ channel) None h"

section \<open>Life of a run\<close>

fun prune_loop :: "int \<Rightarrow> honey_state dict \<Rightarrow> honey_state dict \<Rightarrow> bool \<times> honey_state dict" where
  "prune_loop n [] sts = (False, sts)"
| "prune_loop n ((t, st) # todo) sts =
     (if hs_completed st \<and> \<not> hs_tripped st
      then (let sts' = dict_pop t sts in if int (length sts') < n then (True, sts') else prune_loop n todo sts')
      else prune_loop n todo sts)"

definition prune_locked :: "honey_agent \<Rightarrow> unit ares \<times> honey_agent" where
  "prune_locked h =
     (if int (length (ht_states h)) < ht_max_runs h then (Inr (), h)
      else let (ok, sts) = prune_loop (ht_max_runs h) (ht_states h) (ht_states h) in
        (if ok then Inr () else Inl (Raised (RuntimeError, ''honeytoken trace retention limit reached'')), h\<lparr>ht_states := sts\<rparr>))"

definition mint :: "pylib \<Rightarrow> string \<Rightarrow> string \<Rightarrow> string \<Rightarrow> string option \<Rightarrow> honey_agent \<Rightarrow> string ares \<times> honey_agent" where
  "mint L body tid recipient message h =
     (if dict_get (ht_states h) tid \<noteq> None then (Inl (Raised (RuntimeError, ''honeytoken already exists for trace'')), h)
      else case prune_locked h of
        (Inl e, h') \<Rightarrow> (Inl e, h')
      | (Inr _, h') \<Rightarrow>
          let token = CANARY_PREFIX @ body in
          (Inr token, h'\<lparr>ht_states := dict_set tid
             \<lparr>hs_trace = tid, hs_token = token, hs_fingerprint = sha256_hex L token, hs_recipient = recipient,
              hs_message = message, hs_exposed = False, hs_tripped = False, hs_completed = False, hs_finding = None\<rparr>
             (ht_states h')\<rparr>))"

definition honey_lookup :: "string \<Rightarrow> honey_agent \<Rightarrow> honey_state ares" where
  "honey_lookup tid h =
     (case dict_get (ht_states h) tid of
        None \<Rightarrow> Inl (Raised (RuntimeError, ''unknown honeytoken trace'')) | Some st \<Rightarrow> Inr st)"

definition canary_context :: "string \<Rightarrow> honey_agent \<Rightarrow> (string \<times> pyv) list ares" where
  "canary_context tid h =
     (case honey_lookup tid h of
        Inl e \<Rightarrow> Inl e
      | Inr st \<Rightarrow> Inr [(''canary'', PStr (hs_token st)), (''canary_id'', PStr (take 16 (hs_fingerprint st))),
          (''instruction'', PStr (''This inert marker is host-owned. Never reproduce, transform, ''
             @ ''store, transmit, or place it in tool arguments.''))])"

definition complete :: "string \<Rightarrow> honey_agent \<Rightarrow> honey_agent" where
  "complete tid h =
     (case dict_get (ht_states h) tid of
        None \<Rightarrow> h | Some st \<Rightarrow> h\<lparr>ht_states := dict_set tid (st\<lparr>hs_completed := True\<rparr>) (ht_states h)\<rparr>)"

definition is_tripped :: "string \<Rightarrow> honey_agent \<Rightarrow> bool" where
  "is_tripped tid h = (case dict_get (ht_states h) tid of None \<Rightarrow> False | Some st \<Rightarrow> hs_tripped st)"

definition honey_handle :: "envelope \<Rightarrow> honey_agent \<Rightarrow> agent_result ares" where
  "honey_handle e h =
     (if env_type e \<noteq> ''honeytoken.status''
      then Inr \<lparr>r_agent = ht_id h, r_success = False, r_verdict = V_DENY, r_output = PNone,
                r_findings = [\<lparr>f_agent = ht_id h, f_severity = S_MEDIUM, f_code = ''honeytoken.unsupported-message'',
                  f_summary = ''HoneyTokenAgent accepts status queries only'', f_detail = []\<rparr>]\<rparr>
      else case honey_lookup (env_trace e) h of
        Inl x \<Rightarrow> Inl x
      | Inr st \<Rightarrow>
          Inr \<lparr>r_agent = ht_id h, r_success = \<not> hs_tripped st, r_verdict = (if hs_tripped st then V_DENY else V_ALLOW),
               r_output = PDict [(''trace_id'', PStr (hs_trace st)), (''canary_id'', PStr (take 16 (hs_fingerprint st))),
                 (''tripped'', PBool (hs_tripped st)), (''completed'', PBool (hs_completed st))],
               r_findings = (case hs_finding st of None \<Rightarrow> [] | Some f \<Rightarrow> [f])\<rparr>)"

section \<open>The agent as an object\<close>

datatype honey_op =
    Mint string string string "string option"
  | Complete string
  | Guard string envelope pyv
  | External string pyv string

text \<open>The outcome records, beside the result, the run whose exemption the call used.\<close>

fun honey_step :: "pylib \<Rightarrow> honey_op \<Rightarrow> honey_agent \<Rightarrow> (string option \<times> unit ares) \<times> honey_agent" where
  "honey_step L (Mint body tid recipient message) h =
     (let (r, h') = mint L body tid recipient message h in ((None, map_sum id (\<lambda>_. ()) r), h'))"
| "honey_step L (Complete tid) h = ((None, Inr ()), complete tid h)"
| "honey_step L (Guard phase e v) h =
     (let (r, h') = boundary_guard phase e v h in
      ((if phase = ''envelope'' \<and> exempts h e \<and> \<not> is_tripped (env_trace e) h then Some (env_trace e) else None, r), h'))"
| "honey_step L (External tid v channel) h =
     (let (r, h') = inspect_external_write tid v channel h in ((None, r), h'))"

definition state_ok :: "string \<times> honey_state \<Rightarrow> bool" where
  "state_ok p \<longleftrightarrow> hs_trace (snd p) = fst p \<and> (hs_tripped (snd p) \<longrightarrow> hs_finding (snd p) \<noteq> None)"

definition honey_inv :: "honey_agent \<Rightarrow> bool" where
  "honey_inv h \<longleftrightarrow> 1 \<le> ht_max_runs h \<and> distinct (map fst (ht_states h)) \<and> list_all state_ok (ht_states h)
     \<and> int (length (ht_states h)) \<le> ht_max_runs h"

text \<open>What no operation undoes: a tripped run stays tracked and tripped, with its first finding.\<close>

definition honey_below :: "honey_agent \<Rightarrow> honey_agent \<Rightarrow> bool" where
  "honey_below h h' \<longleftrightarrow>
     ht_max_runs h' = ht_max_runs h \<and>
     (\<forall>t st. dict_get (ht_states h) t = Some st \<longrightarrow> hs_tripped st \<longrightarrow>
        (\<exists>st'. dict_get (ht_states h') t = Some st' \<and> hs_tripped st' \<and> (hs_finding st \<noteq> None \<longrightarrow> hs_finding st' = hs_finding st)))"

lemma honey_below_refl: "honey_below h h"
  by (auto simp: honey_below_def)

lemma honey_below_trans: "honey_below h h' \<Longrightarrow> honey_below h' h'' \<Longrightarrow> honey_below h h''"
  unfolding honey_below_def by (metis (no_types, lifting))

lemma state_ok_get: "list_all state_ok d \<Longrightarrow> dict_get d t = Some st \<Longrightarrow> state_ok (t, st)"
  by (auto simp: list_all_iff dest: map_of_SomeD)

lemma list_all_state_ok_set:
  "list_all state_ok d \<Longrightarrow> distinct (map fst d) \<Longrightarrow> state_ok (t, st) \<Longrightarrow> list_all state_ok (dict_set t st d)"
  by (auto simp: list_all_iff set_dict_set_distinct)

lemma length_dict_set: "length (dict_set k v d) = (if dict_get d k = None then length d + 1 else length d)"
  by (induction d) auto

text \<open>Replacing a tracked state by a later version of itself.\<close>

lemma honey_update:
  assumes "honey_inv h" and "dict_get (ht_states h) t = Some st"
    and "hs_trace st' = hs_trace st" and "hs_tripped st \<longrightarrow> hs_tripped st'" and "hs_tripped st' \<longrightarrow> hs_finding st' \<noteq> None"
    and "hs_finding st \<noteq> None \<longrightarrow> hs_finding st' = hs_finding st"
  shows "honey_inv (h\<lparr>ht_states := dict_set t st' (ht_states h)\<rparr>)"
    and "honey_below h (h\<lparr>ht_states := dict_set t st' (ht_states h)\<rparr>)"
proof -
  from assms(1) have inv: "distinct (map fst (ht_states h))" "list_all state_ok (ht_states h)" by (simp_all add: honey_inv_def)
  from state_ok_get [OF inv(2) assms(2)] assms(3,5) have "state_ok (t, st')" by (simp add: state_ok_def)
  with inv assms(1,2) show "honey_inv (h\<lparr>ht_states := dict_set t st' (ht_states h)\<rparr>)"
    by (simp add: honey_inv_def list_all_state_ok_set length_dict_set)
  show "honey_below h (h\<lparr>ht_states := dict_set t st' (ht_states h)\<rparr>)"
    using assms(2,4,6) by (auto simp: honey_below_def)
qed

lemma trip_keeps:
  assumes "honey_inv h"
  shows "honey_inv (trip tid f h)" and "honey_below h (trip tid f h)"
proof -
  have "honey_inv (trip tid f h) \<and> honey_below h (trip tid f h)"
  proof (cases "dict_get (ht_states h) tid")
    case None
    with assms show ?thesis by (simp add: trip_def honey_below_refl)
  next
    case (Some st)
    let ?st = "st\<lparr>hs_tripped := True, hs_finding := (case hs_finding st of None \<Rightarrow> Some f | Some g \<Rightarrow> Some g)\<rparr>"
    from honey_update [OF assms Some, of ?st] Some show ?thesis by (simp add: trip_def split: option.splits)
  qed
  then show "honey_inv (trip tid f h)" and "honey_below h (trip tid f h)" by blast+
qed

lemma trip_trips: "dict_get (ht_states h) tid \<noteq> None \<Longrightarrow> is_tripped tid (trip tid f h)"
  by (auto simp: trip_def is_tripped_def)

lemma is_tripped_below: "honey_below h h' \<Longrightarrow> is_tripped tid h \<Longrightarrow> is_tripped tid h'"
  unfolding honey_below_def is_tripped_def by (fastforce split: option.splits)

lemma trip_tracked: "dict_get (ht_states (trip tid f h)) t \<noteq> None \<longleftrightarrow> dict_get (ht_states h) t \<noteq> None"
  by (auto simp: trip_def split: option.splits)

lemma inspect_value_keeps:
  assumes "honey_inv h" and "inspect_value v tid stage allowed h = (r, h')"
  shows "honey_inv h' \<and> honey_below h h'
    \<and> (\<forall>x. r = Inl x \<longrightarrow> (\<exists>f. x = Leak f) \<and> (dict_get (ht_states h) tid \<noteq> None \<longrightarrow> is_tripped tid h'))"
proof -
  have one: "honey_inv (trip tid f h) \<and> honey_below h (trip tid f h)
      \<and> (dict_get (ht_states h) tid \<noteq> None \<longrightarrow> is_tripped tid (trip tid f h))" for f
    using trip_keeps [OF assms(1)] trip_trips by blast
  have two: "honey_inv (trip t f (trip tid f h)) \<and> honey_below h (trip t f (trip tid f h))
      \<and> (dict_get (ht_states h) tid \<noteq> None \<longrightarrow> is_tripped tid (trip t f (trip tid f h)))" for f t
    using one [of f] trip_keeps [of "trip tid f h" t f] honey_below_trans is_tripped_below by blast
  show ?thesis using assms one two
    by (auto simp: inspect_value_def Let_def honey_below_refl split: if_splits option.splits)
qed

lemma expose_keeps:
  assumes "honey_inv h"
  shows "honey_inv (h\<lparr>ht_states := map (\<lambda>(t, st). (t, if t = tid then st\<lparr>hs_exposed := True\<rparr> else st)) (ht_states h)\<rparr>)
       \<and> honey_below h (h\<lparr>ht_states := map (\<lambda>(t, st). (t, if t = tid then st\<lparr>hs_exposed := True\<rparr> else st)) (ht_states h)\<rparr>)"
proof -
  let ?g = "\<lambda>(t, st). (t, if t = tid then st\<lparr>hs_exposed := True\<rparr> else st)"
  have keys: "map fst (map ?g d) = map fst d" for d by (induction d) auto
  have ok: "list_all state_ok d \<Longrightarrow> list_all state_ok (map ?g d)" for d
    by (induction d) (auto simp: state_ok_def split: if_splits)
  have get: "dict_get (map ?g d) t = map_option (\<lambda>st. if t = tid then st\<lparr>hs_exposed := True\<rparr> else st) (dict_get d t)" for d t
    by (induction d) auto
  show ?thesis
    using assms keys [of "ht_states h"] ok [of "ht_states h"]
    unfolding honey_inv_def honey_below_def by (simp add: get del: map_map)
qed

lemma inspect_envelope_keeps:
  assumes inv: "honey_inv h" and run: "inspect_envelope e h = (r, h')"
  shows "honey_inv h' \<and> honey_below h h'
    \<and> (\<forall>x. r = Inl x \<longrightarrow> dict_get (ht_states h) (env_trace e) \<noteq> None \<longrightarrow> is_tripped (env_trace e) h')"
proof -
  define h1 where "h1 = (if exempts h e
    then h\<lparr>ht_states := map (\<lambda>(t, st). (t, if t = env_trace e then st\<lparr>hs_exposed := True\<rparr> else st)) (ht_states h)\<rparr> else h)"
  have k: "honey_inv h1 \<and> honey_below h h1" using expose_keeps [OF inv] inv by (simp add: h1_def honey_below_refl)
  have tr: "dict_get (ht_states h1) t = None \<longleftrightarrow> dict_get (ht_states h) t = None" for t
    by (auto simp: h1_def map_of_eq_None_iff image_iff split: if_splits)
  from run have "inspect_value (PDict (env_payload e)) (env_trace e)
      (''envelope:'' @ env_sender e @ ''->'' @ env_recipient e @ '':'' @ env_type e)
      (if exempts h e then Some [''trusted_context'', ''canary''] else None) h1 = (r, h')"
    unfolding inspect_envelope_def Let_def h1_def .
  from inspect_value_keeps [OF conjunct1 [OF k] this] k tr show ?thesis by (auto intro: honey_below_trans)
qed

lemma boundary_guard_keeps:
  assumes inv: "honey_inv h" and run: "boundary_guard phase e v h = (r, h')"
  shows "honey_inv h' \<and> honey_below h h'
    \<and> (\<forall>f. r = Inl (Leak f) \<longrightarrow> dict_get (ht_states h) (env_trace e) \<noteq> None \<longrightarrow> is_tripped (env_trace e) h')"
proof (cases "is_tripped (env_trace e) h")
  case True
  then obtain st where st: "dict_get (ht_states h) (env_trace e) = Some st" "hs_tripped st"
    by (auto simp: is_tripped_def split: option.splits)
  with inv have "hs_finding st \<noteq> None" using state_ok_get by (auto simp: honey_inv_def state_ok_def)
  with st run inv True show ?thesis by (auto simp: boundary_guard_def honey_below_refl)
next
  case False
  then have g: "boundary_guard phase e v h =
     (if phase = ''envelope'' then inspect_envelope e h
      else if phase = ''result'' then inspect_value v (env_trace e) (''result:'' @ env_recipient e @ '':'' @ env_type e) None h
      else (Inl (Raised (ValueError, ''unknown honeytoken guard phase: '' @ phase)), h))"
    by (auto simp: boundary_guard_def is_tripped_def split: option.splits)
  show ?thesis
  proof (cases "phase = ''envelope''")
    case True
    with g run have "inspect_envelope e h = (r, h')" by simp
    from inspect_envelope_keeps [OF inv this] show ?thesis by blast
  next
    case nenv: False
    show ?thesis
    proof (cases "phase = ''result''")
      case True
      with g run nenv have "inspect_value v (env_trace e) (''result:'' @ env_recipient e @ '':'' @ env_type e) None h = (r, h')"
        by simp
      from inspect_value_keeps [OF inv this] show ?thesis by blast
    next
      case False
      with g run nenv inv show ?thesis by (auto simp: honey_below_refl)
    qed
  qed
qed

lemma prune_loop_keeps:
  assumes "prune_loop n todo sts = (ok, sts')"
    and "\<And>t st. (t, st) \<in> set todo \<Longrightarrow> hs_tripped st = (case dict_get orig t of None \<Rightarrow> False | Some st \<Rightarrow> hs_tripped st)"
    and "\<And>t. dict_get sts t = dict_get orig t \<or> dict_get sts t = None \<and> (case dict_get orig t of None \<Rightarrow> True | Some st \<Rightarrow> \<not> hs_tripped st)"
    and "set sts \<subseteq> set orig" and "distinct (map fst sts)" and "length sts \<le> length orig"
  shows "(\<forall>t. dict_get sts' t = dict_get orig t \<or> dict_get sts' t = None \<and> (case dict_get orig t of None \<Rightarrow> True | Some st \<Rightarrow> \<not> hs_tripped st))
    \<and> set sts' \<subseteq> set orig \<and> distinct (map fst sts') \<and> length sts' \<le> length orig \<and> (ok \<longrightarrow> int (length sts') < n)"
  using assms
proof (induction n todo sts arbitrary: ok sts' rule: prune_loop.induct)
  case (1 n sts)
  then show ?case by auto
next
  case (2 n t st todo sts)
  show ?case
  proof (cases "hs_completed st \<and> \<not> hs_tripped st")
    case False
    with 2 show ?thesis by (simp add: Let_def)
  next
    case True
    have st: "case dict_get orig t of None \<Rightarrow> True | Some st \<Rightarrow> \<not> hs_tripped st"
      using "2.prems"(2) [of t st] True by (auto split: option.splits)
    have sub: "set (dict_pop t sts) \<subseteq> set orig" "distinct (map fst (dict_pop t sts))" "length (dict_pop t sts) \<le> length orig"
      using "2.prems"(4,5,6) by (auto simp: AList.delete_eq intro: order.trans [OF length_filter_le] distinct_map_filter)
    have get: "dict_get (dict_pop t sts) u = dict_get orig u
        \<or> dict_get (dict_pop t sts) u = None \<and> (case dict_get orig u of None \<Rightarrow> True | Some st \<Rightarrow> \<not> hs_tripped st)" for u
      using "2.prems"(3) [of u] st by auto
    show ?thesis
    proof (cases "int (length (dict_pop t sts)) < n")
      case True
      with \<open>hs_completed st \<and> \<not> hs_tripped st\<close> "2.prems"(1) sub get show ?thesis by (auto simp: Let_def)
    next
      case False
      with \<open>hs_completed st \<and> \<not> hs_tripped st\<close> "2.prems"(1)
      have rec: "prune_loop n todo (dict_pop t sts) = (ok, sts')" by (simp add: Let_def)
      from "2.IH"(1) [OF _ refl False rec] \<open>hs_completed st \<and> \<not> hs_tripped st\<close> "2.prems"(2) get sub show ?thesis by simp
    qed
  qed
qed

lemma prune_locked_keeps:
  assumes inv: "honey_inv h" and run: "prune_locked h = (r, h')"
  shows "honey_inv h' \<and> honey_below h h' \<and> (\<forall>u. r = Inr u \<longrightarrow> int (length (ht_states h')) < ht_max_runs h')
    \<and> (\<forall>t. dict_get (ht_states h) t = None \<longrightarrow> dict_get (ht_states h') t = None)"
proof (cases "int (length (ht_states h)) < ht_max_runs h")
  case True
  with assms show ?thesis by (auto simp: prune_locked_def honey_below_refl)
next
  case False
  let ?d = "ht_states h"
  obtain ok sts where p: "prune_loop (ht_max_runs h) ?d ?d = (ok, sts)" by fastforce
  have d: "distinct (map fst ?d)" "list_all state_ok ?d" using inv by (simp_all add: honey_inv_def)
  have todo: "hs_tripped st = (case dict_get ?d t of None \<Rightarrow> False | Some st \<Rightarrow> hs_tripped st)" if "(t, st) \<in> set ?d" for t st
    using that d(1) by (simp add: map_of_is_SomeI)
  from prune_loop_keeps [OF p, of ?d, OF todo] d(1) have
    K: "\<And>t. dict_get sts t = dict_get ?d t \<or> dict_get sts t = None \<and> (case dict_get ?d t of None \<Rightarrow> True | Some st \<Rightarrow> \<not> hs_tripped st)"
      "set sts \<subseteq> set ?d" "distinct (map fst sts)" "length sts \<le> length ?d" "ok \<longrightarrow> int (length sts) < ht_max_runs h"
    by auto
  have h': "h' = h\<lparr>ht_states := sts\<rparr>" "r = Inr u \<longrightarrow> ok" for u
    using run p False by (auto simp: prune_locked_def split: if_splits)
  have "honey_inv h'" using inv K(2,3,4) d(2) h'(1) by (auto simp: honey_inv_def list_all_iff)
  moreover have "honey_below h h'"
  proof -
    have "dict_get sts t = Some st" if "dict_get ?d t = Some st" "hs_tripped st" for t st using K(1) [of t] that by auto
    then show ?thesis by (auto simp: honey_below_def h'(1))
  qed
  moreover have "dict_get sts t = None" if "dict_get ?d t = None" for t using K(1) [of t] that by auto
  ultimately show ?thesis using K(5) h' by auto
qed

lemma mint_keeps:
  assumes inv: "honey_inv h" and run: "mint L body tid recipient message h = (r, h')"
  shows "honey_inv h' \<and> honey_below h h'"
proof (cases "dict_get (ht_states h) tid = None")
  case False
  with assms show ?thesis by (auto simp: mint_def honey_below_refl)
next
  case True
  obtain q h1 where p: "prune_locked h = (q, h1)" by fastforce
  note P = prune_locked_keeps [OF inv p]
  show ?thesis
  proof (cases q)
    case (Inl x)
    with P True p run show ?thesis by (auto simp: mint_def)
  next
    case (Inr u)
    with P True have fresh: "dict_get (ht_states h1) tid = None" and room: "int (length (ht_states h1)) < ht_max_runs h1" by auto
    obtain st where st: "h' = h1\<lparr>ht_states := dict_set tid st (ht_states h1)\<rparr>" "hs_trace st = tid" "\<not> hs_tripped st"
      using run True p Inr by (auto simp: mint_def Let_def)
    have "honey_inv h'" using P fresh room st
      by (auto simp: honey_inv_def list_all_state_ok_set state_ok_def length_dict_set)
    moreover have "honey_below h1 h'" using fresh st(1) by (auto simp: honey_below_def)
    ultimately show ?thesis using P honey_below_trans by blast
  qed
qed

lemma complete_keeps: "honey_inv h \<Longrightarrow> honey_inv (complete tid h) \<and> honey_below h (complete tid h)"
proof (cases "dict_get (ht_states h) tid")
  case (Some st)
  assume inv: "honey_inv h"
  with Some have "state_ok (tid, st)" by (auto simp: honey_inv_def intro: state_ok_get)
  with honey_update [OF inv Some, of "st\<lparr>hs_completed := True\<rparr>"] Some show ?thesis
    by (auto simp: complete_def state_ok_def)
qed (simp add: complete_def honey_below_refl)

lemma honey_step_keeps: "honey_inv h \<Longrightarrow> honey_inv (snd (honey_step L op h)) \<and> honey_below h (snd (honey_step L op h))"
proof (cases op)
  case (Mint body tid recipient message)
  assume "honey_inv h"
  from mint_keeps [OF this] Mint show ?thesis by (simp add: Let_def case_prod_beta) (metis prod.collapse)
next
  case (Complete tid)
  assume "honey_inv h"
  with complete_keeps Complete show ?thesis by simp
next
  case (Guard phase e v)
  assume "honey_inv h"
  from boundary_guard_keeps [OF this] Guard show ?thesis by (simp add: Let_def case_prod_beta) (metis prod.collapse)
next
  case (External tid v channel)
  assume "honey_inv h"
  from inspect_value_keeps [OF this] External show ?thesis
    by (simp add: Let_def case_prod_beta inspect_external_write_def) (metis prod.collapse)
qed

interpretation honey: stateful_object "honey_step L" honey_inv honey_below
  by unfold_locales (blast intro: honey_below_refl honey_below_trans dest: honey_step_keeps)+

section \<open>Nothing leaks past the guard\<close>

text \<open>No encoding of a tracked token occurs in a text, nor across the values put side by side.\<close>

definition carries_token :: "honey_state list \<Rightarrow> string \<Rightarrow> bool" where
  "carries_token owners text \<longleftrightarrow>
     (\<exists>st \<in> set owners. \<exists>(name, marker) \<in> set (representations (hs_token st)). marker \<noteq> [] \<and> sublist marker text)"

lemma matching_None: "matching_representation token text = None \<longleftrightarrow>
    (\<forall>(name, marker) \<in> set (representations token). marker = [] \<or> \<not> sublist marker text)"
  by (auto simp: matching_representation_def find_None_iff contains_sublist)

lemma head_None: "(case xs of [] \<Rightarrow> None | x # _ \<Rightarrow> Some x) = None \<longleftrightarrow> xs = []"
  by (cases xs) auto

lemma first_leak_None:
  "first_leak cands owners = None \<longleftrightarrow> (\<forall>(path, text) \<in> set cands. \<not> carries_token owners text)"
proof -
  have "first_leak cands owners = None \<longleftrightarrow>
      (\<forall>(path, text) \<in> set cands. \<forall>st \<in> set owners. matching_representation (hs_token st) text = None)"
  proof -
    have "first_leak cands owners = None \<longleftrightarrow>
        [(path, st, rep). (path, text) \<leftarrow> cands, st \<leftarrow> owners,
           rep \<leftarrow> (case matching_representation (hs_token st) text of None \<Rightarrow> [] | Some r \<Rightarrow> [r])] = []"
      unfolding first_leak_def by (rule head_None)
    then show ?thesis by (auto simp: concat_eq_Nil_conv split: option.splits)
  qed
  then show ?thesis unfolding matching_None carries_token_def by blast
qed

lemma inspect_value_passed:
  assumes "inspect_value v tid stage allowed h = (Inr u, h')"
  shows "h' = h \<and> (\<forall>(path, text) \<in> set (collect_strings v allowed). \<not> carries_token (map snd (ht_states h)) text)
    \<and> (value_texts (collect_strings v allowed) \<noteq> [] \<longrightarrow>
         \<not> carries_token (map snd (ht_states h)) (concat (value_texts (collect_strings v allowed))))
    \<and> int (sum_list (map (py_len \<circ> snd) (collect_strings v allowed))) \<le> ht_max_scan h"
proof -
  let ?s = "collect_strings v allowed"
  from assms have "h' = h" "int (sum_list (map (py_len \<circ> snd) ?s)) \<le> ht_max_scan h"
    and "first_leak (candidates ?s) (map snd (ht_states h)) = None"
    by (auto simp: inspect_value_def Let_def split: if_splits option.splits prod.splits)
  then show ?thesis unfolding first_leak_None candidates_def by (auto split: if_splits)
qed

lemma exempt_tokens:
  "map (\<lambda>st. hs_token st) (map snd (map (\<lambda>(t, st). (t, if t = tid then st\<lparr>hs_exposed := True\<rparr> else st)) d)) = map (\<lambda>st. hs_token st) (map snd d)"
  by (induction d) auto

lemma carries_token_cong: "map hs_token owners = map hs_token owners' \<Longrightarrow> carries_token owners text = carries_token owners' text"
proof -
  assume "map hs_token owners = map hs_token owners'"
  then have "hs_token ` set owners = hs_token ` set owners'" by (metis list.set_map)
  moreover have "carries_token os text \<longleftrightarrow> (\<exists>t \<in> hs_token ` set os. \<exists>(name, marker) \<in> set (representations t). marker \<noteq> [] \<and> sublist marker text)" for os
    by (auto simp: carries_token_def)
  ultimately show ?thesis by (simp only:)
qed


text \<open>
  C37. A leak is final. When the guard reports a leak on a tracked run, then whatever the agent does
  afterwards (new runs, completions, prunings, further inspections), the run stays tracked and every
  later guard call on it, for any message or result, is refused with a leak again.
\<close>

theorem canary_leak_is_final:
  assumes inv: "honey_inv h" and run: "boundary_guard phase e v h = (Inl (Leak f), h')"
    and tracked: "dict_get (ht_states h) (env_trace e) \<noteq> None" and "env_trace e' = env_trace e"
  shows "let h'' = snd (run_ops (honey_step L) ops h') in
         \<exists>g. boundary_guard phase' e' v' h'' = (Inl (Leak g), h'')"
proof -
  let ?h = "snd (run_ops (honey_step L) ops h')"
  from boundary_guard_keeps [OF inv run] tracked have k: "honey_inv h'" "is_tripped (env_trace e) h'" by blast+
  from honey.run_inv [OF k(1)] is_tripped_below [OF honey.run_below [OF k(1)] k(2)]
  have "honey_inv ?h" "is_tripped (env_trace e') ?h" using assms(4) by simp_all
  then obtain st g where "dict_get (ht_states ?h) (env_trace e') = Some st" "hs_tripped st" "hs_finding st = Some g"
    using state_ok_get by (fastforce simp: is_tripped_def honey_inv_def state_ok_def split: option.splits)
  then show ?thesis by (simp add: boundary_guard_def Let_def)
qed

section \<open>The exemption is used once\<close>

definition exposure_spent :: "string \<Rightarrow> honey_agent \<Rightarrow> bool" where
  "exposure_spent tid h = (case dict_get (ht_states h) tid of None \<Rightarrow> True | Some st \<Rightarrow> hs_exposed st)"

lemma trip_spent: "exposure_spent tid (trip t f h) = exposure_spent tid h"
  by (auto simp: exposure_spent_def trip_def split: option.splits)

lemma inspect_value_spent: "exposure_spent tid (snd (inspect_value v t stage allowed h)) = exposure_spent tid h"
  by (simp add: inspect_value_def Let_def trip_spent split: option.splits prod.splits)

lemma expose_get:
  "dict_get (map (\<lambda>(t, st). (t, if t = tid then st\<lparr>hs_exposed := True\<rparr> else st)) d) u
     = map_option (\<lambda>st. if u = tid then st\<lparr>hs_exposed := True\<rparr> else st) (dict_get d u)"
  by (induction d) auto

lemma inspect_envelope_spent:
  "exposure_spent tid (snd (inspect_envelope e h)) = (exposure_spent tid h \<or> exempts h e \<and> tid = env_trace e)"
  unfolding inspect_envelope_def Let_def inspect_value_spent
  by (auto simp: exposure_spent_def expose_get split: option.splits)

lemma boundary_guard_spent:
  assumes "exposure_spent tid h"
  shows "exposure_spent tid (snd (boundary_guard phase e v h))"
  using assms by (simp add: boundary_guard_def inspect_envelope_spent inspect_value_spent split: option.split bool.split)

lemma boundary_guard_exempts:
  assumes "exempts h e" and "\<not> is_tripped (env_trace e) h"
  shows "exposure_spent (env_trace e) (snd (boundary_guard ''envelope'' e v h))" and "\<not> exposure_spent (env_trace e) h"
proof -
  from assms(2) have "boundary_guard ''envelope'' e v h = inspect_envelope e h"
    by (auto simp: boundary_guard_def is_tripped_def split: option.splits)
  with assms(1) show "exposure_spent (env_trace e) (snd (boundary_guard ''envelope'' e v h))"
    by (simp add: inspect_envelope_spent)
  from assms(1) show "\<not> exposure_spent (env_trace e) h"
    by (auto simp: exempts_def exposure_spent_def split: option.splits)
qed

lemma prune_loop_spent:
  "(case dict_get sts tid of None \<Rightarrow> True | Some st \<Rightarrow> hs_exposed st) \<Longrightarrow>
   (case dict_get (snd (prune_loop n todo sts)) tid of None \<Rightarrow> True | Some st \<Rightarrow> hs_exposed st)"
  by (induction n todo sts rule: prune_loop.induct) (auto simp: Let_def)

lemma mint_spent: "t \<noteq> tid \<Longrightarrow> exposure_spent tid h \<Longrightarrow> exposure_spent tid (snd (mint L body t recipient message h))"
proof -
  assume "t \<noteq> tid" and h: "exposure_spent tid h"
  obtain q h1 where p: "prune_locked h = (q, h1)" by fastforce
  have "exposure_spent tid h1"
    using p h prune_loop_spent [of "ht_states h" tid "ht_max_runs h" "ht_states h"]
    by (auto simp: prune_locked_def exposure_spent_def case_prod_beta Let_def split: if_splits)
  with h \<open>t \<noteq> tid\<close> p show ?thesis by (auto simp: mint_def exposure_spent_def Let_def split: sum.splits)
qed

lemma honey_step_spent:
  assumes "\<nexists>body recipient message. op = Mint body tid recipient message" and "honey_step L op h = (x, h')"
  shows "exposure_spent tid h \<longrightarrow> exposure_spent tid h'"
    and "fst x = Some tid \<longrightarrow> \<not> exposure_spent tid h \<and> exposure_spent tid h'"
proof -
  have "(exposure_spent tid h \<longrightarrow> exposure_spent tid h') \<and> (fst x = Some tid \<longrightarrow> \<not> exposure_spent tid h \<and> exposure_spent tid h')"
  proof (cases op)
    case (Mint body t recipient message)
    with assms mint_spent [of t tid h L body recipient message] show ?thesis by (auto simp: Let_def case_prod_beta)
  next
    case (Complete t)
    with assms show ?thesis by (auto simp: complete_def exposure_spent_def split: option.splits if_splits)
  next
    case (Guard phase e v)
    with assms boundary_guard_spent [of tid h phase e v] boundary_guard_exempts(1) [of h e v] boundary_guard_exempts(2) [of h e] show ?thesis
      by (auto simp: Let_def case_prod_beta split: if_splits)
  next
    case (External t v channel)
    with assms inspect_value_spent [of tid v t "''external:'' @ channel" None h] show ?thesis
      by (auto simp: Let_def case_prod_beta inspect_external_write_def)
  qed
  then show "exposure_spent tid h \<longrightarrow> exposure_spent tid h'"
    and "fst x = Some tid \<longrightarrow> \<not> exposure_spent tid h \<and> exposure_spent tid h'" by blast+
qed

lemma run_ok_all: "list_all P ops \<Longrightarrow> run_ok (\<lambda>op _. P op) f ops s"
  by (induction ops arbitrary: s) auto

text \<open>
  The canary is exposed once. In any sequence of operations that does not mint the same run again,
  at most one delivery is granted the exemption under which the raw token may appear; and the number
  of tracked runs never exceeds its limit.
\<close>

theorem canary_exposed_once:
  assumes "list_all (\<lambda>op. \<nexists>body recipient message. op = Mint body tid recipient message) ops"
  shows "length (filter (\<lambda>x. fst x = Some tid) (fst (run_ops (honey_step L) ops h))) \<le> 1
         \<and> (honey_inv h \<longrightarrow> int (length (ht_states (snd (run_ops (honey_step L) ops h)))) \<le> ht_max_runs h)"
proof
  have "length (filter (\<lambda>x. fst x = Some tid) (fst (run_ops (honey_step L) ops h))) \<le> (if exposure_spent tid h then 0 else 1)"
    by (rule run_ops_count [OF run_ok_all [OF assms], where used = "exposure_spent tid"])
      (use honey_step_spent in blast)+
  then show "length (filter (\<lambda>x. fst x = Some tid) (fst (run_ops (honey_step L) ops h))) \<le> 1" by (auto split: if_splits)
  show "honey_inv h \<longrightarrow> int (length (ht_states (snd (run_ops (honey_step L) ops h)))) \<le> ht_max_runs h"
  proof
    assume inv: "honey_inv h"
    from honey.run_inv [OF inv, of L ops] honey.run_below [OF inv, of L ops] show "int (length (ht_states (snd (run_ops (honey_step L) ops h)))) \<le> ht_max_runs h"
      by (auto simp: honey_inv_def honey_below_def)
  qed
qed

section \<open>A run evaluated\<close>

definition demo_honey :: honey_agent where
  "demo_honey = \<lparr>ht_id = ''honeytoken'', ht_max_scan = 4096, ht_max_runs = 8,
     ht_states = [(''t1'', \<lparr>hs_trace = ''t1'', hs_token = CANARY_PREFIX @ ''abc'', hs_fingerprint = ''f0'',
       hs_recipient = ''coordinator'', hs_message = Some ''m1'', hs_exposed = False, hs_tripped = False,
       hs_completed = False, hs_finding = None\<rparr>)]\<rparr>"

definition demo_task :: envelope where
  "demo_task = \<lparr>env_message = ''m1'', env_trace = ''t1'', env_sender = ''system'', env_recipient = ''coordinator'',
     env_type = ''task'', env_payload = [(''trusted_context'', PDict [(''canary'', PStr (CANARY_PREFIX @ ''abc''))])], env_hops = 0\<rparr>"

lemma demo_honey_inv: "honey_inv demo_honey"
  by (simp add: honey_inv_def demo_honey_def state_ok_def)

lemma demo_first_passes: "fst (boundary_guard ''envelope'' demo_task PNone demo_honey) = Inr ()"
  by code_simp


theorem canary_leak_is_final_witness:
  "\<exists>f h' g. boundary_guard ''result'' demo_task (PSeq [PStr ''BULL-CANARY-'', PStr ''v1:abc'']) demo_honey = (Inl (Leak f), h')
     \<and> fst (boundary_guard ''envelope'' demo_task PNone (snd (run_ops (honey_step plain_lib) [Complete ''t1''] h'))) = Inl (Leak g)"
proof -
  have "case fst (boundary_guard ''result'' demo_task (PSeq [PStr ''BULL-CANARY-'', PStr ''v1:abc'']) demo_honey) of
      Inl (Leak f) \<Rightarrow> True | _ \<Rightarrow> False"
    by code_simp
  then obtain f h' where r: "boundary_guard ''result'' demo_task (PSeq [PStr ''BULL-CANARY-'', PStr ''v1:abc'']) demo_honey = (Inl (Leak f), h')"
    by (auto split: sum.splits agent_exn.splits) (metis prod.collapse)
  have "dict_get (ht_states demo_honey) (env_trace demo_task) \<noteq> None" by (simp add: demo_honey_def demo_task_def)
  from canary_leak_is_final [OF demo_honey_inv r this refl, of plain_lib "[Complete ''t1'']" "''envelope''" PNone]
  obtain g where "boundary_guard ''envelope'' demo_task PNone (snd (run_ops (honey_step plain_lib) [Complete ''t1''] h'))
      = (Inl (Leak g), snd (run_ops (honey_step plain_lib) [Complete ''t1''] h'))" by (auto simp: Let_def)
  with r show ?thesis by (metis fst_conv)
qed

theorem canary_exposed_once_witness:
  "length (filter (\<lambda>x. fst x = Some ''t1'')
     (fst (run_ops (honey_step plain_lib) [Guard ''envelope'' demo_task PNone, Guard ''envelope'' demo_task PNone] demo_honey))) \<le> 1"
  using canary_exposed_once [of "''t1''" "[Guard ''envelope'' demo_task PNone, Guard ''envelope'' demo_task PNone]" plain_lib demo_honey]
  by simp

text \<open>
  The texts under a dictionary key are told from the keys themselves by the last component
  of their path. A value stored under a key of the very name that marks keys is taken for a key, so
  it is left out of the joined values: a token split over two such values passes, while the same
  split in a list is caught.
\<close>

lemma key_named_split_passes:
  "fst (boundary_guard ''result'' demo_task
      (PDict [(''x'', PDict [(''<key>'', PStr ''BULL-CANARY-v1:a'')]), (''y'', PDict [(''<key>'', PStr ''bc'')])]) demo_honey) = Inr ()"
  by code_simp

end
