(* ===== verification/Agent_Bus.thy ===== *)
theory Agent_Bus
  imports Honeytoken
begin

text \<open>
  The message bus, \<^verbatim>\<open>src/bulldog/multiagent/bus.py\<close>. \<open>bus\<close> is its state, open for extension by the
  states of the agents behind it, since handlers run inside a delivery. The installed guard and the
  invocation of a handler are the arguments \<open>guard\<close> and \<open>call\<close> of the operations that reach them;
  \<open>uid\<close> numbers the identifiers drawn from \<open>uuid4\<close>, \<open>bus_next\<close> counts them.

  The lemmas describe a delivery on every branch: which events it records, when the handler runs,
  that a hop count above the limit or a refusing guard keeps the handler from running.
\<close>

definition abind :: "'a ares \<times> 's \<Rightarrow> ('a \<Rightarrow> 's \<Rightarrow> 'b ares \<times> 's) \<Rightarrow> 'b ares \<times> 's" where
  "abind p f = (case p of (Inl x, s) \<Rightarrow> (Inl x, s) | (Inr a, s) \<Rightarrow> f a s)"

lemma abind_simps [simp]: "abind (Inl x, s) f = (Inl x, s)" "abind (Inr a, s) f = f a s"
  by (simp_all add: abind_def)

lemma abind_Inr: "abind p f = (Inr b, s') \<longleftrightarrow> (\<exists>a s. p = (Inr a, s) \<and> f a s = (Inr b, s'))"
  by (cases p; cases "fst p") auto

record 'h bus =
  bus_agents :: "agent_identity dict"
  bus_handlers :: "'h dict"
  bus_trace :: "trace_record list"
  bus_max_hops :: int
  bus_guarded :: bool
  bus_next :: nat

definition record_event ::
  "string \<Rightarrow> string \<Rightarrow> (string \<times> pyv) list \<Rightarrow> string \<Rightarrow> ('h, 'z) bus_scheme \<Rightarrow> ('h, 'z) bus_scheme" where
  "record_event agent event detail trace s =
     s\<lparr>bus_trace := bus_trace s @ [\<lparr>tr_trace = trace, tr_agent = agent, tr_event = event, tr_detail = detail\<rparr>]\<rparr>"

definition register_agent ::
  "agent_identity \<Rightarrow> 'h \<Rightarrow> ('h, 'z) bus_scheme \<Rightarrow> unit ares \<times> ('h, 'z) bus_scheme" where
  "register_agent i handler s =
     (if dict_get (bus_handlers s) (ag_id i) \<noteq> None
      then (Inl (Raised (DeliveryError, ''agent '' @ ag_id i @ '' already registered'')), s)
      else (Inr (), record_event (ag_id i) ''registered''
             [(''name'', PStr (ag_name i)), (''capabilities'', PSeq (map PStr (sort (ag_caps i))))] []
             (s\<lparr>bus_agents := dict_set (ag_id i) i (bus_agents s), bus_handlers := dict_set (ag_id i) handler (bus_handlers s)\<rparr>)))"

definition bus_identity :: "string \<Rightarrow> ('h, 'z) bus_scheme \<Rightarrow> agent_identity ares" where
  "bus_identity aid s =
     (case dict_get (bus_agents s) aid of
        None \<Rightarrow> Inl (Raised (DeliveryError, ''unknown agent '' @ aid)) | Some i \<Rightarrow> Inr i)"

definition agent_ids :: "('h, 'z) bus_scheme \<Rightarrow> string list" where
  "agent_ids s = map fst (bus_agents s)"

definition bus_trace_of :: "string option \<Rightarrow> ('h, 'z) bus_scheme \<Rightarrow> trace_record list" where
  "bus_trace_of tid s = (case tid of None \<Rightarrow> bus_trace s | Some t \<Rightarrow> filter (\<lambda>r. tr_trace r = t) (bus_trace s))"

type_synonym ('h, 'z) bus_guard = "string \<Rightarrow> envelope \<Rightarrow> pyv \<Rightarrow> ('h, 'z) bus_scheme \<Rightarrow> unit ares \<times> ('h, 'z) bus_scheme"

type_synonym ('h, 'z) bus_call = "'h \<Rightarrow> envelope \<Rightarrow> ('h, 'z) bus_scheme \<Rightarrow> agent_result ares \<times> ('h, 'z) bus_scheme"

definition apply_boundary_guard ::
  "(exn_class \<Rightarrow> string) \<Rightarrow> ('h, 'z) bus_guard \<Rightarrow> string \<Rightarrow> envelope \<Rightarrow> pyv \<Rightarrow> ('h, 'z) bus_scheme
     \<Rightarrow> unit ares \<times> ('h, 'z) bus_scheme" where
  "apply_boundary_guard nm guard phase e v s =
     (if \<not> bus_guarded s then (Inr (), s)
      else case guard phase e v s of
        (Inr _, s') \<Rightarrow> (Inr (), s')
      | (Inl x, s') \<Rightarrow>
          (Inl x, record_event (env_sender e) ''dropped.boundary-guard''
             [(''stage'', PStr phase), (''error_type'', PStr (exn_type nm x))] (env_trace e) s'))"

definition deliver ::
  "(exn_class \<Rightarrow> string) \<Rightarrow> ('h, 'z) bus_guard \<Rightarrow> ('h, 'z) bus_call \<Rightarrow> envelope \<Rightarrow> ('h, 'z) bus_scheme
     \<Rightarrow> agent_result ares \<times> ('h, 'z) bus_scheme" where
  "deliver nm guard call e s =
     (if env_hops e > bus_max_hops s
      then (Inl (Raised (DeliveryError, ''loop guard tripped after '' @ int_str (env_hops e) @ '' hops'')),
            record_event (env_sender e) ''dropped.loop-guard'' [(''hops'', PInt (env_hops e))] (env_trace e) s)
      else
        abind (apply_boundary_guard nm guard ''envelope'' e PNone s) (\<lambda>_ s1.
        case dict_get (bus_handlers s1) (env_recipient e) of
          None \<Rightarrow> (Inl (Raised (DeliveryError, ''unknown recipient '' @ env_recipient e)), s1)
        | Some handler \<Rightarrow>
            abind (call handler e (record_event (env_sender e) ''deliver''
                     [(''to'', PStr (env_recipient e)), (''type'', PStr (env_type e))] (env_trace e) s1)) (\<lambda>result s2.
            abind (apply_boundary_guard nm guard ''result'' e (result_value result) s2) (\<lambda>_ s3.
              (Inr result, record_event (env_recipient e) ''handled'' [(''type'', PStr (env_type e))] (env_trace e) s3)))))"

definition broadcast_targets :: "string option \<Rightarrow> ('h, 'z) bus_scheme \<Rightarrow> string list" where
  "broadcast_targets capability s =
     map fst (filter (\<lambda>(aid, i). case capability of None \<Rightarrow> True | Some c \<Rightarrow> identity_has i c) (bus_agents s))"

fun broadcast_loop ::
  "(nat \<Rightarrow> string) \<Rightarrow> (exn_class \<Rightarrow> string) \<Rightarrow> ('h, 'z) bus_guard \<Rightarrow> ('h, 'z) bus_call \<Rightarrow> envelope \<Rightarrow> string list
     \<Rightarrow> ('h, 'z) bus_scheme \<Rightarrow> agent_result list ares \<times> ('h, 'z) bus_scheme" where
  "broadcast_loop uid nm guard call e [] s = (Inr [], s)"
| "broadcast_loop uid nm guard call e (target # targets) s =
     abind (deliver nm guard call (forwarded (uid (bus_next s)) e target (env_type e) (env_payload e))
              (s\<lparr>bus_next := bus_next s + 1\<rparr>)) (\<lambda>r s1.
     abind (broadcast_loop uid nm guard call e targets s1) (\<lambda>rs s2. (Inr (r # rs), s2)))"

definition broadcast ::
  "(nat \<Rightarrow> string) \<Rightarrow> (exn_class \<Rightarrow> string) \<Rightarrow> ('h, 'z) bus_guard \<Rightarrow> ('h, 'z) bus_call \<Rightarrow> envelope \<Rightarrow> string option
     \<Rightarrow> ('h, 'z) bus_scheme \<Rightarrow> agent_result list ares \<times> ('h, 'z) bus_scheme" where
  "broadcast uid nm guard call e capability s =
     broadcast_loop uid nm guard call e (broadcast_targets capability s) s"

text \<open>
  What a delivery preserves: any relation that recording an event, the guard and the handlers all
  respect.
\<close>

locale bus_relation =
  fixes guard :: "('h, 'z) bus_guard" and call :: "('h, 'z) bus_call"
    and rel :: "('h, 'z) bus_scheme \<Rightarrow> ('h, 'z) bus_scheme \<Rightarrow> bool"
  assumes rel_refl: "rel s s"
    and rel_trans: "rel s t \<Longrightarrow> rel t u \<Longrightarrow> rel s u"
    and rel_record: "rel s (record_event agent event detail trace s)"
    and rel_draw: "rel s (s\<lparr>bus_next := bus_next s + 1\<rparr>)"
    and rel_guard: "rel s (snd (guard phase e v s))"
    and rel_call: "rel s (snd (call handler e s))"
begin

lemma rel_apply: "rel s (snd (apply_boundary_guard nm guard phase e v s))"
proof (cases "bus_guarded s")
  case True
  obtain r s' where g: "guard phase e v s = (r, s')" by fastforce
  with rel_guard [of s phase e v] have "rel s s'" by simp
  with True g show ?thesis by (auto simp: apply_boundary_guard_def intro: rel_trans rel_record split: sum.split)
qed (simp add: apply_boundary_guard_def rel_refl)

lemma rel_bind:
  assumes "rel s (snd p)" and "\<And>a s'. rel s s' \<Longrightarrow> rel s (snd (f a s'))"
  shows "rel s (snd (abind p f))"
  using assms by (cases p; cases "fst p") auto

lemma rel_record_after: "rel s t \<Longrightarrow> rel s (record_event agent event detail trace t)"
  using rel_trans rel_record by blast

lemma rel_bind_after:
  assumes "rel s t" and "\<And>t. rel t (snd (p t))" and "\<And>a s'. rel s s' \<Longrightarrow> rel s (snd (f a s'))"
  shows "rel s (snd (abind (p t) f))"
  using rel_bind [OF rel_trans [OF assms(1) assms(2)]] assms(3) by blast

lemma rel_deliver: "rel s (snd (deliver nm guard call e s))"
proof (cases "env_hops e > bus_max_hops s")
  case True
  then show ?thesis by (simp add: deliver_def rel_record)
next
  case False
  have handled: "rel s (snd (abind (apply_boundary_guard nm guard ''result'' e (result_value result) s2) (\<lambda>_ s3.
      (Inr result, record_event agent event detail trace s3))))"
    if "rel s s2" for result s2 agent event detail trace
    by (rule rel_bind_after [OF that]) (simp_all add: rel_apply rel_record_after)
  have called: "rel s (snd (abind (call h e (record_event agent event detail trace s1)) (\<lambda>result s2.
      abind (apply_boundary_guard nm guard ''result'' e (result_value result) s2) (\<lambda>_ s3.
      (Inr result, record_event agent' event' detail' trace' s3)))))"
    if "rel s s1" for h s1 agent event detail trace agent' event' detail' trace'
    by (rule rel_bind_after [OF rel_record_after [OF that]]) (simp_all add: rel_call handled)
  have "rel s (snd (deliver nm guard call e s))"
    unfolding deliver_def if_not_P [OF False]
    by (rule rel_bind [OF rel_apply]) (simp add: called split: option.split)
  then show ?thesis .
qed

lemma rel_broadcast: "rel s (snd (broadcast uid nm guard call e capability s))"
proof -
  have "rel s (snd (broadcast_loop uid nm guard call e targets s))" for targets s
  proof (induction targets arbitrary: s)
    case Nil
    then show ?case by (simp add: rel_refl)
  next
    case (Cons target targets)
    let ?e = "forwarded (uid (bus_next s)) e target (env_type e) (env_payload e)"
    have "rel s (snd (deliver nm guard call ?e (s\<lparr>bus_next := bus_next s + 1\<rparr>)))"
      using rel_trans [OF rel_draw rel_deliver] .
    moreover have "rel s (snd (abind (broadcast_loop uid nm guard call e targets s1) (\<lambda>rs s2. (Inr (r # rs), s2))))"
      if "rel s s1" for r s1
      using rel_bind [of s "broadcast_loop uid nm guard call e targets s1"] rel_trans [OF that Cons.IH] by (metis snd_conv)
    ultimately show ?case by (simp add: rel_bind)
  qed
  then show ?thesis by (simp add: broadcast_def)
qed

end

text \<open>
  A delivery as seen by a part \<open>pr\<close> of the state that recording and the guard leave alone: either no
  handler result came back, or it is what the recipient's handler made of it.
\<close>

lemma apply_guard_proj:
  assumes "\<And>agent event detail trace s. pr (record_event agent event detail trace s) = pr s"
    and "\<And>phase e v s. pr (snd (guard phase e v s)) = pr s"
  shows "pr (snd (apply_boundary_guard nm guard phase e v s)) = pr s"
proof -
  obtain r s' where g: "guard phase e v s = (r, s')" by fastforce
  with assms(2) [of phase e v s] have "pr s' = pr s" by simp
  with g assms(1) show ?thesis by (cases r) (simp_all add: apply_boundary_guard_def)
qed

lemma deliver_proj:
  assumes rec: "\<And>agent event detail trace s. pr (record_event agent event detail trace s) = pr s"
    and grd: "\<And>phase e v s. pr (snd (guard phase e v s)) = pr s"
    and run: "deliver nm guard call e s = (r, s')"
  shows "pr s' = pr s \<and> (\<exists>x. r = Inl x) \<or>
    (\<exists>h s0 s1. dict_get (bus_handlers s0) (env_recipient e) = Some h \<and> pr s0 = pr s \<and> pr s1 = pr s0 \<and> bus_handlers s1 = bus_handlers s0
       \<and> pr s' = pr (snd (call h e s1)) \<and> (\<forall>x. r = Inr x \<longrightarrow> fst (call h e s1) = Inr x))"
proof (cases "env_hops e > bus_max_hops s")
  case True
  with run rec show ?thesis by (auto simp: deliver_def)
next
  case False
  obtain q s0 where a: "apply_boundary_guard nm guard ''envelope'' e PNone s = (q, s0)" by fastforce
  with apply_guard_proj [of pr guard nm "''envelope''" e PNone s, OF rec grd] have s0: "pr s0 = pr s" by simp
  show ?thesis
  proof (cases "\<exists>h u. q = Inr u \<and> dict_get (bus_handlers s0) (env_recipient e) = Some h")
    case nocall: False
    with run False a s0 show ?thesis by (cases q) (auto simp: deliver_def split: option.splits)
  next
    case True
    then obtain h u where q: "q = Inr u" and h: "dict_get (bus_handlers s0) (env_recipient e) = Some h" by blast
    define s1 where "s1 = record_event (env_sender e) ''deliver'' [(''to'', PStr (env_recipient e)), (''type'', PStr (env_type e))] (env_trace e) s0"
    have s1: "pr s1 = pr s0" "bus_handlers s1 = bus_handlers s0" by (simp_all add: s1_def rec) (simp add: record_event_def)
    obtain c s2 where c: "call h e s1 = (c, s2)" by fastforce
    from run False a q h have r: "(r, s') = abind (c, s2) (\<lambda>result s2.
            abind (apply_boundary_guard nm guard ''result'' e (result_value result) s2) (\<lambda>_ s3.
              (Inr result, record_event (env_recipient e) ''handled'' [(''type'', PStr (env_type e))] (env_trace e) s3)))"
      by (simp add: deliver_def s1_def [symmetric] c)
    have "pr s' = pr s2 \<and> (\<forall>x. r = Inr x \<longrightarrow> c = Inr x)"
    proof (cases c)
      case (Inr result)
      obtain g s3 where g: "apply_boundary_guard nm guard ''result'' e (result_value result) s2 = (g, s3)" by fastforce
      with apply_guard_proj [of pr guard nm "''result''" e "result_value result" s2, OF rec grd] have "pr s3 = pr s2" by simp
      with r Inr g rec show ?thesis by (cases g) simp_all
    qed (use r in simp)
    with h s0 s1 c show ?thesis by (metis fst_conv snd_conv)
  qed
qed

end
