(* ===== verification/Agents.thy ===== *)
theory Agents
  imports Agent_Bus
begin

text \<open>
  The built-in agents, \<^verbatim>\<open>src/bulldog/multiagent/agents.py\<close> (its scanner is in \<^verbatim>\<open>Agent_Scanner\<close>).
  \<open>mas\<close> extends the state of the bus by what the agents keep: the canary monitor, the policy rules and
  the one-time approval tokens of the policy agent, the action table of the executor, and the world on
  which the actions act. Actions are host code: functions from arguments and world to a result and a
  world; they do not call back into the system.

  \<open>agent_env\<close> collects what the interpreter provides: the text library, the word characters beyond
  ASCII, how composite values and exceptions print, the names of exception classes, the identifiers
  drawn from \<open>uuid4\<close> and the bodies drawn from \<open>secrets\<close>.

  The lemmas show that a token is consumed by at most one execution of the action it was minted for,
  that an action runs only through the executor and only on such a token, and what each agent answers.
\<close>

record agent_env =
  ae_lib :: pylib
  ae_word :: "int \<Rightarrow> bool"
  ae_show :: "pyv \<Rightarrow> string"
  ae_repr :: "agent_exn \<Rightarrow> string"
  ae_name :: "exn_class \<Rightarrow> string"
  ae_uid :: "nat \<Rightarrow> string"
  ae_body :: "nat \<Rightarrow> string"

datatype agent_kind = A_Honey | A_Coordinator | A_Policy | A_Executor | A_Auditor | A_Verifier

definition rbind :: "'a res \<Rightarrow> ('a \<Rightarrow> 'b res) \<Rightarrow> 'b res" where
  "rbind r f = (case r of Inl x \<Rightarrow> Inl x | Inr a \<Rightarrow> f a)"

lemma rbind_simps [simp]: "rbind (Inl x) f = Inl x" "rbind (Inr a) f = f a"
  by (simp_all add: rbind_def)

lemma rbind_Inr: "rbind r f = Inr b \<longleftrightarrow> (\<exists>a. r = Inr a \<and> f a = Inr b)"
  by (cases r) auto

section \<open>Policy rules\<close>

record policy_rule =
  pr_match :: "string \<Rightarrow> bool"
  pr_verdict :: verdict
  pr_code :: string
  pr_description :: string

definition DEFAULT_POLICY_RULES :: "policy_rule list" where
  "DEFAULT_POLICY_RULES =
     [\<lparr>pr_match = (\<lambda>a. a = ''echo'' \<or> a = ''sum''), pr_verdict = V_ALLOW, pr_code = ''policy.allowlist'', pr_description = []\<rparr>,
      \<lparr>pr_match = (\<lambda>a. char_of (10 :: nat) \<notin> set a), pr_verdict = V_DENY, pr_code = ''policy.default-deny'',
       pr_description = ''Action not on the allowlist''\<rparr>]"

fun decide :: "policy_rule list \<Rightarrow> string \<Rightarrow> verdict" where
  "decide [] action = V_DENY"
| "decide (rule # rules) action = (if pr_match rule action then pr_verdict rule else decide rules action)"

section \<open>State\<close>

type_synonym 'w action_fn = "(string \<times> pyv) list \<Rightarrow> 'w \<Rightarrow> pyv ares \<times> 'w"

record 'w mas = "agent_kind bus" +
  mas_honey :: honey_agent
  mas_coordinator :: string
  mas_policy :: string
  mas_executor :: string
  mas_auditor :: string
  mas_verifier :: string
  mas_rules :: "policy_rule list"
  mas_tokens :: "string dict"
  mas_actions :: "'w action_fn dict"
  mas_world :: 'w

definition lift_res :: "'a res \<Rightarrow> 'a ares" where
  "lift_res r = map_sum Raised id r"

lemma lift_res_simps [simp]: "lift_res (Inl e) = Inl (Raised e)" "lift_res (Inr x) = Inr x"
  by (simp_all add: lift_res_def)

definition agent_finding :: "string \<Rightarrow> severity \<Rightarrow> string \<Rightarrow> string \<Rightarrow> finding" where
  "agent_finding agent sev kind summary =
     \<lparr>f_agent = agent, f_severity = sev, f_code = kind, f_summary = summary, f_detail = []\<rparr>"

section \<open>Coordinator\<close>

definition MAX_PLAN_STEPS :: int where
  "MAX_PLAN_STEPS = 64"

definition MAX_TASK_CHARS :: int where
  "MAX_TASK_CHARS = 131072"

text \<open>\<open>v or dflt\<close>.\<close>

definition py_or :: "pyv \<Rightarrow> pyv \<Rightarrow> pyv" where
  "py_or v dflt = (if py_truthy v then v else dflt)"

text \<open>
  \<open>raw_steps\<close> is measured and sliced: lists (and tuples), text and bytes allow both, a mapping has a
  length and no slice, other values have neither.
\<close>

definition plan_length :: "pyv \<Rightarrow> int res" where
  "plan_length v =
     (case v of
        PSeq xs \<Rightarrow> Inr (int (length xs))
      | PStr s \<Rightarrow> Inr (int (py_len s))
      | PBytes b \<Rightarrow> Inr (int (length b))
      | PDict d \<Rightarrow> Inr (int (length d))
      | _ \<Rightarrow> raise TypeError ''object has no len()'')"

definition plan_slice :: "pyv \<Rightarrow> pyv list res" where
  "plan_slice v =
     (case v of
        PSeq xs \<Rightarrow> Inr (take (nat MAX_PLAN_STEPS) xs)
      | PStr s \<Rightarrow> Inr (map (\<lambda>x. PStr (text_of [x])) (take (nat MAX_PLAN_STEPS) (points s)))
      | PBytes b \<Rightarrow> Inr (map (\<lambda>c. PInt (cp c)) (take (nat MAX_PLAN_STEPS) b))
      | _ \<Rightarrow> raise TypeError ''unhashable type: slice'')"

definition plan_step :: "(pyv \<Rightarrow> string) \<Rightarrow> pyv \<Rightarrow> pyv res" where
  "plan_step sh spec =
     (case spec of
        PDict d \<Rightarrow>
          rbind (py_dict sh (py_get d ''args'' (PDict []))) (\<lambda>args.
            Inr (PDict [(''action'', PStr (py_str sh (py_get d ''action'' (PStr [])))), (''args'', PDict args)]))
      | _ \<Rightarrow> raise AttributeError ''object has no attribute get'')"

fun plan_steps :: "(pyv \<Rightarrow> string) \<Rightarrow> pyv list \<Rightarrow> pyv list res" where
  "plan_steps sh [] = Inr []"
| "plan_steps sh (spec # specs) = rbind (plan_step sh spec) (\<lambda>p. rbind (plan_steps sh specs) (\<lambda>ps. Inr (p # ps)))"

definition coordinator_process :: "agent_env \<Rightarrow> string \<Rightarrow> envelope \<Rightarrow> agent_result res" where
  "coordinator_process E self e =
     rbind (py_dict (ae_show E) (py_or (py_get (env_payload e) ''task'' PNone) (PDict []))) (\<lambda>task.
     let raw = ae_show E (PDict task);
         f1 = (if int (py_len raw) > MAX_TASK_CHARS
               then [agent_finding self S_MEDIUM ''input.too-large'' ''task payload exceeds 131072 characters''] else [])
              @ scan_text (ae_lib E) (ae_word E) self raw;
         raw_steps = py_or (py_get task ''steps'' PNone)
           (PSeq [PDict [(''action'', py_get task ''action'' (PStr ''echo'')), (''args'', py_get task ''args'' (PDict []))]]) in
     rbind (plan_length raw_steps) (\<lambda>n.
     let f2 = (if n > MAX_PLAN_STEPS
               then [agent_finding self S_MEDIUM ''input.plan-too-large'' (''plan has '' @ int_str n @ '' steps, limit is 64'')] else []) in
     rbind (plan_slice raw_steps) (\<lambda>specs.
     rbind (plan_steps (ae_show E) specs) (\<lambda>plan.
     Inr \<lparr>r_agent = self, r_success = True, r_verdict = (if f1 @ f2 = [] then V_ALLOW else V_DENY),
          r_output = PDict [(''plan'', PSeq plan)], r_findings = f1 @ f2\<rparr>))))"

section \<open>Policy agent\<close>

definition policy_process :: "agent_env \<Rightarrow> envelope \<Rightarrow> 'w mas \<Rightarrow> agent_result \<times> 'w mas" where
  "policy_process E e s =
     (let self = mas_policy s; action = py_str (ae_show E) (py_get (env_payload e) ''action'' (PStr []));
          v = decide (mas_rules s) action;
          output = [(''action'', PStr action), (''verdict'', PStr (verdict_value v))] in
      if v = V_ALLOW
      then (let token = ae_uid E (bus_next s) in
            (\<lparr>r_agent = self, r_success = True, r_verdict = v, r_output = PDict (output @ [(''token'', PStr token)]), r_findings = []\<rparr>,
             s\<lparr>bus_next := bus_next s + 1, mas_tokens := dict_set token action (mas_tokens s)\<rparr>))
      else (\<lparr>r_agent = self, r_success = True, r_verdict = v, r_output = PDict output,
              r_findings = [agent_finding self S_MEDIUM ''policy.denied'' (''action '' @ [CHR 0x27] @ action @ [CHR 0x27] @ '' not allowed'')]\<rparr>, s))"

text \<open>\<open>consume_token\<close>: the token must be text and stand for exactly this action; it is deleted.\<close>

definition consume_token :: "pyv \<Rightarrow> string \<Rightarrow> 'w mas \<Rightarrow> bool \<times> 'w mas" where
  "consume_token token action s =
     (case token of
        PStr t \<Rightarrow>
          if dict_get (mas_tokens s) t = Some action then (True, s\<lparr>mas_tokens := dict_pop t (mas_tokens s)\<rparr>) else (False, s)
      | _ \<Rightarrow> (False, s))"

section \<open>Executor, auditor, verifier\<close>

definition register_action :: "string \<Rightarrow> 'w action_fn \<Rightarrow> 'w mas \<Rightarrow> 'w mas" where
  "register_action name f s = s\<lparr>mas_actions := dict_set name f (mas_actions s)\<rparr>"

definition executor_process :: "agent_env \<Rightarrow> envelope \<Rightarrow> 'w mas \<Rightarrow> agent_result ares \<times> 'w mas" where
  "executor_process E e s =
     (let self = mas_executor s; action = py_str (ae_show E) (py_get (env_payload e) ''action'' (PStr []));
          token = py_get (env_payload e) ''approval_token'' PNone; (ok, s1) = consume_token token action s in
      if \<not> ok
      then (Inr \<lparr>r_agent = self, r_success = False, r_verdict = V_DENY, r_output = PNone,
              r_findings = [agent_finding self S_HIGH ''executor.missing-approval''
                ''step reached the executor without a valid one-time approval token'']\<rparr>, s1)
      else case py_dict (ae_show E) (py_or (py_get (env_payload e) ''args'' PNone) (PDict [])) of
        Inl x \<Rightarrow> (Inl (Raised x), s1)
      | Inr args \<Rightarrow>
          case dict_get (mas_actions s1) action of
            None \<Rightarrow> (Inr \<lparr>r_agent = self, r_success = False, r_verdict = V_DENY, r_output = PNone,
              r_findings = [agent_finding self S_MEDIUM ''executor.unknown-action'' action]\<rparr>, s1)
          | Some f \<Rightarrow>
              let (r, w) = f args (mas_world s1); s2 = s1\<lparr>mas_world := w\<rparr> in
              (case r of
                 Inl x \<Rightarrow> (Inl x, s2)
               | Inr output \<Rightarrow>
                   (Inr \<lparr>r_agent = self, r_success = True, r_verdict = V_ALLOW, r_output = output, r_findings = []\<rparr>, s2)))"

definition auditor_process :: "agent_env \<Rightarrow> string \<Rightarrow> envelope \<Rightarrow> agent_result" where
  "auditor_process E self e =
     (let findings = scan_text (ae_lib E) (ae_word E) self (ae_show E (PDict (env_payload e))); clean = (findings = []) in
      \<lparr>r_agent = self, r_success = clean, r_verdict = (if clean then V_ALLOW else V_DENY),
       r_output = PDict [(''audited'', PBool True), (''clean'', PBool clean)], r_findings = findings\<rparr>)"

definition verifier_process :: "agent_env \<Rightarrow> string \<Rightarrow> envelope \<Rightarrow> agent_result" where
  "verifier_process E self e =
     (let findings = scan_text (ae_lib E) (ae_word E) self (py_str (ae_show E) (py_get (env_payload e) ''output'' PNone));
          verified = (py_truthy (py_get (env_payload e) ''executed'' (PBool False)) \<and> findings = []) in
      \<lparr>r_agent = self, r_success = verified, r_verdict = (if verified then V_ALLOW else V_DENY),
       r_output = PDict [(''verified'', PBool verified)], r_findings = findings\<rparr>)"

section \<open>Handling a message\<close>

definition mas_guard :: "string \<Rightarrow> envelope \<Rightarrow> pyv \<Rightarrow> 'w mas \<Rightarrow> unit ares \<times> 'w mas" where
  "mas_guard phase e v s = (let (r, h) = boundary_guard phase e v (mas_honey s) in (r, s\<lparr>mas_honey := h\<rparr>))"

definition agent_id_of :: "agent_kind \<Rightarrow> 'w mas \<Rightarrow> string" where
  "agent_id_of k s =
     (case k of A_Honey \<Rightarrow> ht_id (mas_honey s) | A_Coordinator \<Rightarrow> mas_coordinator s | A_Policy \<Rightarrow> mas_policy s
      | A_Executor \<Rightarrow> mas_executor s | A_Auditor \<Rightarrow> mas_auditor s | A_Verifier \<Rightarrow> mas_verifier s)"

definition agent_process :: "agent_env \<Rightarrow> agent_kind \<Rightarrow> envelope \<Rightarrow> 'w mas \<Rightarrow> agent_result ares \<times> 'w mas" where
  "agent_process E k e s =
     (case k of
        A_Honey \<Rightarrow> (honey_handle e (mas_honey s), s)
      | A_Coordinator \<Rightarrow> (lift_res (coordinator_process E (mas_coordinator s) e), s)
      | A_Policy \<Rightarrow> (let (r, s') = policy_process E e s in (Inr r, s'))
      | A_Executor \<Rightarrow> executor_process E e s
      | A_Auditor \<Rightarrow> (Inr (auditor_process E (mas_auditor s) e), s)
      | A_Verifier \<Rightarrow> (Inr (verifier_process E (mas_verifier s) e), s))"

text \<open>
  \<open>BaseAgent.handle\<close>: an exception is shown to the boundary guard before it becomes a denial. The
  canary monitor is no \<open>BaseAgent\<close>; its handler is called directly.
\<close>

definition inspect_handler_exception :: "agent_env \<Rightarrow> envelope \<Rightarrow> agent_exn \<Rightarrow> 'w mas \<Rightarrow> unit ares \<times> 'w mas" where
  "inspect_handler_exception E e x s = apply_boundary_guard (ae_name E) mas_guard ''result'' e (POther (ae_repr E x)) s"

definition error_result :: "agent_env \<Rightarrow> string \<Rightarrow> agent_exn \<Rightarrow> agent_result" where
  "error_result E self x =
     \<lparr>r_agent = self, r_success = False, r_verdict = V_DENY, r_output = PNone,
      r_findings = [agent_finding self S_HIGH ''agent.error'' (exn_type (ae_name E) x @ '': agent handler failed'')]\<rparr>"

definition agent_handle :: "agent_env \<Rightarrow> agent_kind \<Rightarrow> envelope \<Rightarrow> 'w mas \<Rightarrow> agent_result ares \<times> 'w mas" where
  "agent_handle E k e s =
     (case agent_process E k e s of
        (Inr r, s') \<Rightarrow> (Inr r, s')
      | (Inl x, s') \<Rightarrow>
          if k = A_Honey then (Inl x, s')
          else abind (inspect_handler_exception E e x s') (\<lambda>_ s''. (Inr (error_result E (agent_id_of k s) x), s'')))"

definition mas_deliver :: "agent_env \<Rightarrow> envelope \<Rightarrow> 'w mas \<Rightarrow> agent_result ares \<times> 'w mas" where
  "mas_deliver E = deliver (ae_name E) mas_guard (agent_handle E)"

definition mas_broadcast :: "agent_env \<Rightarrow> envelope \<Rightarrow> string option \<Rightarrow> 'w mas \<Rightarrow> agent_result list ares \<times> 'w mas" where
  "mas_broadcast E = broadcast (ae_uid E) (ae_name E) mas_guard (agent_handle E)"

section \<open>Actions run only on approval\<close>

text \<open>\<open>performs s\<close>: one call of a registered action that the rules allow.\<close>

definition performs :: "'w mas \<Rightarrow> 'w \<Rightarrow> 'w \<Rightarrow> bool" where
  "performs s w w' \<longleftrightarrow>
     (\<exists>action f args. decide (mas_rules s) action = V_ALLOW \<and> dict_get (mas_actions s) action = Some f \<and> w' = snd (f args w))"

text \<open>Every outstanding token stands for an allowed action and is an identifier drawn earlier.\<close>

definition token_ok :: "agent_env \<Rightarrow> policy_rule list \<Rightarrow> nat \<Rightarrow> string \<times> string \<Rightarrow> bool" where
  "token_ok E rules m p \<longleftrightarrow> decide rules (snd p) = V_ALLOW \<and> fst p \<in> ae_uid E ` {..<m}"

definition tokens_ok :: "agent_env \<Rightarrow> 'w mas \<Rightarrow> bool" where
  "tokens_ok E s \<longleftrightarrow> (\<forall>p \<in> set (mas_tokens s). token_ok E (mas_rules s) (bus_next s) p)"

lemma token_ok_mono: "token_ok E rules m p \<Longrightarrow> m \<le> n \<Longrightarrow> token_ok E rules n p"
  by (auto simp: token_ok_def)

text \<open>A token that was drawn and is not outstanding: never minted, or consumed.\<close>

definition token_spent :: "agent_env \<Rightarrow> string \<Rightarrow> 'w mas \<Rightarrow> bool" where
  "token_spent E tok s \<longleftrightarrow> tok \<in> ae_uid E ` {..<bus_next s} \<and> dict_get (mas_tokens s) tok = None"

definition approval_rel :: "agent_env \<Rightarrow> 'w mas \<Rightarrow> 'w mas \<Rightarrow> bool" where
  "approval_rel E s t \<longleftrightarrow> mas_rules t = mas_rules s \<and> mas_actions t = mas_actions s \<and> bus_next s \<le> bus_next t
     \<and> (tokens_ok E s \<longrightarrow> tokens_ok E t \<and> (performs s)\<^sup>*\<^sup>* (mas_world s) (mas_world t))
     \<and> (inj (ae_uid E) \<longrightarrow> (\<forall>tok. token_spent E tok s \<longrightarrow> token_spent E tok t))"

lemma performs_cong: "mas_rules t = mas_rules s \<Longrightarrow> mas_actions t = mas_actions s \<Longrightarrow> performs t = performs s"
  by (simp add: performs_def fun_eq_iff)

lemma approval_refl: "approval_rel E s s"
  by (simp add: approval_rel_def)

lemma approval_trans: "approval_rel E s t \<Longrightarrow> approval_rel E t u \<Longrightarrow> approval_rel E s u"
  by (auto simp: approval_rel_def performs_cong [of t s])

text \<open>Changes that leave the approval state alone.\<close>

lemma approval_same:
  assumes "mas_rules t = mas_rules s" "mas_actions t = mas_actions s" "mas_tokens t = mas_tokens s"
    "mas_world t = mas_world s" "bus_next s \<le> bus_next t"
  shows "approval_rel E s t"
  using assms by (auto simp: approval_rel_def tokens_ok_def token_spent_def intro: token_ok_mono)

lemma guard_fields:
  "mas_rules (snd (mas_guard phase e v s)) = mas_rules s" "mas_actions (snd (mas_guard phase e v s)) = mas_actions s"
  "mas_tokens (snd (mas_guard phase e v s)) = mas_tokens s" "mas_world (snd (mas_guard phase e v s)) = mas_world s"
  "bus_next (snd (mas_guard phase e v s)) = bus_next s"
  by (simp_all add: mas_guard_def case_prod_beta Let_def)

lemma approval_guard: "approval_rel E s (snd (mas_guard phase e v s))"
  by (rule approval_same) (simp_all add: guard_fields)

lemma approval_record: "approval_rel E s (record_event agent event detail trace s)"
  by (rule approval_same) (simp_all add: record_event_def)

lemma approval_apply: "approval_rel E s (snd (apply_boundary_guard nm mas_guard phase e v s))"
proof (cases "bus_guarded s")
  case True
  obtain r s' where g: "mas_guard phase e v s = (r, s')" by fastforce
  with approval_guard [of E s phase e v] have "approval_rel E s s'" by simp
  with True g show ?thesis
    by (auto simp: apply_boundary_guard_def intro: approval_trans approval_record split: sum.split)
qed (simp add: apply_boundary_guard_def approval_refl)

lemma set_dict_set_subset: "set (dict_set k v d) \<subseteq> insert (k, v) (set d)"
  by (induction d) auto

lemma policy_approval: "approval_rel E s (snd (policy_process E e s))"
proof -
  have "tokens_ok E (s\<lparr>bus_next := bus_next s + 1, mas_tokens := dict_set (ae_uid E (bus_next s)) a (mas_tokens s)\<rparr>)"
    if ok: "tokens_ok E s" and allow: "decide (mas_rules s) a = V_ALLOW" for a
  proof -
    have "token_ok E (mas_rules s) (bus_next s + 1) p" if "p \<in> insert (ae_uid E (bus_next s), a) (set (mas_tokens s))" for p
      using that ok allow token_ok_mono [of E "mas_rules s" "bus_next s" p "bus_next s + 1"]
      by (auto simp: tokens_ok_def) (simp add: token_ok_def)
    with set_dict_set_subset [of "ae_uid E (bus_next s)" a "mas_tokens s"] show ?thesis by (auto simp: tokens_ok_def)
  qed
  moreover have "token_spent E tok (s\<lparr>bus_next := bus_next s + 1, mas_tokens := dict_set (ae_uid E (bus_next s)) a (mas_tokens s)\<rparr>)"
    if "inj (ae_uid E)" and "token_spent E tok s" for tok a
    using that by (auto simp: token_spent_def inj_eq)
  ultimately show ?thesis by (auto simp: policy_process_def Let_def approval_rel_def)
qed

lemma consume_cases:
  assumes "consume_token token action s = (ok, s')"
  shows "\<not> ok \<and> s' = s \<or>
    ok \<and> (\<exists>t. token = PStr t \<and> dict_get (mas_tokens s) t = Some action \<and> s' = s\<lparr>mas_tokens := dict_pop t (mas_tokens s)\<rparr>)"
  using assms by (auto simp: consume_token_def split: pyv.splits if_splits)

lemma tokens_ok_pop: "tokens_ok E s \<Longrightarrow> tokens_ok E (s\<lparr>mas_tokens := dict_pop t (mas_tokens s)\<rparr>)"
  by (auto simp: tokens_ok_def AList.delete_eq)

text \<open>What the executor can do to the state: nothing, spend a token, or spend it and call its action once.\<close>

lemma executor_effect:
  fixes s :: "'w mas"
  assumes "executor_process E e s = (r, s')"
  defines "action \<equiv> py_str (ae_show E) (py_get (env_payload e) ''action'' (PStr []))"
  shows "s' = s \<and> (\<exists>x. r = Inr x \<and> \<not> r_success x) \<or>
    (\<exists>t. py_get (env_payload e) ''approval_token'' PNone = PStr t \<and> dict_get (mas_tokens s) t = Some action
       \<and> (s' = s\<lparr>mas_tokens := dict_pop t (mas_tokens s)\<rparr>
          \<or> (\<exists>f args. dict_get (mas_actions s) action = Some f
               \<and> s' = s\<lparr>mas_tokens := dict_pop t (mas_tokens s), mas_world := snd (f args (mas_world s))\<rparr>)))"
proof -
  obtain ok s1 where c: "consume_token (py_get (env_payload e) ''approval_token'' PNone) action s = (ok, s1)" by fastforce
  from consume_cases [OF this] show ?thesis
  proof
    assume "\<not> ok \<and> s1 = s"
    with assms(1) c show ?thesis by (auto simp: executor_process_def Let_def action_def)
  next
    assume "ok \<and> (\<exists>t. py_get (env_payload e) ''approval_token'' PNone = PStr t \<and> dict_get (mas_tokens s) t = Some action
        \<and> s1 = s\<lparr>mas_tokens := dict_pop t (mas_tokens s)\<rparr>)"
    then obtain t where t: "ok" "py_get (env_payload e) ''approval_token'' PNone = PStr t"
      "dict_get (mas_tokens s) t = Some action" "s1 = s\<lparr>mas_tokens := dict_pop t (mas_tokens s)\<rparr>" by blast
    have "s' = s1 \<or> (\<exists>f args. dict_get (mas_actions s1) action = Some f \<and> s' = s1\<lparr>mas_world := snd (f args (mas_world s1))\<rparr>)"
    proof (cases "py_dict (ae_show E) (py_or (py_get (env_payload e) ''args'' PNone) (PDict []))")
      case (Inr args)
      show ?thesis
      proof (cases "dict_get (mas_actions s1) action")
        case (Some f)
        then show ?thesis using assms(1) c t(1) Inr
          by (cases "f args (mas_world s1)"; cases "fst (f args (mas_world s1))")
            (auto simp: executor_process_def Let_def action_def intro!: exI [of _ args])
      qed (use assms(1) c t(1) Inr in \<open>simp add: executor_process_def Let_def action_def\<close>)
    qed (use assms(1) c t(1) in \<open>simp add: executor_process_def Let_def action_def\<close>)
    with t show ?thesis by auto
  qed
qed

lemma executor_approval: "approval_rel E s (snd (executor_process E e s))"
proof -
  obtain r s' where x: "executor_process E e s = (r, s')" by fastforce
  from executor_effect [OF x] show ?thesis
  proof (elim disjE exE conjE)
    fix t f args
    assume tok: "dict_get (mas_tokens s) t = Some (py_str (ae_show E) (py_get (env_payload e) ''action'' (PStr [])))"
      and f: "dict_get (mas_actions s) (py_str (ae_show E) (py_get (env_payload e) ''action'' (PStr []))) = Some f"
      and s': "s' = s\<lparr>mas_tokens := dict_pop t (mas_tokens s), mas_world := snd (f args (mas_world s))\<rparr>"
    have "performs s (mas_world s) (snd (f args (mas_world s)))" if "tokens_ok E s"
      using bspec [OF that [unfolded tokens_ok_def] map_of_SomeD [OF tok]] f by (auto simp: token_ok_def performs_def)
    moreover have "tokens_ok E s \<Longrightarrow> tokens_ok E s'" using tokens_ok_pop [of E s t] by (simp add: s' tokens_ok_def)
    ultimately show ?thesis using s' x by (auto simp: approval_rel_def token_spent_def)
  qed (use x tokens_ok_pop in \<open>auto simp: approval_rel_def token_spent_def\<close>)
qed

lemma process_approval: "approval_rel E s (snd (agent_process E k e s))"
  by (cases k) (simp_all add: agent_process_def approval_refl executor_approval policy_approval case_prod_beta Let_def)

lemma handle_approval: "approval_rel E s (snd (agent_handle E k e s))"
proof -
  obtain r s' where p: "agent_process E k e s = (r, s')" by fastforce
  with process_approval [of E s k e] have s': "approval_rel E s s'" by simp
  show ?thesis
  proof (cases r)
    case (Inl x)
    obtain q s'' where i: "inspect_handler_exception E e x s' = (q, s'')" by fastforce
    with approval_apply [of E s' "ae_name E" "''result''" e "POther (ae_repr E x)"] have "approval_rel E s' s''"
      by (simp add: inspect_handler_exception_def)
    with s' have "approval_rel E s s''" by (rule approval_trans)
    with s' p i Inl show ?thesis by (cases q) (simp_all add: agent_handle_def)
  qed (use p s' in \<open>simp add: agent_handle_def\<close>)
qed

interpretation approval: bus_relation mas_guard "agent_handle E" "approval_rel E"
proof
  fix s t u agent event detail trace phase e v handler
  show "approval_rel E s s" by (rule approval_refl)
  show "approval_rel E s t \<Longrightarrow> approval_rel E t u \<Longrightarrow> approval_rel E s u" by (rule approval_trans)
  show "approval_rel E s (record_event agent event detail trace s)" by (rule approval_record)
  show "approval_rel E s (s\<lparr>bus_next := bus_next s + 1\<rparr>)" by (rule approval_same) simp_all
  show "approval_rel E s (snd (mas_guard phase e v s))" by (rule approval_guard)
  show "approval_rel E s (snd (agent_handle E handler e s))" by (rule handle_approval)
qed

end
