(* ===== verification/Multi_Agent.thy ===== *)
theory Multi_Agent
  imports Agents
begin

text \<open>
  The orchestrator, \<^verbatim>\<open>src/bulldog/multiagent/system.py\<close>: construction of the six agents on one bus, a run
  (canary, plan, policy, execution, audit, verification, and the handling of a leaked canary), and
  the reports. A run is a function of the task and the state; time stamps are left out.

  The theorems show that the world changes only through registered actions the rules allow, whatever
  messages are delivered, that a token serves one execution, and what an allowing report means.
\<close>

section \<open>Reports\<close>

record step_report =
  sr_action :: pyv
  sr_policy :: verdict
  sr_executed :: bool
  sr_output :: pyv
  sr_findings :: "finding list"

record run_report =
  rr_trace :: string
  rr_verdict :: verdict
  rr_steps :: "step_report list"
  rr_findings :: "finding list"
  rr_canary :: string

definition findings_as_dicts :: "finding list \<Rightarrow> pyv" where
  "findings_as_dicts fs = PSeq (map (\<lambda>f. PDict [(''severity'', PStr (severity_value (f_severity f))), (''code'', PStr (f_code f)),
     (''summary'', PStr (f_summary f))]) fs)"

definition step_to_dict :: "step_report \<Rightarrow> pyv" where
  "step_to_dict r = PDict [(''action'', sr_action r), (''policy_verdict'', PStr (verdict_value (sr_policy r))),
     (''executed'', PBool (sr_executed r)), (''output'', sr_output r), (''findings'', findings_as_dicts (sr_findings r))]"

definition report_blocked :: "run_report \<Rightarrow> bool" where
  "report_blocked r \<longleftrightarrow> rr_verdict r \<noteq> V_ALLOW"

definition report_to_dict :: "rat \<Rightarrow> run_report \<Rightarrow> pyv" where
  "report_to_dict duration r = PDict [(''trace_id'', PStr (rr_trace r)), (''verdict'', PStr (verdict_value (rr_verdict r))),
     (''steps'', PSeq (map step_to_dict (rr_steps r))), (''findings'', findings_as_dicts (rr_findings r)),
     (''duration_s'', PFloat duration), (''canary_id'', PStr (rr_canary r))]"

section \<open>Construction\<close>

definition new_agent_identity :: "agent_env \<Rightarrow> nat \<Rightarrow> string \<Rightarrow> string list \<Rightarrow> agent_identity" where
  "new_agent_identity E n name caps =
     \<lparr>ag_id = py_lower (ae_lib E) name @ ''-'' @ take 8 (ae_uid E n), ag_name = name, ag_caps = caps\<rparr>"

definition MAX_CANARY_SCAN_CHARS :: int where
  "MAX_CANARY_SCAN_CHARS = 262144"

definition DEFAULT_MAX_TRACKED_RUNS :: int where
  "DEFAULT_MAX_TRACKED_RUNS = 1024"

definition DEFAULT_MAX_HOPS :: int where
  "DEFAULT_MAX_HOPS = 8"

text \<open>The agents register in this order; a clash of two identifiers is the bus's error.\<close>

definition new_system ::
  "agent_env \<Rightarrow> 'w action_fn dict \<Rightarrow> policy_rule list \<Rightarrow> 'w \<Rightarrow> unit ares \<times> 'w mas" where
  "new_system E actions rules w =
     (let h = new_agent_identity E 0 ''honeytoken'' [''honeytoken'']; c = new_agent_identity E 1 ''coordinator'' [''coordinate''];
          p = new_agent_identity E 2 ''policy'' [''policy'']; x = new_agent_identity E 3 ''executor'' [''execute''];
          a = new_agent_identity E 4 ''auditor'' [''audit'']; v = new_agent_identity E 5 ''verifier'' [''verify''];
          s = \<lparr>bus_agents = [], bus_handlers = [], bus_trace = [], bus_max_hops = DEFAULT_MAX_HOPS, bus_guarded = False,
               bus_next = 6,
               mas_honey = \<lparr>ht_id = ag_id h, ht_max_scan = MAX_CANARY_SCAN_CHARS, ht_max_runs = DEFAULT_MAX_TRACKED_RUNS, ht_states = []\<rparr>,
               mas_coordinator = ag_id c, mas_policy = ag_id p, mas_executor = ag_id x, mas_auditor = ag_id a,
               mas_verifier = ag_id v, mas_rules = (if rules = [] then DEFAULT_POLICY_RULES else rules), mas_tokens = [],
               mas_actions = actions, mas_world = w\<rparr> in
      abind (register_agent h A_Honey s) (\<lambda>_ s. abind (register_agent c A_Coordinator s) (\<lambda>_ s.
      abind (register_agent p A_Policy s) (\<lambda>_ s. abind (register_agent x A_Executor s) (\<lambda>_ s.
      abind (register_agent a A_Auditor s) (\<lambda>_ s. abind (register_agent v A_Verifier s) (\<lambda>_ s.
        (Inr (), s\<lparr>bus_guarded := True\<rparr>))))))))"

definition guard_external_write :: "string \<Rightarrow> pyv \<Rightarrow> string \<Rightarrow> 'w mas \<Rightarrow> unit ares \<times> 'w mas" where
  "guard_external_write tid v channel s =
     (let (r, h) = inspect_external_write tid v channel (mas_honey s) in (r, s\<lparr>mas_honey := h\<rparr>))"

section \<open>One step\<close>

definition pyv_item :: "pyv \<Rightarrow> string \<Rightarrow> pyv ares" where
  "pyv_item v k =
     (case v of
        PDict d \<Rightarrow> (case dict_get d k of None \<Rightarrow> Inl (Raised (KeyError, k)) | Some x \<Rightarrow> Inr x)
      | _ \<Rightarrow> Inl (Raised (TypeError, ''object is not subscriptable'')))"

definition pyv_get :: "pyv \<Rightarrow> string \<Rightarrow> pyv \<Rightarrow> pyv ares" where
  "pyv_get v k dflt =
     (case v of
        PDict d \<Rightarrow> Inr (py_get d k dflt)
      | _ \<Rightarrow> Inl (Raised (AttributeError, ''object has no attribute get'')))"

definition pyv_iter :: "pyv \<Rightarrow> pyv list ares" where
  "pyv_iter v =
     (case v of
        PSeq xs \<Rightarrow> Inr xs
      | PDict d \<Rightarrow> Inr (map (PStr \<circ> fst) d)
      | PStr s \<Rightarrow> Inr (map (\<lambda>x. PStr (text_of [x])) (points s))
      | PBytes b \<Rightarrow> Inr (map (\<lambda>c. PInt (cp c)) b)
      | _ \<Rightarrow> Inl (Raised (TypeError, ''object is not iterable'')))"

text \<open>\<open>deliver(envelope.forwarded(...))\<close>: a fresh message of the same trace.\<close>

definition send_step ::
  "agent_env \<Rightarrow> envelope \<Rightarrow> string \<Rightarrow> string \<Rightarrow> (string \<times> pyv) list \<Rightarrow> 'w mas \<Rightarrow> agent_result ares \<times> 'w mas" where
  "send_step E e recipient kind payload s =
     mas_deliver E (forwarded (ae_uid E (bus_next s)) e recipient kind payload) (s\<lparr>bus_next := bus_next s + 1\<rparr>)"

definition audit_step ::
  "agent_env \<Rightarrow> envelope \<Rightarrow> pyv \<Rightarrow> pyv \<Rightarrow> 'w mas \<Rightarrow> agent_result list ares \<times> 'w mas" where
  "audit_step E e action output s =
     mas_broadcast E (forwarded (ae_uid E (bus_next s)) e (mas_auditor s) ''result.audit''
         [(''action'', action), (''output'', PStr (py_str (ae_show E) output))])
       (Some ''audit'') (s\<lparr>bus_next := bus_next s + 1\<rparr>)"

text \<open>After the policy check: execution, audit and verification of an allowed step.\<close>

definition run_allowed ::
  "agent_env \<Rightarrow> envelope \<Rightarrow> pyv \<Rightarrow> pyv \<Rightarrow> agent_result \<Rightarrow> 'w mas \<Rightarrow> step_report ares \<times> 'w mas" where
  "run_allowed E e action args policy s =
     abind (pyv_get (r_output policy) ''token'' PNone, s) (\<lambda>token s.
     abind (send_step E e (mas_executor s) ''action.execute''
              [(''action'', action), (''args'', args), (''approval_token'', token)] s) (\<lambda>execution s.
     abind (audit_step E e action (r_output execution) s) (\<lambda>audits s.
     abind (send_step E e (mas_verifier s) ''result.verify''
              [(''action'', action), (''executed'', PBool (r_success execution)), (''output'', r_output execution)] s) (\<lambda>verification s.
     let verified = r_verdict verification = V_ALLOW in
     (Inr \<lparr>sr_action = action, sr_policy = r_verdict policy, sr_executed = (verified \<and> r_success execution),
           sr_output = (if verified then r_output execution else PNone),
           sr_findings = r_findings policy @ r_findings execution @ concat (map r_findings audits) @ r_findings verification\<rparr>, s)))))"

definition run_step :: "agent_env \<Rightarrow> envelope \<Rightarrow> pyv \<Rightarrow> 'w mas \<Rightarrow> step_report ares \<times> 'w mas" where
  "run_step E e spec s =
     abind (pyv_item spec ''action'', s) (\<lambda>action s.
     abind (pyv_get spec ''args'' (PDict []), s) (\<lambda>args s.
     abind (send_step E e (mas_policy s) ''policy.check'' [(''action'', action), (''args'', args)] s) (\<lambda>policy s.
     if r_verdict policy \<noteq> V_ALLOW
     then (Inr \<lparr>sr_action = action, sr_policy = r_verdict policy, sr_executed = False, sr_output = PNone,
             sr_findings = r_findings policy\<rparr>, s)
     else run_allowed E e action args policy s)))"

section \<open>A run\<close>

definition add_step :: "run_report \<Rightarrow> step_report \<Rightarrow> run_report" where
  "add_step rep r =
     rep\<lparr>rr_steps := rr_steps rep @ [r], rr_findings := rr_findings rep @ sr_findings r,
         rr_verdict := (if sr_policy r \<noteq> V_ALLOW \<or> \<not> sr_executed r then V_DENY else rr_verdict rep)\<rparr>"

text \<open>The loop over the plan. It ends early at an exception; the report made so far is kept.\<close>

fun run_plan ::
  "agent_env \<Rightarrow> envelope \<Rightarrow> pyv list \<Rightarrow> run_report \<Rightarrow> 'w mas \<Rightarrow> agent_exn option \<times> run_report \<times> 'w mas" where
  "run_plan E e [] rep s = (None, rep, s)"
| "run_plan E e (spec # specs) rep s =
     (case run_step E e spec s of
        (Inl x, s') \<Rightarrow> (Some x, rep, s')
      | (Inr r, s') \<Rightarrow> run_plan E e specs (add_step rep r) s')"

definition try_run :: "agent_env \<Rightarrow> envelope \<Rightarrow> run_report \<Rightarrow> 'w mas \<Rightarrow> agent_exn option \<times> run_report \<times> 'w mas" where
  "try_run E e rep s =
     (case mas_deliver E e s of
        (Inl x, s1) \<Rightarrow> (Some x, rep, s1)
      | (Inr planned, s1) \<Rightarrow>
          let rep1 = rep\<lparr>rr_findings := rr_findings rep @ r_findings planned\<rparr> in
          if r_verdict planned \<noteq> V_ALLOW then (None, rep1\<lparr>rr_verdict := V_DENY\<rparr>, s1)
          else case abind (pyv_item (r_output planned) ''plan'', s1) (\<lambda>plan s. (pyv_iter plan, s)) of
            (Inl x, s2) \<Rightarrow> (Some x, rep1, s2)
          | (Inr specs, s2) \<Rightarrow> run_plan E e specs rep1 s2)"

text \<open>The handler of \<open>HoneyTokenLeak\<close>: deny, report the leak once, suppress every output.\<close>

definition on_leak :: "finding \<Rightarrow> run_report \<Rightarrow> run_report" where
  "on_leak f rep =
     rep\<lparr>rr_verdict := V_DENY,
         rr_findings := (if list_ex (\<lambda>g. f_code g = f_code f \<and> f_detail g = f_detail f) (rr_findings rep)
                         then rr_findings rep else rr_findings rep @ [f]),
         rr_steps := map (\<lambda>r. r\<lparr>sr_executed := False, sr_output := PNone\<rparr>) (rr_steps rep)\<rparr>"

definition finish_run :: "string \<Rightarrow> agent_exn option \<times> run_report \<times> 'w mas \<Rightarrow> run_report ares \<times> 'w mas" where
  "finish_run tid p =
     (case p of (x, rep, s) \<Rightarrow>
       ((case x of None \<Rightarrow> Inr rep | Some (Leak f) \<Rightarrow> Inr (on_leak f rep) | Some (Raised e) \<Rightarrow> Inl (Raised e)),
        s\<lparr>mas_honey := complete tid (mas_honey s)\<rparr>))"

definition task_envelope :: "string \<Rightarrow> string \<Rightarrow> string \<Rightarrow> (string \<times> pyv) list \<Rightarrow> envelope" where
  "task_envelope mid tid recipient payload =
     \<lparr>env_message = mid, env_trace = tid, env_sender = ''system'', env_recipient = recipient, env_type = ''task'',
      env_payload = payload, env_hops = 0\<rparr>"

definition mas_run :: "agent_env \<Rightarrow> pyv \<Rightarrow> 'w mas \<Rightarrow> run_report ares \<times> 'w mas" where
  "mas_run E task s =
     (let n = bus_next s; mid = ae_uid E n; tid = ae_uid E (n + 1); recipient = mas_coordinator s;
          (minted, h) = mint (ae_lib E) (ae_body E n) tid recipient (Some mid) (mas_honey s);
          s1 = s\<lparr>bus_next := n + 2, mas_honey := h\<rparr> in
      abind (minted, s1) (\<lambda>_ s1.
      abind (canary_context tid h, s1) (\<lambda>context s1.
      abind (honey_lookup tid h, s1) (\<lambda>st s1.
        finish_run tid (try_run E (task_envelope mid tid recipient [(''task'', task), (''trusted_context'', PDict context)])
          \<lparr>rr_trace = tid, rr_verdict = V_ALLOW, rr_steps = [], rr_findings = [], rr_canary = take 16 (hs_fingerprint st)\<rparr> s1)))))"

section \<open>Arbitrary use of the system\<close>

text \<open>
  Messages may be put on the bus by anyone, with any sender, recipient, payload and hop count; runs and
  guarded writes come from the host.
\<close>

datatype mas_op =
    Put envelope
  | Put_All envelope "string option"
  | Start pyv
  | Write string pyv string

fun mas_step :: "agent_env \<Rightarrow> mas_op \<Rightarrow> 'w mas \<Rightarrow> agent_result list ares \<times> 'w mas" where
  "mas_step E (Put e) s = (let (r, s') = mas_deliver E e s in (map_sum id (\<lambda>x. [x]) r, s'))"
| "mas_step E (Put_All e capability) s = mas_broadcast E e capability s"
| "mas_step E (Start task) s = (let (r, s') = mas_run E task s in (map_sum id (\<lambda>_. []) r, s'))"
| "mas_step E (Write tid v channel) s = (let (r, s') = guard_external_write tid v channel s in (map_sum id (\<lambda>_. []) r, s'))"

section \<open>What every use of the system respects\<close>

lemma honey_next_swap: "(s :: 'w mas)\<lparr>mas_honey := h, bus_next := n\<rparr> = s\<lparr>bus_next := n, mas_honey := h\<rparr>"
  by (cases s) simp

text \<open>
  A relation that the bus respects and that the life of a canary respects is respected by runs and by
  any sequence of uses.
\<close>

locale system_relation = bus_relation mas_guard "agent_handle E" rel
  for E :: agent_env and rel :: "'w mas \<Rightarrow> 'w mas \<Rightarrow> bool" +
  assumes rel_mint: "rel s (s\<lparr>mas_honey := snd (mint L body tid recipient message (mas_honey s))\<rparr>)"
    and rel_complete: "rel s (s\<lparr>mas_honey := complete tid (mas_honey s)\<rparr>)"
    and rel_write: "rel s (s\<lparr>mas_honey := snd (inspect_external_write tid v channel (mas_honey s))\<rparr>)"
begin

lemma rel_send: "rel s t \<Longrightarrow> rel s (snd (send_step E e recipient kind payload t))"
  unfolding send_step_def mas_deliver_def using rel_trans rel_draw rel_deliver by blast

lemma rel_audit: "rel s t \<Longrightarrow> rel s (snd (audit_step E e action output t))"
  unfolding audit_step_def mas_broadcast_def using rel_trans rel_draw rel_broadcast by blast

lemma rel_allowed: "rel s t \<Longrightarrow> rel s (snd (run_allowed E e action args policy t))"
  unfolding run_allowed_def by (auto simp: Let_def intro!: rel_bind rel_send rel_audit)

lemma rel_step: "rel s t \<Longrightarrow> rel s (snd (run_step E e spec t))"
  unfolding run_step_def by (auto intro!: rel_bind rel_send rel_allowed)

lemma rel_plan: "rel s t \<Longrightarrow> rel s (snd (snd (run_plan E e specs rep t)))"
proof (induction specs arbitrary: rep t)
  case (Cons spec specs)
  obtain r t' where r: "run_step E e spec t = (r, t')" by fastforce
  with rel_step [OF Cons.prems, of e spec] have "rel s t'" by simp
  with r Cons.IH show ?case by (cases r) simp_all
qed simp

lemma rel_try: "rel s (snd (snd (try_run E e rep s)))"
proof -
  obtain r t where r: "mas_deliver E e s = (r, t)" by fastforce
  with rel_deliver [of s "ae_name E" e] have t: "rel s t" by (simp add: mas_deliver_def)
  show ?thesis
  proof (cases r)
    case (Inr planned)
    then show ?thesis using r t
      by (cases "pyv_item (r_output planned) ''plan''")
        (auto simp: try_run_def Let_def intro: rel_plan split: sum.split)
  qed (use r t in \<open>simp add: try_run_def\<close>)
qed

lemma rel_run: "rel s (snd (mas_run E task s))"
proof -
  define n where "n = bus_next s"
  obtain m h where m: "mint (ae_lib E) (ae_body E n) (ae_uid E (n + 1)) (mas_coordinator s) (Some (ae_uid E n)) (mas_honey s) = (m, h)"
    by fastforce
  let ?s = "s\<lparr>bus_next := n + 2, mas_honey := h\<rparr>"
  have "rel s (s\<lparr>mas_honey := h\<rparr>)" using rel_mint [of s "ae_lib E" "ae_body E n" "ae_uid E (n + 1)" "mas_coordinator s" "Some (ae_uid E n)"] m by simp
  moreover have "rel (s\<lparr>mas_honey := h\<rparr>) (s\<lparr>bus_next := n + 1, mas_honey := h\<rparr>)"
    using rel_draw [of "s\<lparr>mas_honey := h\<rparr>"] by (simp add: n_def honey_next_swap)
  moreover have "rel (s\<lparr>bus_next := n + 1, mas_honey := h\<rparr>) ?s"
    using rel_draw [of "s\<lparr>bus_next := n + 1, mas_honey := h\<rparr>"] by (simp add: n_def honey_next_swap)
  ultimately have start: "rel s ?s" using rel_trans by blast
  have fin: "rel s (snd (finish_run tid (try_run E e rep ?s)))" for tid e rep
  proof -
    obtain x rep' t where t: "try_run E e rep ?s = (x, rep', t)" by (metis prod.collapse)
    with rel_try [of ?s e rep] have "rel ?s t" by simp
    with start rel_complete [of t tid] have "rel s (t\<lparr>mas_honey := complete tid (mas_honey t)\<rparr>)" using rel_trans by blast
    with t show ?thesis by (simp add: finish_run_def)
  qed
  have "rel s (snd (abind (m, ?s) (\<lambda>_ s1. abind (canary_context tid h, s1) (\<lambda>context s1. abind (honey_lookup tid h, s1) (\<lambda>st s1.
        finish_run tid (try_run E (env context) (rep st) s1))))))" for tid env rep
    using start fin by (cases m; cases "canary_context tid h"; cases "honey_lookup tid h") simp_all
  then show ?thesis unfolding mas_run_def Let_def using m by (simp add: n_def)
qed

lemma rel_use: "rel s (snd (mas_step E x s))"
  using rel_deliver rel_broadcast rel_run rel_write
  by (cases x) (simp_all add: case_prod_beta Let_def mas_deliver_def mas_broadcast_def guard_external_write_def)

lemma rel_uses: "rel s (snd (run_ops (mas_step E) xs s))"
proof (induction xs arbitrary: s)
  case (Cons x xs)
  from rel_trans [OF rel_use Cons.IH] show ?case by simp
qed (simp add: rel_refl)

end

interpretation approval: system_relation E "approval_rel E"
proof
  fix s :: "'w mas" and L body tid recipient message v channel
  show "approval_rel E s (s\<lparr>mas_honey := snd (mint L body tid recipient message (mas_honey s))\<rparr>)" by (rule approval_same) simp_all
  show "approval_rel E s (s\<lparr>mas_honey := complete tid (mas_honey s)\<rparr>)" by (rule approval_same) simp_all
  show "approval_rel E s (s\<lparr>mas_honey := snd (inspect_external_write tid v channel (mas_honey s))\<rparr>)" by (rule approval_same) simp_all
qed

text \<open>The wiring of the agents, and the order on canary states.\<close>

definition same_wiring :: "'w mas \<Rightarrow> 'w mas \<Rightarrow> bool" where
  "same_wiring s t \<longleftrightarrow> bus_handlers t = bus_handlers s \<and> bus_guarded t = bus_guarded s \<and> mas_rules t = mas_rules s
     \<and> mas_coordinator t = mas_coordinator s \<and> mas_policy t = mas_policy s \<and> mas_executor t = mas_executor s
     \<and> mas_auditor t = mas_auditor s \<and> mas_verifier t = mas_verifier s"

definition wiring_rel :: "'w mas \<Rightarrow> 'w mas \<Rightarrow> bool" where
  "wiring_rel s t \<longleftrightarrow> same_wiring s t
     \<and> (honey_inv (mas_honey s) \<longrightarrow> honey_inv (mas_honey t) \<and> honey_below (mas_honey s) (mas_honey t))"

lemma same_wiring_refl: "same_wiring s s"
  by (simp add: same_wiring_def)

lemma wiring_refl: "wiring_rel s s"
  by (simp add: wiring_rel_def same_wiring_refl honey_below_refl)

lemma wiring_trans: "wiring_rel s t \<Longrightarrow> wiring_rel t u \<Longrightarrow> wiring_rel s u"
  by (auto simp: wiring_rel_def same_wiring_def intro: honey_below_trans)

lemma wiring_same: "same_wiring s t \<Longrightarrow> mas_honey t = mas_honey s \<Longrightarrow> wiring_rel s t"
  by (simp add: wiring_rel_def honey_below_refl)

lemma wiring_honey:
  "(honey_inv (mas_honey s) \<Longrightarrow> honey_inv h \<and> honey_below (mas_honey s) h) \<Longrightarrow> wiring_rel s (s\<lparr>mas_honey := h\<rparr>)"
  by (simp add: wiring_rel_def same_wiring_def)

lemma wiring_record: "wiring_rel s (record_event agent event detail trace s)"
  by (rule wiring_same) (simp_all add: same_wiring_def record_event_def)

lemma wiring_guard: "wiring_rel s (snd (mas_guard phase e v s))"
  using boundary_guard_keeps [of "mas_honey s" phase e v]
  by (cases "boundary_guard phase e v (mas_honey s)") (simp add: mas_guard_def wiring_honey)

lemma wiring_apply: "wiring_rel s (snd (apply_boundary_guard nm mas_guard phase e v s))"
proof (cases "bus_guarded s")
  case True
  obtain r s' where g: "mas_guard phase e v s = (r, s')" by fastforce
  with wiring_guard [of s phase e v] have "wiring_rel s s'" by simp
  with True g show ?thesis
    by (auto simp: apply_boundary_guard_def intro: wiring_trans wiring_record split: sum.split)
qed (simp add: apply_boundary_guard_def wiring_refl)

lemma process_wiring: "same_wiring s (snd (agent_process E k e s)) \<and> mas_honey (snd (agent_process E k e s)) = mas_honey s"
proof (cases k)
  case A_Policy
  then show ?thesis by (simp add: agent_process_def policy_process_def Let_def same_wiring_def)
next
  case A_Executor
  obtain r s' where x: "executor_process E e s = (r, s')" by fastforce
  from executor_effect [OF x] have "same_wiring s s' \<and> mas_honey s' = mas_honey s"
    by (elim disjE exE conjE) (simp_all add: same_wiring_def)
  with A_Executor x show ?thesis by (simp add: agent_process_def)
qed (simp_all add: agent_process_def same_wiring_refl)

lemma handle_wiring: "wiring_rel s (snd (agent_handle E k e s))"
proof -
  obtain r s' where p: "agent_process E k e s = (r, s')" by fastforce
  with process_wiring [of s E k e] have s': "wiring_rel s s'" by (simp add: wiring_same)
  show ?thesis
  proof (cases r)
    case (Inl x)
    obtain q s'' where i: "inspect_handler_exception E e x s' = (q, s'')" by fastforce
    with wiring_apply [of s' "ae_name E" "''result''" e "POther (ae_repr E x)"] have "wiring_rel s' s''"
      by (simp add: inspect_handler_exception_def)
    with s' have "wiring_rel s s''" by (rule wiring_trans)
    with s' p i Inl show ?thesis by (cases q) (simp_all add: agent_handle_def)
  qed (use p s' in \<open>simp add: agent_handle_def\<close>)
qed

interpretation wiring: system_relation E wiring_rel
proof
  fix s t u :: "'w mas" and agent event detail trace phase e v handler L body tid recipient message channel
  show "wiring_rel s s" by (rule wiring_refl)
  show "wiring_rel s t \<Longrightarrow> wiring_rel t u \<Longrightarrow> wiring_rel s u" by (rule wiring_trans)
  show "wiring_rel s (record_event agent event detail trace s)" by (rule wiring_record)
  show "wiring_rel s (s\<lparr>bus_next := bus_next s + 1\<rparr>)" by (rule wiring_same) (simp_all add: same_wiring_def)
  show "wiring_rel s (snd (mas_guard phase e v s))" by (rule wiring_guard)
  show "wiring_rel s (snd (agent_handle E handler e s))" by (rule handle_wiring)
  show "wiring_rel s (s\<lparr>mas_honey := snd (mint L body tid recipient message (mas_honey s))\<rparr>)"
    using mint_keeps [of "mas_honey s" L body tid recipient message] by (intro wiring_honey) (metis prod.collapse)
  show "wiring_rel s (s\<lparr>mas_honey := complete tid (mas_honey s)\<rparr>)" by (intro wiring_honey) (rule complete_keeps)
  show "wiring_rel s (s\<lparr>mas_honey := snd (inspect_external_write tid v channel (mas_honey s))\<rparr>)"
    using inspect_value_keeps [of "mas_honey s" v tid "''external:'' @ channel" None]
    by (intro wiring_honey) (metis inspect_external_write_def prod.collapse)
qed

section \<open>The system after construction\<close>

definition wired :: "'w mas \<Rightarrow> bool" where
  "wired s \<longleftrightarrow> bus_guarded s \<and> dict_get (bus_handlers s) (mas_coordinator s) = Some A_Coordinator
     \<and> dict_get (bus_handlers s) (mas_policy s) = Some A_Policy \<and> dict_get (bus_handlers s) (mas_executor s) = Some A_Executor
     \<and> dict_get (bus_handlers s) (mas_auditor s) = Some A_Auditor \<and> dict_get (bus_handlers s) (mas_verifier s) = Some A_Verifier
     \<and> honey_inv (mas_honey s)"

lemma wired_rel: "wired s \<Longrightarrow> wiring_rel s t \<Longrightarrow> wired t"
  by (auto simp: wired_def wiring_rel_def same_wiring_def)

text \<open>The agents' own state, as opposed to the registry and trace of the bus.\<close>

definition agents_part :: "'w mas \<Rightarrow> (string \<times> string \<times> string \<times> string \<times> string) \<times> honey_agent \<times> policy_rule list \<times> string dict \<times> 'w action_fn dict \<times> 'w" where
  "agents_part s = ((mas_coordinator s, mas_policy s, mas_executor s, mas_auditor s, mas_verifier s),
     mas_honey s, mas_rules s, mas_tokens s, mas_actions s, mas_world s)"

lemma register_effect:
  assumes "register_agent i k (s :: 'w mas) = (Inr u, s')"
  shows "dict_get (bus_handlers s) (ag_id i) = None \<and> dict_get (bus_handlers s') = (dict_get (bus_handlers s))(ag_id i \<mapsto> k)
    \<and> agents_part s' = agents_part s"
  using assms by (auto simp: register_agent_def record_event_def agents_part_def split: if_splits)

lemma new_system_wired:
  assumes "new_system E actions rules w = (Inr u, s)"
  shows "wired s \<and> mas_tokens s = [] \<and> mas_actions s = actions \<and> mas_world s = w
    \<and> mas_rules s = (if rules = [] then DEFAULT_POLICY_RULES else rules)"
proof -
  define h where "h = new_agent_identity E 0 ''honeytoken'' [''honeytoken'']"
  define c where "c = new_agent_identity E 1 ''coordinator'' [''coordinate'']"
  define p where "p = new_agent_identity E 2 ''policy'' [''policy'']"
  define x where "x = new_agent_identity E 3 ''executor'' [''execute'']"
  define a where "a = new_agent_identity E 4 ''auditor'' [''audit'']"
  define v where "v = new_agent_identity E 5 ''verifier'' [''verify'']"
  note ids = h_def c_def p_def x_def a_def v_def
  obtain s0 u1 s1 u2 s2 u3 s3 u4 s4 u5 s5 u6 s6 where
    r: "register_agent h A_Honey s0 = (Inr u1, s1)" "register_agent c A_Coordinator s1 = (Inr u2, s2)"
      "register_agent p A_Policy s2 = (Inr u3, s3)" "register_agent x A_Executor s3 = (Inr u4, s4)"
      "register_agent a A_Auditor s4 = (Inr u5, s5)" "register_agent v A_Verifier s5 = (Inr u6, s6)"
    and s: "s = s6\<lparr>bus_guarded := True\<rparr>"
    and s0: "agents_part s0 = ((ag_id c, ag_id p, ag_id x, ag_id a, ag_id v),
        \<lparr>ht_id = ag_id h, ht_max_scan = MAX_CANARY_SCAN_CHARS, ht_max_runs = DEFAULT_MAX_TRACKED_RUNS, ht_states = []\<rparr>,
        if rules = [] then DEFAULT_POLICY_RULES else rules, [], actions, w)"
    using assms unfolding new_system_def Let_def abind_Inr ids [symmetric]
    by (auto simp: agents_part_def)
  note R = r [THEN register_effect]
  have part: "agents_part s = agents_part s0" using R by (simp add: s agents_part_def)
  have "dict_get (bus_handlers s) = dict_get (bus_handlers s6)" by (simp add: s)
  with R have "dict_get (bus_handlers s) (ag_id v) = Some A_Verifier" "dict_get (bus_handlers s) (ag_id a) = Some A_Auditor"
    "dict_get (bus_handlers s) (ag_id x) = Some A_Executor" "dict_get (bus_handlers s) (ag_id p) = Some A_Policy"
    "dict_get (bus_handlers s) (ag_id c) = Some A_Coordinator"
    by (auto split: if_splits)
  moreover have "bus_guarded s" by (simp add: s)
  ultimately show ?thesis using part s0
    by (auto simp: wired_def agents_part_def honey_inv_def DEFAULT_MAX_TRACKED_RUNS_def)
qed

section \<open>Actions run only when allowed\<close>

text \<open>
  C4. Nothing runs that the policy does not allow. After any sequence of messages put on the bus, with
  any claimed sender, payload and token, of broadcasts, runs and guarded writes, the world has changed
  only by calls of registered actions whose name the policy rules allow.
\<close>

theorem actions_only_when_allowed:
  assumes "new_system E actions rules w = (Inr u, s)"
  shows "(\<lambda>w1 w2. \<exists>action f args. decide (if rules = [] then DEFAULT_POLICY_RULES else rules) action = V_ALLOW
            \<and> dict_get actions action = Some f \<and> w2 = snd (f args w1))\<^sup>*\<^sup>* w (mas_world (snd (run_ops (mas_step E) uses s)))"
proof -
  note N = new_system_wired [OF assms]
  then have "tokens_ok E s" by (simp add: tokens_ok_def)
  with approval.rel_uses [of E s uses] have "(performs s)\<^sup>*\<^sup>* (mas_world s) (mas_world (snd (run_ops (mas_step E) uses s)))"
    by (simp add: approval_rel_def)
  with N show ?thesis unfolding performs_def by simp
qed

text \<open>\<open>acted E tok x s\<close>: the message \<open>x\<close>, carrying \<open>tok\<close>, makes the executor act.\<close>

fun acted :: "agent_env \<Rightarrow> string \<Rightarrow> mas_op \<Rightarrow> 'w mas \<Rightarrow> bool" where
  "acted E tok (Put e) s \<longleftrightarrow> py_get (env_payload e) ''approval_token'' PNone = PStr tok \<and>
     (mas_world (snd (mas_deliver E e s)) \<noteq> mas_world s
      \<or> dict_get (bus_handlers s) (env_recipient e) = Some A_Executor
        \<and> (case fst (mas_deliver E e s) of Inl _ \<Rightarrow> False | Inr r \<Rightarrow> r_success r))"
| "acted E tok _ s \<longleftrightarrow> False"

definition acting_step :: "agent_env \<Rightarrow> string \<Rightarrow> mas_op \<Rightarrow> 'w mas \<Rightarrow> bool \<times> 'w mas" where
  "acting_step E tok x s = (acted E tok x s, snd (mas_step E x s))"

definition approval_part :: "'w mas \<Rightarrow> agent_kind dict \<times> string dict \<times> 'w" where
  "approval_part s = (bus_handlers s, mas_tokens s, mas_world s)"

lemma approval_part_kept:
  "approval_part (record_event agent event detail trace s) = approval_part s"
  "approval_part (snd (mas_guard phase e v s)) = approval_part s"
  by (simp_all add: approval_part_def record_event_def mas_guard_def case_prod_beta Let_def)

lemma handle_part: "approval_part (snd (agent_handle E k e s)) = approval_part (snd (agent_process E k e s))"
proof -
  obtain r s' where p: "agent_process E k e s = (r, s')" by fastforce
  show ?thesis
  proof (cases r)
    case (Inl x)
    obtain q s'' where i: "inspect_handler_exception E e x s' = (q, s'')" by fastforce
    with apply_guard_proj [of approval_part mas_guard "ae_name E" "''result''" e "POther (ae_repr E x)" s', OF approval_part_kept]
    have "approval_part s'' = approval_part s'" by (simp add: inspect_handler_exception_def)
    with p i Inl show ?thesis by (cases q) (simp_all add: agent_handle_def)
  qed (use p in \<open>simp add: agent_handle_def\<close>)
qed

lemma handle_result: "fst (agent_handle E k e s) = Inr r \<Longrightarrow>
    fst (agent_process E k e s) = Inr r \<or> (\<exists>x. fst (agent_process E k e s) = Inl x \<and> r = error_result E (agent_id_of k s) x)"
  by (auto simp: agent_handle_def abind_def split: prod.splits sum.splits if_splits)

lemma deliver_part:
  assumes "mas_deliver E e s = (r, s')"
  shows "approval_part s' = approval_part s \<and> (\<exists>x. r = Inl x) \<or>
    (\<exists>k s1. dict_get (bus_handlers s) (env_recipient e) = Some k \<and> approval_part s1 = approval_part s
       \<and> approval_part s' = approval_part (snd (agent_process E k e s1)) \<and> (\<forall>x. r = Inr x \<longrightarrow> fst (agent_handle E k e s1) = Inr x))"
  using deliver_proj [of approval_part mas_guard, OF approval_part_kept assms [unfolded mas_deliver_def]]
proof (elim disjE exE conjE)
  fix k s0 s1
  assume h: "dict_get (bus_handlers s0) (env_recipient e) = Some k" "approval_part s0 = approval_part s"
    "approval_part s1 = approval_part s0" "approval_part s' = approval_part (snd (agent_handle E k e s1))"
    "\<forall>x. r = Inr x \<longrightarrow> fst (agent_handle E k e s1) = Inr x"
  then have "bus_handlers s0 = bus_handlers s" by (simp add: approval_part_def)
  with h show ?thesis unfolding handle_part by metis
qed blast

lemma acted_spends:
  assumes "acted E tok x s"
  shows "dict_get (mas_tokens s) tok \<noteq> None \<and> dict_get (mas_tokens (snd (mas_step E x s))) tok = None"
proof (cases x)
  case (Put e)
  obtain r s' where d: "mas_deliver E e s = (r, s')" by fastforce
  from assms Put have tok: "py_get (env_payload e) ''approval_token'' PNone = PStr tok" by simp
  from assms Put d have act: "mas_world s' \<noteq> mas_world s \<or>
      dict_get (bus_handlers s) (env_recipient e) = Some A_Executor \<and> (\<exists>y. r = Inr y \<and> r_success y)" by (auto split: sum.splits)
  with deliver_part [OF d] obtain k s1 where
    k: "dict_get (bus_handlers s) (env_recipient e) = Some k" "approval_part s1 = approval_part s"
      "approval_part s' = approval_part (snd (agent_process E k e s1))" "\<forall>y. r = Inr y \<longrightarrow> fst (agent_handle E k e s1) = Inr y"
    by (auto simp: approval_part_def)
  have "k = A_Executor"
  proof (rule ccontr)
    assume "k \<noteq> A_Executor"
    then have "mas_world (snd (agent_process E k e s1)) = mas_world s1"
      by (cases k) (simp_all add: agent_process_def policy_process_def Let_def)
    with k(2,3) have "mas_world s' = mas_world s" by (simp add: approval_part_def)
    with act k(1) \<open>k \<noteq> A_Executor\<close> show False by simp
  qed
  obtain q t where q: "executor_process E e s1 = (q, t)" by fastforce
  have "\<exists>t'. t' = tok \<and> dict_get (mas_tokens s1) t' \<noteq> None \<and> mas_tokens t = dict_pop t' (mas_tokens s1)"
    using executor_effect [OF q]
  proof (elim disjE exE conjE)
    fix y assume n: "t = s1" "q = Inr y" "\<not> r_success y"
    have "r \<noteq> Inr z" if "r_success z" for z
    proof
      assume "r = Inr z"
      with k(4) handle_result [of E k e s1 z] that n q \<open>k = A_Executor\<close> show False
        by (auto simp: agent_process_def error_result_def)
    qed
    with act n q k(2,3) \<open>k = A_Executor\<close> show ?thesis by (auto simp: agent_process_def approval_part_def)
  qed (use tok in auto)
  with k(2,3) q \<open>k = A_Executor\<close> d Put show ?thesis by (auto simp: agent_process_def approval_part_def)
qed (use assms in simp_all)


section \<open>What a report means\<close>

lemma result_guard_passed:
  assumes inv: "honey_inv h" and run: "boundary_guard ''result'' e v h = (Inr u, h')"
  shows "h' = h \<and> \<not> is_tripped (env_trace e) h"
proof -
  have "\<not> is_tripped (env_trace e) h"
  proof
    assume "is_tripped (env_trace e) h"
    then obtain st where st: "dict_get (ht_states h) (env_trace e) = Some st" "hs_tripped st"
      by (auto simp: is_tripped_def split: option.splits)
    with inv obtain f where "hs_finding st = Some f" using state_ok_get by (fastforce simp: honey_inv_def state_ok_def)
    with st run show False by (simp add: boundary_guard_def)
  qed
  moreover from this run obtain stage where "inspect_value v (env_trace e) stage None h = (Inr u, h')"
    by (auto simp: boundary_guard_def is_tripped_def split: option.splits bool.splits)
  then have "h' = h" using inspect_value_passed by blast
  ultimately show ?thesis by blast
qed

lemma mas_deliver_ok:
  assumes w: "wired s" and run: "mas_deliver E e s = (Inr r, s')" and k: "dict_get (bus_handlers s) (env_recipient e) = Some k"
  shows "(\<exists>s1. wiring_rel s s1 \<and> fst (agent_handle E k e s1) = Inr r) \<and> \<not> is_tripped (env_trace e) (mas_honey s')"
proof -
  let ?g = "\<lambda>phase v s. apply_boundary_guard (ae_name E) mas_guard phase e v s"
  define rec where "rec = (\<lambda>t :: 'a mas. record_event (env_sender e) ''deliver'' [(''to'', PStr (env_recipient e)), (''type'', PStr (env_type e))] (env_trace e) t)"
  from run obtain s0 k' s2 s3 where g0: "?g ''envelope'' PNone s = (Inr (), s0)"
    and k': "dict_get (bus_handlers s0) (env_recipient e) = Some k'" and c: "agent_handle E k' e (rec s0) = (Inr r, s2)"
    and g2: "?g ''result'' (result_value r) s2 = (Inr (), s3)" and s': "mas_honey s' = mas_honey s3"
    unfolding mas_deliver_def deliver_def rec_def by (auto simp: abind_Inr record_event_def split: if_splits option.splits)
  have w0: "wiring_rel s s0" using wiring_apply [of s "ae_name E" "''envelope''" e PNone] g0 by simp
  then have kk: "k' = k" using k k' by (simp add: wiring_rel_def same_wiring_def)
  have w1: "wiring_rel s (rec s0)" using w0 wiring_record unfolding rec_def by (rule wiring_trans)
  have "wiring_rel s s2" using wiring_trans [OF w1 handle_wiring [of "rec s0" E k' e]] c by simp
  with w have w2: "wired s2" by (rule wired_rel)
  obtain h3 where "boundary_guard ''result'' e (result_value r) (mas_honey s2) = (Inr (), h3)" "mas_honey s3 = h3"
    using g2 w2 by (auto simp: apply_boundary_guard_def wired_def mas_guard_def Let_def split: prod.splits sum.splits)
  from result_guard_passed [OF _ this(1)] this(2) w2 s' have "\<not> is_tripped (env_trace e) (mas_honey s')" by (simp add: wired_def)
  with w1 c kk show ?thesis by auto
qed

lemma send_step_ok:
  assumes w: "wired s" and run: "send_step E e recipient kind payload s = (Inr r, s')"
    and k: "dict_get (bus_handlers s) recipient = Some k"
  shows "(\<exists>mid s1. wiring_rel s s1 \<and> fst (agent_handle E k (forwarded mid e recipient kind payload) s1) = Inr r)
    \<and> \<not> is_tripped (env_trace e) (mas_honey s') \<and> wiring_rel s s'"
proof -
  let ?s = "s\<lparr>bus_next := bus_next s + 1\<rparr>" and ?e = "forwarded (ae_uid E (bus_next s)) e recipient kind payload"
  have d: "mas_deliver E ?e ?s = (Inr r, s')" using run by (simp add: send_step_def)
  have w1: "wiring_rel s ?s" by (rule wiring.rel_draw)
  have "wired ?s" "dict_get (bus_handlers ?s) (env_recipient ?e) = Some k" using wired_rel [OF w w1] k by (simp_all add: forwarded_def)
  from mas_deliver_ok [OF this(1) d this(2)] obtain s1 where s1: "wiring_rel ?s s1" "fst (agent_handle E k ?e s1) = Inr r"
    "\<not> is_tripped (env_trace ?e) (mas_honey s')" by blast
  moreover have "wiring_rel s s'" using wiring.rel_send [OF wiring_refl, where E = E] run by (metis snd_conv)
  ultimately show ?thesis using wiring_trans [OF w1 s1(1)] by (auto simp: forwarded_def)
qed

lemma policy_allows:
  assumes "fst (agent_handle E A_Policy e s) = Inr r" and "r_verdict r = V_ALLOW"
  shows "decide (mas_rules s) (py_str (ae_show E) (py_get (env_payload e) ''action'' (PStr []))) = V_ALLOW"
  using assms by (auto simp: agent_handle_def agent_process_def policy_process_def Let_def split: if_splits)

lemma verifier_allows:
  assumes "fst (agent_handle E A_Verifier e s) = Inr r" and "r_verdict r = V_ALLOW"
  shows "scan_text (ae_lib E) (ae_word E) (mas_verifier s) (py_str (ae_show E) (py_get (env_payload e) ''output'' PNone)) = []"
  using assms by (auto simp: agent_handle_def agent_process_def verifier_process_def Let_def split: if_splits)

text \<open>A step that counts: allowed, executed, and its output passed the verifier's scan.\<close>

definition step_sound :: "agent_env \<Rightarrow> policy_rule list \<Rightarrow> string \<Rightarrow> step_report \<Rightarrow> bool" where
  "step_sound E rules verifier r \<longleftrightarrow> sr_policy r = V_ALLOW \<and> sr_executed r
     \<and> decide rules (py_str (ae_show E) (sr_action r)) = V_ALLOW
     \<and> scan_text (ae_lib E) (ae_word E) verifier (py_str (ae_show E) (sr_output r)) = []"

lemma run_allowed_sound:
  assumes w: "wired s" and run: "run_allowed E e action args policy s = (Inr r, s')"
  shows "sr_action r = action \<and> sr_policy r = r_verdict policy \<and> \<not> is_tripped (env_trace e) (mas_honey s')
    \<and> (sr_executed r \<longrightarrow> scan_text (ae_lib E) (ae_word E) (mas_verifier s) (py_str (ae_show E) (sr_output r)) = [])"
proof -
  from run obtain token execution s1 audits s2 verification where
    x: "send_step E e (mas_executor s) ''action.execute'' [(''action'', action), (''args'', args), (''approval_token'', token)] s = (Inr execution, s1)"
    and a: "audit_step E e action (r_output execution) s1 = (Inr audits, s2)"
    and v: "send_step E e (mas_verifier s2) ''result.verify''
         [(''action'', action), (''executed'', PBool (r_success execution)), (''output'', r_output execution)] s2 = (Inr verification, s')"
    and r: "sr_action r = action" "sr_policy r = r_verdict policy" "sr_executed r \<longrightarrow> r_verdict verification = V_ALLOW"
      "r_verdict verification = V_ALLOW \<longrightarrow> sr_output r = r_output execution"
    unfolding run_allowed_def by (auto simp: abind_Inr Let_def)
  have "wiring_rel s s1" using wiring.rel_send [OF wiring_refl, where E = E] x by (metis snd_conv)
  then have w2: "wiring_rel s s2" using wiring.rel_audit [of s s1 E e action "r_output execution"] a by simp
  note wd = wired_rel [OF w w2]
  then have "dict_get (bus_handlers s2) (mas_verifier s2) = Some A_Verifier" by (simp add: wired_def)
  from send_step_ok [OF wd v this] obtain mid s3 where s3: "wiring_rel s2 s3"
    "fst (agent_handle E A_Verifier (forwarded mid e (mas_verifier s2) ''result.verify''
         [(''action'', action), (''executed'', PBool (r_success execution)), (''output'', r_output execution)]) s3) = Inr verification"
    "\<not> is_tripped (env_trace e) (mas_honey s')" by blast
  have "mas_verifier s3 = mas_verifier s" using s3(1) w2 by (simp add: wiring_rel_def same_wiring_def)
  with verifier_allows [OF s3(2)] r s3(3) show ?thesis by (auto simp: forwarded_def py_get_def)
qed

lemma run_step_sound:
  assumes w: "wired s" and run: "run_step E e spec s = (Inr r, s')"
  shows "\<not> is_tripped (env_trace e) (mas_honey s')
    \<and> (sr_policy r = V_ALLOW \<and> sr_executed r \<longrightarrow> step_sound E (mas_rules s) (mas_verifier s) r)"
proof -
  from run obtain action args policy s1 where
    p: "send_step E e (mas_policy s) ''policy.check'' [(''action'', action), (''args'', args)] s = (Inr policy, s1)"
    and cont: "(if r_verdict policy \<noteq> V_ALLOW
      then (Inr \<lparr>sr_action = action, sr_policy = r_verdict policy, sr_executed = False, sr_output = PNone,
             sr_findings = r_findings policy\<rparr>, s1)
      else run_allowed E e action args policy s1) = (Inr r, s')"
    unfolding run_step_def by (auto simp: abind_Inr)
  have "dict_get (bus_handlers s) (mas_policy s) = Some A_Policy" using w by (simp add: wired_def)
  from send_step_ok [OF w p this] obtain mid s0 where s0: "wiring_rel s s0"
    "fst (agent_handle E A_Policy (forwarded mid e (mas_policy s) ''policy.check'' [(''action'', action), (''args'', args)]) s0) = Inr policy"
    "\<not> is_tripped (env_trace e) (mas_honey s1)" "wiring_rel s s1" by blast
  have same: "mas_rules s0 = mas_rules s" "mas_verifier s1 = mas_verifier s" using s0(1,4) by (simp_all add: wiring_rel_def same_wiring_def)
  show ?thesis
  proof (cases "r_verdict policy = V_ALLOW")
    case True
    with cont run_allowed_sound [OF wired_rel [OF w s0(4)], of E e action args policy r s']
    have "sr_action r = action" "\<not> is_tripped (env_trace e) (mas_honey s')"
      "sr_executed r \<longrightarrow> scan_text (ae_lib E) (ae_word E) (mas_verifier s) (py_str (ae_show E) (sr_output r)) = []"
      using same by simp_all
    moreover have "decide (mas_rules s) (py_str (ae_show E) action) = V_ALLOW"
      using policy_allows [OF s0(2) True] same by (simp add: forwarded_def py_get_def)
    ultimately show ?thesis by (simp add: step_sound_def)
  qed (use cont s0(3) in auto)
qed

lemma run_plan_sound:
  assumes "wired s" and "run_plan E e specs rep s = (x, rep', s')" and "\<not> is_tripped (env_trace e) (mas_honey s)"
    and "rr_verdict rep = V_ALLOW \<longrightarrow> list_all (step_sound E (mas_rules s) (mas_verifier s)) (rr_steps rep)"
  shows "(x = None \<longrightarrow> \<not> is_tripped (env_trace e) (mas_honey s')) \<and> rr_trace rep' = rr_trace rep
    \<and> length (rr_steps rep') \<le> length (rr_steps rep) + length specs
    \<and> (rr_verdict rep' = V_ALLOW \<longrightarrow> list_all (step_sound E (mas_rules s) (mas_verifier s)) (rr_steps rep'))
    \<and> (rr_verdict rep' = V_ALLOW \<and> x = None \<longrightarrow> length (rr_steps rep') = length (rr_steps rep) + length specs)"
  using assms
proof (induction specs arbitrary: rep s)
  case Nil
  then show ?case by auto
next
  case (Cons spec specs)
  obtain q t where q: "run_step E e spec s = (q, t)" by fastforce
  with wiring.rel_step [OF wiring_refl, where E = E] have wt: "wiring_rel s t" by (metis snd_conv)
  then have same: "mas_rules t = mas_rules s" "mas_verifier t = mas_verifier s" by (simp_all add: wiring_rel_def same_wiring_def)
  show ?case
  proof (cases q)
    case (Inl y)
    with q Cons.prems show ?thesis by auto
  next
    case (Inr r)
    note S = run_step_sound [OF Cons.prems(1) q [unfolded Inr]]
    from q Inr Cons.prems(2) have rest: "run_plan E e specs (add_step rep r) t = (x, rep', s')" by simp
    have steps: "rr_verdict (add_step rep r) = V_ALLOW \<longrightarrow> list_all (step_sound E (mas_rules t) (mas_verifier t)) (rr_steps (add_step rep r))"
      using S Cons.prems(4) same by (auto simp: add_step_def)
    from Cons.IH [OF wired_rel [OF Cons.prems(1) wt] rest conjunct1 [OF S] steps] same show ?thesis by (simp add: add_step_def)
  qed
qed

lemma plan_steps_length: "plan_steps sh specs = Inr plan \<Longrightarrow> length plan = length specs"
  by (induction specs arbitrary: plan) (auto simp: rbind_Inr)

lemma plan_slice_length: "plan_slice v = Inr specs \<Longrightarrow> length specs \<le> 64"
  by (auto simp: plan_slice_def MAX_PLAN_STEPS_def split: pyv.splits)

text \<open>What the coordinator lets through: a clean task and at most 64 steps.\<close>

lemma coordinator_allows:
  assumes "fst (agent_handle E A_Coordinator e s) = Inr r" and "r_verdict r = V_ALLOW"
    and "pyv_item (r_output r) ''plan'' = Inr plan" and "pyv_iter plan = Inr specs"
  shows "r_findings r = [] \<and> length specs \<le> 64
    \<and> (\<exists>task. py_dict (ae_show E) (py_or (py_get (env_payload e) ''task'' PNone) (PDict [])) = Inr task
         \<and> scan_text (ae_lib E) (ae_word E) (mas_coordinator s) (ae_show E (PDict task)) = []
         \<and> int (py_len (ae_show E (PDict task))) \<le> MAX_TASK_CHARS)"
proof -
  from assms(1,2) handle_result [OF assms(1)] have "coordinator_process E (mas_coordinator s) e = Inr r"
    by (cases "coordinator_process E (mas_coordinator s) e") (auto simp: agent_process_def error_result_def)
  then obtain task n v raw_specs steps f1 f2 where
    t: "py_dict (ae_show E) (py_or (py_get (env_payload e) ''task'' PNone) (PDict [])) = Inr task"
    and v: "plan_slice v = Inr raw_specs" "plan_steps (ae_show E) raw_specs = Inr steps"
    and f1: "f1 = (if int (py_len (ae_show E (PDict task))) > MAX_TASK_CHARS
               then [agent_finding (mas_coordinator s) S_MEDIUM ''input.too-large'' ''task payload exceeds 131072 characters''] else [])
              @ scan_text (ae_lib E) (ae_word E) (mas_coordinator s) (ae_show E (PDict task))"
    and r: "\<lparr>r_agent = mas_coordinator s, r_success = True, r_verdict = (if f1 @ f2 = [] then V_ALLOW else V_DENY),
          r_output = PDict [(''plan'', PSeq steps)], r_findings = f1 @ f2\<rparr> = r"
    unfolding coordinator_process_def Let_def rbind_Inr by (elim exE conjE) (rule that, assumption+, rule refl, simp only: sum.inject)
  from r assms(2) have nf: "f1 @ f2 = []" "r_findings r = f1 @ f2" "r_output r = PDict [(''plan'', PSeq steps)]"
    by (auto split: if_splits)
  have "pyv_item (PDict [(''plan'', PSeq steps)]) ''plan'' = Inr plan" using assms(3) nf(3) by simp
  then have "specs = steps" using assms(4) by (auto simp: pyv_item_def pyv_iter_def)
  then have "length specs \<le> 64" using plan_slice_length [OF v(1)] plan_steps_length [OF v(2)] by simp
  with t nf f1 show ?thesis by (auto split: if_splits)
qed

lemma try_run_sound:
  assumes w: "wired s" and run: "try_run E e rep s = (x, rep', s')"
    and e: "env_recipient e = mas_coordinator s" and rep: "rr_steps rep = []" "rr_verdict rep = V_ALLOW"
  shows "(x = None \<longrightarrow> \<not> is_tripped (env_trace e) (mas_honey s')) \<and> rr_trace rep' = rr_trace rep
    \<and> (x = None \<and> rr_verdict rep' = V_ALLOW \<longrightarrow>
         list_all (step_sound E (mas_rules s) (mas_verifier s)) (rr_steps rep') \<and> length (rr_steps rep') \<le> 64
         \<and> (\<exists>task. py_dict (ae_show E) (py_or (py_get (env_payload e) ''task'' PNone) (PDict [])) = Inr task
              \<and> scan_text (ae_lib E) (ae_word E) (mas_coordinator s) (ae_show E (PDict task)) = []
              \<and> int (py_len (ae_show E (PDict task))) \<le> MAX_TASK_CHARS))"
proof -
  obtain q s1 where q: "mas_deliver E e s = (q, s1)" by fastforce
  then have w1: "wiring_rel s s1" using wiring.rel_deliver [of s "ae_name E" E e] by (simp add: mas_deliver_def)
  then have same: "mas_rules s1 = mas_rules s" "mas_verifier s1 = mas_verifier s" by (simp_all add: wiring_rel_def same_wiring_def)
  show ?thesis
  proof (cases q)
    case (Inl y)
    with q run show ?thesis by (auto simp: try_run_def)
  next
    case (Inr planned)
    have k: "dict_get (bus_handlers s) (env_recipient e) = Some A_Coordinator" using w e by (simp add: wired_def)
    from mas_deliver_ok [OF w q [unfolded Inr] k] obtain s0 where
      s0: "wiring_rel s s0" "fst (agent_handle E A_Coordinator e s0) = Inr planned" "\<not> is_tripped (env_trace e) (mas_honey s1)" by blast
    then have c: "mas_coordinator s0 = mas_coordinator s" by (simp add: wiring_rel_def same_wiring_def)
    let ?rep = "rep\<lparr>rr_findings := rr_findings rep @ r_findings planned\<rparr>"
    show ?thesis
    proof (cases "r_verdict planned = V_ALLOW \<and> (\<exists>plan specs. pyv_item (r_output planned) ''plan'' = Inr plan \<and> pyv_iter plan = Inr specs)")
      case True
      then obtain plan specs where p: "r_verdict planned = V_ALLOW" "pyv_item (r_output planned) ''plan'' = Inr plan" "pyv_iter plan = Inr specs"
        by blast
      with run q Inr have rp: "run_plan E e specs ?rep s1 = (x, rep', s')" by (simp add: try_run_def Let_def)
      from run_plan_sound [OF wired_rel [OF w w1] rp s0(3)] rep same
      have R: "x = None \<longrightarrow> \<not> is_tripped (env_trace e) (mas_honey s')" "rr_trace rep' = rr_trace rep"
        "length (rr_steps rep') \<le> length specs"
        "rr_verdict rep' = V_ALLOW \<longrightarrow> list_all (step_sound E (mas_rules s) (mas_verifier s)) (rr_steps rep')" by simp_all
      with coordinator_allows [OF s0(2) p] c show ?thesis by auto
    next
      case False
      then show ?thesis using run q Inr s0(3)
        by (cases "pyv_item (r_output planned) ''plan''")
          (auto simp: try_run_def Let_def split: if_splits sum.splits)
    qed
  qed
qed

lemma complete_tripped: "is_tripped t (complete tid h) = is_tripped t h"
  by (simp add: complete_def is_tripped_def split: option.splits)

text \<open>A run that returns is its attempt, judged: either nothing was raised, or a canary leaked.\<close>

lemma mas_run_cases:
  assumes w: "wired s" and run: "mas_run E task s = (Inr rep, s')"
  shows "(\<not> is_tripped (rr_trace rep) (mas_honey s')
      \<and> (rr_verdict rep = V_ALLOW \<longrightarrow>
         list_all (step_sound E (mas_rules s) (mas_verifier s)) (rr_steps rep) \<and> length (rr_steps rep) \<le> 64
         \<and> (\<exists>d. py_dict (ae_show E) (py_or task (PDict [])) = Inr d
              \<and> scan_text (ae_lib E) (ae_word E) (mas_coordinator s) (ae_show E (PDict d)) = []
              \<and> int (py_len (ae_show E (PDict d))) \<le> MAX_TASK_CHARS)))
    \<or> rr_verdict rep = V_DENY \<and> list_all (\<lambda>r. \<not> sr_executed r \<and> sr_output r = PNone) (rr_steps rep)"
proof -
  define n where "n = bus_next s"
  let ?mid = "ae_uid E n" and ?tid = "ae_uid E (n + 1)"
  obtain m h where m: "mint (ae_lib E) (ae_body E n) ?tid (mas_coordinator s) (Some ?mid) (mas_honey s) = (m, h)" by fastforce
  let ?s = "s\<lparr>bus_next := n + 2, mas_honey := h\<rparr>"
  have ws: "wired ?s" using mint_keeps [OF _ m] w by (simp add: wired_def)
  from run m obtain ctx canary where
    fin: "finish_run ?tid (try_run E (task_envelope ?mid ?tid (mas_coordinator s) [(''task'', task), (''trusted_context'', PDict ctx)])
       \<lparr>rr_trace = ?tid, rr_verdict = V_ALLOW, rr_steps = [], rr_findings = [], rr_canary = canary\<rparr> ?s) = (Inr rep, s')"
    unfolding mas_run_def Let_def n_def [symmetric] by (auto simp: abind_Inr)
  let ?e = "task_envelope ?mid ?tid (mas_coordinator s) [(''task'', task), (''trusted_context'', PDict ctx)]"
  let ?rep = "\<lparr>rr_trace = ?tid, rr_verdict = V_ALLOW, rr_steps = [], rr_findings = [], rr_canary = canary\<rparr>"
  obtain x rep' t where t: "try_run E ?e ?rep ?s = (x, rep', t)" by (metis prod.collapse)
  have e: "env_recipient ?e = mas_coordinator ?s" "env_trace ?e = ?tid" "py_get (env_payload ?e) ''task'' PNone = task"
    by (simp_all add: task_envelope_def py_get_def)
  note T = try_run_sound [OF ws t e(1), unfolded e(2,3)]
  show ?thesis
  proof (cases x)
    case None
    then have "rep = rep'" "mas_honey s' = complete ?tid (mas_honey t)" using fin t by (auto simp: finish_run_def)
    with T None show ?thesis by (simp add: complete_tripped)
  next
    case (Some y)
    then obtain f where "y = Leak f" "rep = on_leak f rep'" using fin t by (cases y) (auto simp: finish_run_def)
    then show ?thesis by (auto simp: on_leak_def list_all_iff)
  qed
qed

lemma used_wired:
  assumes "new_system E actions rules w = (Inr u, s0)"
  shows "wired (snd (run_ops (mas_step E) uses s0))
    \<and> mas_rules (snd (run_ops (mas_step E) uses s0)) = (if rules = [] then DEFAULT_POLICY_RULES else rules)"
proof -
  have "wiring_rel s0 (snd (run_ops (mas_step E) uses s0))" by (rule wiring.rel_uses)
  with new_system_wired [OF assms] wired_rel show ?thesis by (fastforce simp: wiring_rel_def same_wiring_def)
qed

text \<open>
  C36. What an allowing report means. When a run of a system in any state of use reports ALLOW, its task
  is within the size limit and the scanner flags nothing in it, the plan has at most 64 steps, every
  step of the report was allowed by the policy rules, executed, and has an output in which the verifier
  flags nothing, and the canary of the run did not leak.
\<close>

theorem allowed_report_sound:
  assumes new: "new_system E actions rules w = (Inr u, s0)" and s: "s = snd (run_ops (mas_step E) uses s0)"
    and run: "mas_run E task s = (Inr rep, s')" and allow: "rr_verdict rep = V_ALLOW"
  shows "list_all (step_sound E (if rules = [] then DEFAULT_POLICY_RULES else rules) (mas_verifier s)) (rr_steps rep)
    \<and> length (rr_steps rep) \<le> 64 \<and> \<not> is_tripped (rr_trace rep) (mas_honey s')
    \<and> (\<exists>d. py_dict (ae_show E) (py_or task (PDict [])) = Inr d
          \<and> scan_text (ae_lib E) (ae_word E) (mas_coordinator s) (ae_show E (PDict d)) = []
          \<and> int (py_len (ae_show E (PDict d))) \<le> MAX_TASK_CHARS)"
proof -
  from used_wired [OF new] s have U: "wired s" "mas_rules s = (if rules = [] then DEFAULT_POLICY_RULES else rules)" by simp_all
  from mas_run_cases [OF U(1) run] allow show ?thesis unfolding U(2) by auto
qed

text \<open>
  A leak voids the run. When the canary of a returned run is tripped, the report denies the run and
  withholds the output of every step.
\<close>

theorem leaked_run_denied:
  assumes new: "new_system E actions rules w = (Inr u, s0)" and s: "s = snd (run_ops (mas_step E) uses s0)"
    and run: "mas_run E task s = (Inr rep, s')" and leak: "is_tripped (rr_trace rep) (mas_honey s')"
  shows "rr_verdict rep = V_DENY \<and> list_all (\<lambda>r. \<not> sr_executed r \<and> sr_output r = PNone) (rr_steps rep)"
proof -
  from used_wired [OF new] s have "wired s" by simp
  from mas_run_cases [OF this run] leak show ?thesis by blast
qed

section \<open>A run evaluated\<close>

definition demo_env :: agent_env where
  "demo_env = \<lparr>ae_lib = plain_lib, ae_word = (\<lambda>_. False), ae_show = (\<lambda>v. ''value''), ae_repr = (\<lambda>x. ''error''),
     ae_name = (\<lambda>c. ''Error''), ae_uid = nat_str, ae_body = (\<lambda>n. ''zqK'' @ nat_str n)\<rparr>"

text \<open>Two actions that count their calls.\<close>

definition demo_actions :: "nat action_fn dict" where
  "demo_actions = [(''echo'', \<lambda>args w. (Inr (PStr ''hi''), w + 1)), (''sum'', \<lambda>args w. (Inr (PStr ''three''), w + 1))]"

definition demo_system :: "nat mas" where
  "demo_system = snd (new_system demo_env demo_actions [] 0)"

lemma demo_new: "new_system demo_env demo_actions [] 0 = (Inr (), demo_system)"
proof -
  have "fst (new_system demo_env demo_actions [] 0) = Inr ()" by code_simp
  then show ?thesis by (metis demo_system_def prod.collapse)
qed

lemma demo_uid: "inj (ae_uid demo_env)"
  by (auto simp: inj_def demo_env_def nat_str_inj)

lemma demo_allowed: "map_sum id (\<lambda>r. (rr_verdict r, length (rr_steps r))) (fst (mas_run demo_env (PDict [(''action'', PStr ''echo'')]) demo_system))
    = Inr (V_ALLOW, 1)"
  by code_simp

lemma demo_leaks: "(case mas_run demo_env (PDict [(''action'', PStr ''BULL-CANARY-v1:zqK6'')]) demo_system of
     (Inr rep, s) \<Rightarrow> is_tripped (rr_trace rep) (mas_honey s) | _ \<Rightarrow> False)"
  by code_simp

theorem actions_only_when_allowed_witness:
  "(\<lambda>w1 w2. \<exists>action f args. decide DEFAULT_POLICY_RULES action = V_ALLOW
      \<and> dict_get demo_actions action = Some f \<and> w2 = snd (f args w1))\<^sup>*\<^sup>* (0 :: nat)
      (mas_world (snd (run_ops (mas_step demo_env) [Start (PDict [(''action'', PStr ''BULL-CANARY-v1:zqK6'')])] demo_system)))"
  using actions_only_when_allowed [OF demo_new, of "[Start (PDict [(''action'', PStr ''BULL-CANARY-v1:zqK6'')])]"] by simp

definition demo_execute :: envelope where
  "demo_execute = \<lparr>env_message = ''m'', env_trace = ''t'', env_sender = ''mallory'', env_recipient = mas_executor demo_system,
     env_type = ''action.execute'', env_payload = [(''action'', PStr ''echo''), (''approval_token'', PStr ''6'')], env_hops = 0\<rparr>"

definition demo_check :: envelope where
  "demo_check = demo_execute\<lparr>env_recipient := mas_policy demo_system, env_type := ''policy.check''\<rparr>"

text \<open>A forged message does nothing, the approved one acts, its replay does nothing.\<close>

lemma demo_replay: "fst (run_ops (acting_step demo_env ''6'') [Put demo_execute, Put demo_check, Put demo_execute, Put demo_execute] demo_system)
    = [False, False, True, False]"
  by code_simp


theorem allowed_report_sound_witness:
  "\<exists>rep s'. mas_run demo_env (PDict [(''action'', PStr ''echo'')]) demo_system = (Inr rep, s')
     \<and> list_all (step_sound demo_env DEFAULT_POLICY_RULES (mas_verifier demo_system)) (rr_steps rep)
     \<and> \<not> is_tripped (rr_trace rep) (mas_honey s')"
proof -
  from demo_allowed obtain rep s' where r: "mas_run demo_env (PDict [(''action'', PStr ''echo'')]) demo_system = (Inr rep, s')"
    "rr_verdict rep = V_ALLOW"
    by (cases "mas_run demo_env (PDict [(''action'', PStr ''echo'')]) demo_system";
        cases "fst (mas_run demo_env (PDict [(''action'', PStr ''echo'')]) demo_system)") auto
  have "demo_system = snd (run_ops (mas_step demo_env) [] demo_system)" by simp
  from allowed_report_sound [OF demo_new this r] r(1) show ?thesis by auto
qed

theorem leaked_run_denied_witness:
  "\<exists>rep s'. mas_run demo_env (PDict [(''action'', PStr ''BULL-CANARY-v1:zqK6'')]) demo_system = (Inr rep, s') \<and> rr_verdict rep = V_DENY"
proof -
  from demo_leaks obtain rep s' where r: "mas_run demo_env (PDict [(''action'', PStr ''BULL-CANARY-v1:zqK6'')]) demo_system = (Inr rep, s')"
    "is_tripped (rr_trace rep) (mas_honey s')" by (auto split: prod.splits sum.splits)
  have "demo_system = snd (run_ops (mas_step demo_env) [] demo_system)" by simp
  from leaked_run_denied [OF demo_new this r] r(1) show ?thesis by auto
qed

text \<open>
  The auditor's verdict is not consulted: \<^const>\<open>run_allowed\<close> copies its findings into the report and
  decides by the verifier alone. The two can differ. With the payloads that a step of the action
  \<open>disregard the\<close> with the output \<open>policy\<close> sends, the auditor, which sees both, denies; the verifier,
  which sees the output, allows.
\<close>

definition audit_env :: agent_env where
  "audit_env = demo_env\<lparr>ae_show := (\<lambda>v. case v of
     PDict [(_, PStr a), (_, PStr b)] \<Rightarrow>
       let q = [CHR 0x27] in ''{'' @ q @ ''action'' @ q @ '': '' @ q @ a @ q @ '', '' @ q @ ''output'' @ q @ '': '' @ q @ b @ q @ ''}''
   | _ \<Rightarrow> ''{}'')\<rparr>"

lemma auditor_denial_ignored:
  "r_verdict (auditor_process audit_env ''auditor'' (task_envelope ''m'' ''t'' ''auditor''
      [(''action'', PStr ''disregard the''), (''output'', PStr ''policy'')])) = V_DENY"
  "r_verdict (verifier_process audit_env ''verifier'' (task_envelope ''m'' ''t'' ''verifier''
      [(''action'', PStr ''disregard the''), (''executed'', PBool True), (''output'', PStr ''policy'')])) = V_ALLOW"
  by code_simp+

end
