(* ===== verification/Egress_Proxy.thy ===== *)
theory Egress_Proxy
  imports Dispatcher Honeytoken
begin

text \<open>
  The egress gateway, \<^verbatim>\<open>src/bulldog/egress_proxy.py\<close>, and its one-shot variant,
  \<^verbatim>\<open>src/bulldog/pinned_egress.py\<close>: which destinations a sandboxed workload can reach. A request is checked
  against the granted methods, schemes and hosts, its host is resolved, every address must be public,
  and the connection goes to the first of them, whatever the name resolves to later.

  The network and the interpreter's address parser are the arguments in \<open>egress_net\<close>: name resolution,
  \<open>ipaddress.ip_address\<close> with its classification flags, the exchange of one request on a pinned
  connection, reading its body, closing it, and \<open>str.upper\<close>. Each may raise and changes an arbitrary
  network state; nothing is assumed about them. The server thread and the socket file are not
  modelled; a connection is its peer credentials and the chunks it delivers.

  The theorems show that the network is used only for name lookups and for exchanges the
  configuration grants, and that the client decodes from the answer exactly what the gateway fetched. The audit callback
  records the events and does not raise.
\<close>

section \<open>The network\<close>

record ip_flags =
  ip_text :: string
  is_private :: bool
  is_loopback :: bool
  is_link_local :: bool
  is_multicast :: bool
  is_reserved :: bool
  is_unspecified :: bool

record ip_literal =
  ip_self :: ip_flags
  ip4_mapped :: "ip_flags option"

record outgoing =
  og_tls :: bool
  og_hostname :: string
  og_ip :: string
  og_port :: nat
  og_method :: string
  og_path :: string
  og_headers :: "string dict"

record 'n egress_net =
  net_addrinfo :: "string \<Rightarrow> nat \<Rightarrow> 'n \<Rightarrow> string list res \<times> 'n"
  net_parse :: "string \<Rightarrow> ip_literal res"
  net_exchange :: "outgoing \<Rightarrow> 'n \<Rightarrow> (int \<times> string dict) res \<times> 'n"
  net_read :: "int \<Rightarrow> 'n \<Rightarrow> string res \<times> 'n"
  net_close :: "'n \<Rightarrow> 'n"
  net_upper :: "string \<Rightarrow> string"

definition non_public :: "ip_flags \<Rightarrow> bool" where
  "non_public a \<longleftrightarrow> is_private a \<or> is_loopback a \<or> is_link_local a \<or> is_multicast a \<or> is_reserved a \<or> is_unspecified a"

text \<open>\<open>raw.split("%", 1)[0]\<close>: the zone of a scoped address is dropped.\<close>

definition drop_zone :: "string \<Rightarrow> string" where
  "drop_zone raw = takeWhile (\<lambda>c. c \<noteq> pct) raw"

definition effective :: "ip_literal \<Rightarrow> ip_flags" where
  "effective a = (case ip4_mapped a of Some m \<Rightarrow> m | None \<Rightarrow> ip_self a)"

section \<open>The gateway\<close>

record egress_broker =
  eb_trace :: trace_verifier
  eb_allowed_hosts :: "string set"
  eb_allowed_methods :: "string set"
  eb_require_https :: bool
  eb_max_response :: int
  eb_require_peer :: bool
  eb_allowed_uids :: "int set"
  eb_events :: "jobj list"

definition normal_host :: "pylib \<Rightarrow> string \<Rightarrow> string" where
  "normal_host L h = rstrip_char (CHR ''.'') (py_lower L h)"

definition new_egress_broker ::
  "pylib \<Rightarrow> (string \<Rightarrow> string) \<Rightarrow> string list \<Rightarrow> string list \<Rightarrow> bool \<Rightarrow> int \<Rightarrow> trace_verifier option \<Rightarrow> int set option
     \<Rightarrow> bool \<Rightarrow> int \<Rightarrow> egress_broker res" where
  "new_egress_broker L up hosts methods https max_bytes tv uids require_peer own_uid =
     (let v = (case tv of Some v \<Rightarrow> v | None \<Rightarrow> new_verifier); allowed = set (map (normal_host L) hosts);
          (granted, v1) = (if allowed \<noteq> {} then emit (event_of ''GrantBroker'' []) v else (Inr (tv_state v), v));
          peers = (case uids of Some us \<Rightarrow> us | None \<Rightarrow> if require_peer then {own_uid} else {}) in
      case granted of
        Inl e \<Rightarrow> Inl e
      | Inr _ \<Rightarrow>
          if require_peer \<and> peers = {} then raise EgressError ''peer credential enforcement requires a UID allowlist''
          else Inr \<lparr>eb_trace = v1, eb_allowed_hosts = allowed, eb_allowed_methods = set (map up methods),
                 eb_require_https = https, eb_max_response = max_bytes, eb_require_peer = require_peer,
                 eb_allowed_uids = peers, eb_events = []\<rparr>)"

definition egress_authorize_peer :: "egress_broker \<Rightarrow> int \<times> int \<times> int \<Rightarrow> (int \<times> int \<times> int) option res" where
  "egress_authorize_peer b peer =
     (if \<not> eb_require_peer b then Inr None
      else if fst (snd peer) \<notin> eb_allowed_uids b then raise EgressDenied ''egress broker peer UID is not authorized''
      else Inr (Some peer))"

section \<open>Name resolution\<close>

fun public_addresses :: "(string \<Rightarrow> ip_literal res) \<Rightarrow> string list \<Rightarrow> string list res" where
  "public_addresses parse [] = Inr []"
| "public_addresses parse (raw # raws) =
     (case parse (drop_zone raw) of
        Inl e \<Rightarrow> Inl e
      | Inr a \<Rightarrow>
          if non_public (effective a)
          then raise EgressDenied (''destination resolved to non-public address: '' @ ip_text (effective a))
          else (case public_addresses parse raws of Inl e \<Rightarrow> Inl e | Inr rest \<Rightarrow> Inr (ip_text (effective a) # rest)))"

definition resolve_public_addresses ::
  "'n egress_net \<Rightarrow> string \<Rightarrow> nat \<Rightarrow> 'n \<Rightarrow> string list res \<times> 'n" where
  "resolve_public_addresses net hostname port n =
     (case net_addrinfo net hostname port n of
        (Inl e, n1) \<Rightarrow> (Inl e, n1)
      | (Inr infos, n1) \<Rightarrow>
          (if infos = [] then raise EgressDenied ''hostname did not resolve''
           else case public_addresses (net_parse net) infos of
             Inl e \<Rightarrow> Inl e
           | Inr addresses \<Rightarrow>
               if addresses = [] then raise EgressDenied ''hostname did not resolve to a public address''
               else Inr (sort (remdups addresses)), n1))"

section \<open>A fetch\<close>

definition fetch_path :: "url_parts \<Rightarrow> string" where
  "fetch_path u = (if url_path u = [] then ''/'' else url_path u) @ (if url_query u = [] then [] else ''?'' @ url_query u)"

definition request_trace :: "egress_broker \<Rightarrow> bull_trace_state res \<times> trace_verifier" where
  "request_trace b =
     (if eb_allowed_hosts b \<noteq> {} then emit (event_of ''GrantBroker'' []) new_verifier else (Inr (tv_state new_verifier), new_verifier))"

text \<open>The checks before a connection is made, in the order of the code.\<close>

definition check_url :: "pylib \<Rightarrow> egress_broker \<Rightarrow> string \<Rightarrow> string \<Rightarrow> (url_parts \<times> string \<times> nat) res" where
  "check_url L b m url =
     (if m \<notin> eb_allowed_methods b then raise EgressDenied ''HTTP method is not granted''
      else case urlsplit L url of
        Inl e \<Rightarrow> Inl e
      | Inr u \<Rightarrow>
          if url_scheme u \<notin> {''http'', ''https''} then raise EgressDenied ''unsupported URL scheme''
          else if eb_require_https b \<and> url_scheme u \<noteq> ''https'' then raise EgressDenied ''HTTPS is required''
          else if opt_truthy (url_username u) \<or> opt_truthy (url_password u) then raise EgressDenied ''URL credentials are forbidden''
          else let hostname = normal_host L (head_text (url_hostname L u)) in
            if hostname \<notin> eb_allowed_hosts b then raise EgressDenied ''destination host is not granted''
            else case url_port u of
              Inl e \<Rightarrow> Inl e
            | Inr p \<Rightarrow> Inr (u, hostname, case p of Some k \<Rightarrow> if k = 0 then (if url_scheme u = ''https'' then 443 else 80) else k
                                        | None \<Rightarrow> if url_scheme u = ''https'' then 443 else 80))"

definition gateway_headers :: "string \<Rightarrow> string dict" where
  "gateway_headers hostname =
     [(''Host'', hostname), (''User-Agent'', ''BULL-EgressBroker/3''), (''Accept'', ''*/*''), (''Connection'', ''close'')]"

text \<open>The \<open>try\<close> block: one exchange on the pinned connection; what it raises becomes a gateway error.\<close>

definition as_egress_error :: "'a res \<Rightarrow> 'a res" where
  "as_egress_error r =
     (case r of Inr x \<Rightarrow> Inr x | Inl (c, msg) \<Rightarrow> if c = EgressDenied then Inl (c, msg) else raise EgressError msg)"

definition exchange :: "'n egress_net \<Rightarrow> egress_broker \<Rightarrow> trace_verifier \<Rightarrow> outgoing \<Rightarrow> 'n \<Rightarrow> egress_response res \<times> 'n" where
  "exchange net b v og n =
     (case net_exchange net og n of
        (Inl e, n1) \<Rightarrow> (as_egress_error (Inl e), net_close net n1)
      | (Inr (status, headers), n1) \<Rightarrow>
          if 300 \<le> status \<and> status < 400
          then (raise EgressDenied ''redirects are disabled and require reauthorization'', net_close net n1)
          else case net_read net (eb_max_response b + 1) n1 of
            (Inl e, n2) \<Rightarrow> (as_egress_error (Inl e), net_close net n2)
          | (Inr body, n2) \<Rightarrow>
              if int (length body) > eb_max_response b
              then (raise EgressDenied ''response exceeded size limit'', net_close net n2)
              else (as_egress_error (case fst (emit (event_of ''BrokerEgress'' []) v) of
                      Inl e \<Rightarrow> Inl e
                    | Inr _ \<Rightarrow> Inr \<lparr>eg_status = status, eg_headers = headers, eg_body = body\<rparr>), net_close net n2))"

definition egress_fetch ::
  "pylib \<Rightarrow> 'n egress_net \<Rightarrow> egress_broker \<Rightarrow> string \<Rightarrow> string \<Rightarrow> 'n \<Rightarrow> egress_response res \<times> 'n" where
  "egress_fetch L net b meth url n =
     (let m = net_upper net meth in
      case request_trace b of
        (Inl e, v) \<Rightarrow> (Inl e, n)
      | (Inr _, v) \<Rightarrow>
          case check_url L b m url of
            Inl e \<Rightarrow> (Inl e, n)
          | Inr (u, hostname, port) \<Rightarrow>
              case resolve_public_addresses net hostname port n of
                (Inl e, n1) \<Rightarrow> (Inl e, n1)
              | (Inr addresses, n1) \<Rightarrow>
                  exchange net b v \<lparr>og_tls = (url_scheme u = ''https''), og_hostname = hostname, og_ip = hd addresses, og_port = port,
                    og_method = m, og_path = fetch_path u, og_headers = gateway_headers hostname\<rparr> n1)"

section \<open>Requests over the socket\<close>

text \<open>\<open>_read_line\<close>; the argument \<open>loads\<close> below decodes and parses the line.\<close>

fun egress_chunks :: "int \<Rightarrow> string \<Rightarrow> string list \<Rightarrow> string" where
  "egress_chunks limit acc [] = acc"
| "egress_chunks limit acc (c # cs) =
     (if int (length acc) \<ge> limit \<or> c = [] then acc
      else if char_of (10 :: nat) \<in> set c then acc @ c
      else egress_chunks limit (acc @ c) cs)"

definition egress_read_line :: "string list \<Rightarrow> string res" where
  "egress_read_line cs =
     (let d = egress_chunks 32768 [] cs in
      if int (length d) \<ge> 32768 then raise EgressError ''broker request too large''
      else Inr (takeWhile (\<lambda>c. c \<noteq> char_of (10 :: nat)) d))"

definition egress_event :: "jobj \<Rightarrow> egress_broker \<Rightarrow> egress_broker" where
  "egress_event ev b = b\<lparr>eb_events := eb_events b @ [ev]\<rparr>"

definition egress_request :: "pylib \<Rightarrow> (string \<Rightarrow> string) \<Rightarrow> (string \<Rightarrow> json res) \<Rightarrow> string list \<Rightarrow> (string \<times> string) res" where
  "egress_request L up loads cs =
     (case egress_read_line cs of
        Inl e \<Rightarrow> Inl e
      | Inr line \<Rightarrow>
          (case loads line of
             Inl e \<Rightarrow> Inl e
           | Inr (JObj d) \<Rightarrow>
               Inr (up (case dict_get d ''method'' of None \<Rightarrow> ''GET'' | Some v \<Rightarrow> str_of_json L v),
                    case dict_get d ''url'' of None \<Rightarrow> [] | Some v \<Rightarrow> str_of_json L v)
           | Inr _ \<Rightarrow> raise AttributeError ''object has no attribute get''))"

definition egress_refusal :: "exn \<Rightarrow> egress_broker \<Rightarrow> jobj \<times> egress_broker" where
  "egress_refusal e b =
     ([(''ok'', JBool False), (''error'', JStr (snd e))],
      egress_event [(''event'', JStr ''egress''), (''allowed'', JBool False), (''error'', JStr (snd e))] b)"

definition response_payload :: "egress_response \<Rightarrow> jobj" where
  "response_payload r =
     [(''ok'', JBool True), (''status'', JInt (eg_status r)), (''headers'', JObj (map (\<lambda>(k, v). (k, JStr v)) (eg_headers r))),
      (''body_hex'', JStr (hex_bytes (eg_body r)))]"

definition egress_handle ::
  "pylib \<Rightarrow> 'n egress_net \<Rightarrow> (string \<Rightarrow> json res) \<Rightarrow> int \<times> int \<times> int \<Rightarrow> string list \<Rightarrow> egress_broker \<times> 'n
     \<Rightarrow> jobj \<times> egress_broker \<times> 'n" where
  "egress_handle L net loads peer cs bn =
     (case bn of (b, n) \<Rightarrow>
      case egress_authorize_peer b peer of
        Inl e \<Rightarrow> (let (r, b') = egress_refusal e b in (r, b', n))
      | Inr who \<Rightarrow>
          case egress_request L (net_upper net) loads cs of
            Inl e \<Rightarrow> (let (r, b') = egress_refusal e b in (r, b', n))
          | Inr (m, url) \<Rightarrow>
              case egress_fetch L net b m url n of
                (Inl e, n1) \<Rightarrow> (let (r, b') = egress_refusal e b in (r, b', n1))
              | (Inr response, n1) \<Rightarrow>
                  (response_payload response,
                   egress_event ([(''event'', JStr ''egress''), (''allowed'', JBool True), (''method'', JStr m), (''url'', JStr url),
                       (''status'', JInt (eg_status response))]
                     @ (case who of None \<Rightarrow> []
                        | Some (pid, uid, gid) \<Rightarrow> [(''peer_pid'', JInt pid), (''peer_uid'', JInt uid), (''peer_gid'', JInt gid)])) b, n1))"

text \<open>The client, \<open>broker_fetch\<close>, on the gateway's response.\<close>

definition broker_fetch_request :: "string \<Rightarrow> string \<Rightarrow> jobj" where
  "broker_fetch_request meth url = [(''method'', JStr meth), (''url'', JStr url)]"

definition broker_fetch_response :: "pylib \<Rightarrow> jobj \<Rightarrow> egress_response res" where
  "broker_fetch_response L response =
     (if \<not> json_truthy (jget response ''ok'')
      then raise EgressDenied (case dict_get response ''error'' of None \<Rightarrow> ''egress request denied'' | Some v \<Rightarrow> str_of_json L v)
      else case jindex (JObj response) ''status'' of
        Inl e \<Rightarrow> Inl e
      | Inr st \<Rightarrow> case int_of_json st of
          Inl e \<Rightarrow> Inl e
        | Inr status \<Rightarrow> case (case dict_get response ''headers'' of None \<Rightarrow> Inr [] | Some (JObj d) \<Rightarrow> Inr d
                               | Some _ \<Rightarrow> raise AttributeError ''object has no attribute items'') of
            Inl e \<Rightarrow> Inl e
          | Inr headers \<Rightarrow> case jindex (JObj response) ''body_hex'' of
              Inl e \<Rightarrow> Inl e
            | Inr (JStr hex) \<Rightarrow> map_sum id (\<lambda>body. \<lparr>eg_status = status, eg_headers = map (\<lambda>(k, v). (k, str_of_json L v)) headers,
                                     eg_body = body\<rparr>) (fromhex hex)
            | Inr _ \<Rightarrow> raise TypeError ''fromhex() argument must be str'')"

section \<open>The one-shot fetch\<close>

fun public_only :: "(string \<Rightarrow> ip_literal res) \<Rightarrow> string list \<Rightarrow> string list res" where
  "public_only parse [] = Inr []"
| "public_only parse (raw # raws) =
     (case parse (drop_zone raw) of
        Inl e \<Rightarrow> Inl e
      | Inr a \<Rightarrow>
          (case public_only parse raws of
             Inl e \<Rightarrow> Inl e
           | Inr rest \<Rightarrow> Inr (if non_public (ip_self a) then rest else ip_text (ip_self a) # rest)))"

definition resolve_public_once :: "'n egress_net \<Rightarrow> string \<Rightarrow> nat \<Rightarrow> 'n \<Rightarrow> string res \<times> 'n" where
  "resolve_public_once net hostname port n =
     (case net_addrinfo net hostname port n of
        (Inl e, n1) \<Rightarrow> (Inl e, n1)
      | (Inr infos, n1) \<Rightarrow>
          (case public_only (net_parse net) infos of
             Inl e \<Rightarrow> Inl e
           | Inr ps \<Rightarrow> (case sort (remdups ps) of [] \<Rightarrow> raise EgressDenied ''no permitted public destination'' | ip # _ \<Rightarrow> Inr ip), n1))"

definition pinned_exchange :: "'n egress_net \<Rightarrow> int \<Rightarrow> outgoing \<Rightarrow> 'n \<Rightarrow> egress_response res \<times> 'n" where
  "pinned_exchange net max_bytes og n =
     (case net_exchange net og n of
        (Inl e, n1) \<Rightarrow> (Inl e, net_close net n1)
      | (Inr (status, headers), n1) \<Rightarrow>
          if 300 \<le> status \<and> status < 400 then (raise EgressDenied ''redirect denied'', net_close net n1)
          else case net_read net (max_bytes + 1) n1 of
            (Inl e, n2) \<Rightarrow> (Inl e, net_close net n2)
          | (Inr body, n2) \<Rightarrow>
              if int (length body) > max_bytes then (raise EgressDenied ''response too large'', net_close net n2)
              else (Inr \<lparr>eg_status = status, eg_headers = headers, eg_body = body\<rparr>, net_close net n2))"

definition pinned_https_fetch ::
  "pylib \<Rightarrow> 'n egress_net \<Rightarrow> string list \<Rightarrow> string \<Rightarrow> string \<Rightarrow> int \<Rightarrow> 'n \<Rightarrow> egress_response res \<times> 'n" where
  "pinned_https_fetch L net hosts meth url max_bytes n =
     (case urlsplit L url of
        Inl e \<Rightarrow> (Inl e, n)
      | Inr u \<Rightarrow>
          if url_scheme u \<noteq> ''https'' then (raise EgressDenied ''HTTPS required'', n)
          else if opt_truthy (url_username u) \<or> opt_truthy (url_password u) then (raise EgressDenied ''URL credentials forbidden'', n)
          else let hostname = normal_host L (head_text (url_hostname L u)); m = net_upper net meth in
            if hostname \<notin> set (map (normal_host L) hosts) then (raise EgressDenied ''hostname not granted'', n)
            else if m \<notin> {''GET'', ''HEAD''} then (raise EgressDenied ''method not granted'', n)
            else case url_port u of
              Inl e \<Rightarrow> (Inl e, n)
            | Inr p \<Rightarrow>
                let port = (case p of Some k \<Rightarrow> if k = 0 then 443 else k | None \<Rightarrow> 443) in
                case resolve_public_once net hostname port n of
                  (Inl e, n1) \<Rightarrow> (Inl e, n1)
                | (Inr ip, n1) \<Rightarrow>
                    pinned_exchange net max_bytes \<lparr>og_tls = True, og_hostname = hostname, og_ip = ip, og_port = port, og_method = m,
                      og_path = fetch_path u, og_headers = [(''Host'', hostname), (''User-Agent'', ''BULL-PinnedEgress/1'')]\<rparr> n1)"

section \<open>Confinement\<close>

text \<open>Where an address comes from: the pinned address is one that the host resolved to, all of them public.\<close>

definition publicly_resolved :: "'n egress_net \<Rightarrow> string \<Rightarrow> nat \<Rightarrow> string \<Rightarrow> bool" where
  "publicly_resolved net hostname port ip \<longleftrightarrow>
     (\<exists>n infos. fst (net_addrinfo net hostname port n) = Inr infos
        \<and> (\<forall>raw \<in> set infos. \<exists>a. net_parse net (drop_zone raw) = Inr a \<and> \<not> non_public (effective a))
        \<and> (\<exists>raw \<in> set infos. \<exists>a. net_parse net (drop_zone raw) = Inr a \<and> ip = ip_text (effective a)))"

definition exchange_granted :: "'n egress_net \<Rightarrow> egress_broker \<Rightarrow> outgoing \<Rightarrow> bool" where
  "exchange_granted net b og \<longleftrightarrow>
     (eb_require_https b \<longrightarrow> og_tls og) \<and> og_hostname og \<in> eb_allowed_hosts b \<and> og_method og \<in> eb_allowed_methods b
     \<and> dict_get (og_headers og) ''Host'' = Some (og_hostname og)
     \<and> publicly_resolved net (og_hostname og) (og_port og) (og_ip og)"

text \<open>One use of the network: a lookup of a granted host, a granted exchange, a read or a close.\<close>

definition net_use :: "'n egress_net \<Rightarrow> egress_broker \<Rightarrow> 'n \<Rightarrow> 'n \<Rightarrow> bool" where
  "net_use net b n n' \<longleftrightarrow>
     (\<exists>hostname port. hostname \<in> eb_allowed_hosts b \<and> n' = snd (net_addrinfo net hostname port n))
     \<or> (\<exists>og. exchange_granted net b og \<and> n' = snd (net_exchange net og n))
     \<or> (\<exists>k. n' = snd (net_read net k n)) \<or> n' = net_close net n"

lemma public_addresses_Inr:
  "public_addresses parse raws = Inr as \<Longrightarrow>
     (\<forall>raw \<in> set raws. \<exists>a. parse (drop_zone raw) = Inr a \<and> \<not> non_public (effective a))
     \<and> (\<forall>ip \<in> set as. \<exists>raw \<in> set raws. \<exists>a. parse (drop_zone raw) = Inr a \<and> ip = ip_text (effective a))"
  by (induction raws arbitrary: as) (fastforce split: sum.splits if_splits)+

lemma hd_sort_in: "xs \<noteq> [] \<Longrightarrow> hd (sort (remdups xs)) \<in> set xs"
proof -
  assume "xs \<noteq> []"
  then have "sort (remdups xs) \<noteq> []" by (metis set_empty set_remdups set_sort)
  then have "hd (sort (remdups xs)) \<in> set (sort (remdups xs))" by (rule hd_in_set)
  then show ?thesis by simp
qed

lemma resolve_use:
  assumes "hostname \<in> eb_allowed_hosts b" and "resolve_public_addresses net hostname port n = (r, n1)"
  shows "net_use net b n n1 \<and> (\<forall>as. r = Inr as \<longrightarrow> publicly_resolved net hostname port (hd as))"
proof -
  obtain q n0 where q: "net_addrinfo net hostname port n = (q, n0)" by fastforce
  with assms(2) have n1: "n1 = n0" by (auto simp: resolve_public_addresses_def split: sum.splits)
  with assms(1) q have "net_use net b n n1" unfolding net_use_def by (metis snd_conv)
  moreover have "publicly_resolved net hostname port (hd as)" if "r = Inr as" for as
  proof -
    from assms(2) q that obtain infos ps where i: "q = Inr infos" "public_addresses (net_parse net) infos = Inr ps"
      "ps \<noteq> []" "as = sort (remdups ps)"
      by (auto simp: resolve_public_addresses_def split: sum.splits if_splits)
    with public_addresses_Inr [OF i(2)] hd_sort_in [OF i(3)] q show ?thesis
      unfolding publicly_resolved_def by (metis fst_conv)
  qed
  ultimately show ?thesis by blast
qed

lemma exchange_use:
  assumes "exchange_granted net b og"
  shows "(net_use net b)\<^sup>*\<^sup>* n (snd (exchange net b v og n))"
proof -
  obtain r n1 where r: "net_exchange net og n = (r, n1)" by fastforce
  with assms have s1: "net_use net b n n1" unfolding net_use_def by (metis snd_conv)
  have c: "net_use net b m (net_close net m)" for m by (simp add: net_use_def)
  show ?thesis
  proof (cases "\<exists>st hs. r = Inr (st, hs) \<and> \<not> (300 \<le> st \<and> st < 400)")
    case True
    obtain q n2 where q: "net_read net (eb_max_response b + 1) n1 = (q, n2)" by fastforce
    then have s2: "net_use net b n1 n2" unfolding net_use_def by (metis snd_conv)
    have "snd (exchange net b v og n) = net_close net n2" using True r q
      by (auto simp: exchange_def split: sum.splits)
    with s1 s2 c [of n2] show ?thesis by (metis converse_rtranclp_into_rtranclp rtranclp.rtrancl_refl)
  next
    case False
    then have "snd (exchange net b v og n) = net_close net n1" using r by (auto simp: exchange_def split: sum.splits)
    with s1 c [of n1] show ?thesis by (metis converse_rtranclp_into_rtranclp rtranclp.rtrancl_refl)
  qed
qed

lemma check_url_Inr:
  assumes "check_url L b m url = Inr (u, hostname, port)"
  shows "m \<in> eb_allowed_methods b \<and> hostname \<in> eb_allowed_hosts b \<and> (eb_require_https b \<longrightarrow> url_scheme u = ''https'')"
  using assms by (auto simp: check_url_def Let_def split: if_splits sum.splits)

lemma fetch_use: "(net_use net b)\<^sup>*\<^sup>* n (snd (egress_fetch L net b meth url n))"
proof (cases "\<exists>x v u hostname port. request_trace b = (Inr x, v) \<and> check_url L b (net_upper net meth) url = Inr (u, hostname, port)")
  case False
  then have "snd (egress_fetch L net b meth url n) = n"
    by (auto simp: egress_fetch_def Let_def split: sum.splits prod.splits)
  then show ?thesis by simp
next
  case True
  then obtain x v u hostname port where t: "request_trace b = (Inr x, v)"
    and c: "check_url L b (net_upper net meth) url = Inr (u, hostname, port)" by blast
  note C = check_url_Inr [OF c]
  obtain r n1 where r: "resolve_public_addresses net hostname port n = (r, n1)" by fastforce
  from resolve_use [OF _ r] C have R: "net_use net b n n1" "\<forall>as. r = Inr as \<longrightarrow> publicly_resolved net hostname port (hd as)" by blast+
  show ?thesis
  proof (cases r)
    case (Inl e)
    then show ?thesis using t c r R(1) by (simp add: egress_fetch_def r_into_rtranclp)
  next
    case (Inr as)
    let ?og = "\<lparr>og_tls = (url_scheme u = ''https''), og_hostname = hostname, og_ip = hd as, og_port = port,
                    og_method = net_upper net meth, og_path = fetch_path u, og_headers = gateway_headers hostname\<rparr>"
    have "exchange_granted net b ?og" using C R(2) Inr by (simp add: exchange_granted_def gateway_headers_def)
    from exchange_use [OF this, of n1 v] R(1) t c r Inr show ?thesis
      by (simp add: egress_fetch_def converse_rtranclp_into_rtranclp)
  qed
qed

lemma net_use_events: "net_use net (b\<lparr>eb_events := evs\<rparr>) = net_use net b"
  by (simp add: net_use_def exchange_granted_def fun_eq_iff)

definition egress_step ::
  "pylib \<Rightarrow> 'n egress_net \<Rightarrow> (string \<Rightarrow> json res) \<Rightarrow> (int \<times> int \<times> int) \<times> string list \<Rightarrow> egress_broker \<times> 'n \<Rightarrow> jobj \<times> egress_broker \<times> 'n" where
  "egress_step L net loads conn = egress_handle L net loads (fst conn) (snd conn)"

lemma egress_handle_effect:
  assumes "egress_handle L net loads peer cs (b, n) = (r, b', n')"
  shows "\<exists>evs. b' = b\<lparr>eb_events := evs\<rparr> \<and> (net_use net b)\<^sup>*\<^sup>* n n'
    \<and> (eb_require_peer b \<and> fst (snd peer) \<notin> eb_allowed_uids b \<longrightarrow> n' = n)"
proof (cases "\<exists>who m url. egress_authorize_peer b peer = Inr who \<and> egress_request L (net_upper net) loads cs = Inr (m, url)")
  case False
  with assms show ?thesis
    by (fastforce simp: egress_handle_def egress_refusal_def egress_event_def split: sum.splits prod.splits)
next
  case True
  then obtain who m url where w: "egress_authorize_peer b peer = Inr who" and q: "egress_request L (net_upper net) loads cs = Inr (m, url)"
    by blast
  obtain x n1 where f: "egress_fetch L net b m url n = (x, n1)" by fastforce
  with fetch_use [of net b n L m url] have u: "(net_use net b)\<^sup>*\<^sup>* n n1" by simp
  have "\<not> (eb_require_peer b \<and> fst (snd peer) \<notin> eb_allowed_uids b)" using w by (auto simp: egress_authorize_peer_def split: if_splits)
  moreover have "\<exists>evs. b' = b\<lparr>eb_events := evs\<rparr> \<and> n' = n1"
    using assms w q f by (cases x) (auto simp: egress_handle_def egress_refusal_def egress_event_def)
  ultimately show ?thesis using u by blast
qed

lemma egress_run_effect:
  assumes "run_ops (egress_step L net loads) conns (b, n) = (rs, b', n')"
  shows "\<exists>evs. b' = b\<lparr>eb_events := evs\<rparr> \<and> (net_use net b)\<^sup>*\<^sup>* n n'
    \<and> (eb_require_peer b \<and> list_all (\<lambda>c. fst (snd (fst c)) \<notin> eb_allowed_uids b) conns \<longrightarrow> n' = n)"
  using assms
proof (induction conns arbitrary: b n rs)
  case Nil
  then have "b' = b\<lparr>eb_events := eb_events b\<rparr>" "n' = n" by simp_all
  then show ?case by blast
next
  case (Cons c conns)
  obtain r b1 n1 where h: "egress_handle L net loads (fst c) (snd c) (b, n) = (r, b1, n1)" by (metis prod.collapse)
  from egress_handle_effect [OF h] obtain evs where
    e: "b1 = b\<lparr>eb_events := evs\<rparr>" "(net_use net b)\<^sup>*\<^sup>* n n1" "eb_require_peer b \<and> fst (snd (fst c)) \<notin> eb_allowed_uids b \<longrightarrow> n1 = n"
    by blast
  have st: "egress_step L net loads c (b, n) = (r, b1, n1)" by (simp add: egress_step_def h)
  obtain rs' where "run_ops (egress_step L net loads) conns (b1, n1) = (rs', b', n')"
    using Cons.prems st by (auto simp: run_ops.simps(2) Let_def split: prod.splits)
  from Cons.IH [OF this] e show ?case by (auto simp: net_use_events intro: rtranclp_trans)
qed


section \<open>What the client receives\<close>

lemma nibble_table:
  "list_all (\<lambda>n :: int. hexval (hex_nibble False n) = Some (nat n)
     \<and> hex_nibble False n \<notin> set [CHR '' '', char_of (9::nat), char_of (10::nat), char_of (11::nat), char_of (12::nat), char_of (13::nat)])
   [0, 1, 2, 3, 4, 5, 6, 7, 8, 9, 10, 11, 12, 13, 14, 15]"
  by code_simp

lemma hexval_nibble:
  assumes "0 \<le> n" and "n < 16"
  shows "hexval (hex_nibble False n) = Some (nat n)"
    and "hex_nibble False n \<notin> set [CHR '' '', char_of (9::nat), char_of (10::nat), char_of (11::nat), char_of (12::nat), char_of (13::nat)]"
proof -
  have "n \<in> set [0, 1, 2, 3, 4, 5, 6, 7, 8, 9, 10, 11, 12, 13, 14, 15]" using assms by simp presburger
  with nibble_table show "hexval (hex_nibble False n) = Some (nat n)"
    and "hex_nibble False n \<notin> set [CHR '' '', char_of (9::nat), char_of (10::nat), char_of (11::nat), char_of (12::nat), char_of (13::nat)]"
    unfolding list_all_iff by blast+
qed

lemma fromhex_hex_bytes: "fromhex (hex_bytes s) = Inr s"
proof (induction s)
  case (Cons c s)
  have b: "0 \<le> cp c" "cp c < 256" by (simp_all add: cp_code)
  then have d: "0 \<le> cp c div 16" "cp c div 16 < 16" "0 \<le> cp c mod 16" "cp c mod 16 < 16" by auto
  have "16 * nat (cp c div 16) + nat (cp c mod 16) = code c"
    using b by (simp add: cp_code nat_div_distrib nat_mod_distrib)
  with Cons.IH hexval_nibble [OF d(1,2)] hexval_nibble [OF d(3,4)] show ?case
    by (simp add: hex_bytes_def hex_byte_def)
qed (simp add: hex_bytes_def)

lemma client_reads_response: "broker_fetch_response L (response_payload r) = Inr r"
proof -
  have "map (\<lambda>(k, v). (k, str_of_json L v)) (map (\<lambda>(k, v). (k, JStr v)) d) = d" for d :: "string dict"
    by (induction d) auto
  then show ?thesis
    by (cases r) (simp add: broker_fetch_response_def response_payload_def jget_def json_truthy_def jindex_def fromhex_hex_bytes del: map_map)
qed

lemma client_reads_refusal: "broker_fetch_response L (fst (egress_refusal e b)) = raise EgressDenied (snd e)"
  by (simp add: broker_fetch_response_def egress_refusal_def jget_def json_truthy_def)

lemma exchange_Inr:
  assumes "fst (exchange net b v og n) = Inr r"
  shows "\<not> (300 \<le> eg_status r \<and> eg_status r < 400) \<and> int (length (eg_body r)) \<le> eb_max_response b"
  using assms by (auto simp: exchange_def as_egress_error_def split: sum.splits prod.splits if_splits)

lemma fetch_Inr:
  assumes "fst (egress_fetch L net b m url n) = Inr r"
  shows "\<not> (300 \<le> eg_status r \<and> eg_status r < 400) \<and> int (length (eg_body r)) \<le> eb_max_response b"
  using assms by (auto simp: egress_fetch_def Let_def dest: exchange_Inr split: sum.splits prod.splits)

text \<open>The limit of \<open>_read_line\<close> is for both directions: a line of 32768 bytes or more is refused, whatever the chunks. Since a body
  travels as hexadecimal digits, the client cannot receive one of 16384 bytes or more.\<close>

lemma egress_chunks_long:
  assumes "list_all (\<lambda>c. c \<noteq> [] \<and> char_of (10 :: nat) \<notin> set c) cs" and "limit \<le> int (length acc) + int (length (concat cs))"
  shows "limit \<le> int (length (egress_chunks limit acc (cs @ rest)))"
  using assms
proof (induction cs arbitrary: acc)
  case Nil
  have "length acc \<le> length (egress_chunks limit acc rest)"
    by (induction limit acc rest rule: egress_chunks.induct) auto
  with Nil show ?case by simp
next
  case (Cons c cs)
  then show ?case by (auto simp: algebra_simps)
qed

lemma long_answer_refused:
  assumes "list_all (\<lambda>c. c \<noteq> [] \<and> char_of (10 :: nat) \<notin> set c) cs" and "32768 \<le> length (concat cs)"
  shows "egress_read_line (cs @ rest) = raise EgressError ''broker request too large''"
  using egress_chunks_long [OF assms(1), of 32768 "[]" rest] assms(2) by (simp add: egress_read_line_def)

lemma answer_carries_body: "dict_get (response_payload r) ''body_hex'' = Some (JStr (hex_bytes (eg_body r)))"
  "length (hex_bytes s) = 2 * length s"
  by (simp add: response_payload_def) (induction s; simp add: hex_bytes_def hex_byte_def)

text \<open>
  The answer carries exactly what the gateway fetched. Decoding the gateway's answer as the client does gives a
  response if and only if the peer was authorised, the request could be read and the fetch returned that
  very response, status, headers and body; it is then no redirect and within the size limit. In every
  other case the client raises \<open>EgressDenied\<close>.
\<close>

theorem gateway_answer_exact:
  "(case broker_fetch_response L (fst (egress_handle L net loads peer cs (b, n))) of
      Inr r \<Rightarrow> (\<exists>who m url. egress_authorize_peer b peer = Inr who \<and> egress_request L (net_upper net) loads cs = Inr (m, url)
                  \<and> fst (egress_fetch L net b m url n) = Inr r)
               \<and> \<not> (300 \<le> eg_status r \<and> eg_status r < 400) \<and> int (length (eg_body r)) \<le> eb_max_response b
    | Inl e \<Rightarrow> fst e = EgressDenied
               \<and> (\<nexists>who m url r. egress_authorize_peer b peer = Inr who \<and> egress_request L (net_upper net) loads cs = Inr (m, url)
                    \<and> fst (egress_fetch L net b m url n) = Inr r))"
proof -
  have ref: "broker_fetch_response L (fst (case egress_refusal e b of (r, b') \<Rightarrow> (r, b', n'))) = raise EgressDenied (snd e)" for e and n' :: 'a
    using client_reads_refusal [of L e b] by (simp add: case_prod_beta)
  show ?thesis
  proof (cases "egress_authorize_peer b peer")
    case (Inl e)
    then show ?thesis using ref by (simp add: egress_handle_def Let_def)
  next
    case (Inr who)
    show ?thesis
    proof (cases "egress_request L (net_upper net) loads cs")
      case Inl': (Inl e)
      with Inr show ?thesis using ref by (simp add: egress_handle_def Let_def)
    next
      case Inr': (Inr q)
      obtain m url where q: "q = (m, url)" by fastforce
      obtain x n1 where x: "egress_fetch L net b m url n = (x, n1)" by fastforce
      show ?thesis
      proof (cases x)
        case xl: (Inl e)
        with Inr Inr' q x show ?thesis using ref by (simp add: egress_handle_def Let_def)
      next
        case xr: (Inr r)
        with fetch_Inr [of L net b m url n r] x Inr Inr' q client_reads_response [of L r] show ?thesis
          by (simp add: egress_handle_def)
      qed
    qed
  qed
qed

section \<open>The one-shot fetch is confined too\<close>

definition pinned_use :: "pylib \<Rightarrow> 'n egress_net \<Rightarrow> string list \<Rightarrow> 'n \<Rightarrow> 'n \<Rightarrow> bool" where
  "pinned_use L net hosts n n' \<longleftrightarrow>
     (\<exists>h port. h \<in> normal_host L ` set hosts \<and> n' = snd (net_addrinfo net h port n))
     \<or> (\<exists>og raw a. og_tls og \<and> og_hostname og \<in> normal_host L ` set hosts \<and> og_method og \<in> {''GET'', ''HEAD''}
          \<and> net_parse net (drop_zone raw) = Inr a \<and> \<not> non_public (ip_self a) \<and> og_ip og = ip_text (ip_self a)
          \<and> n' = snd (net_exchange net og n))
     \<or> (\<exists>k. n' = snd (net_read net k n)) \<or> n' = net_close net n"

lemma public_only_Inr:
  "public_only parse raws = Inr ps \<Longrightarrow> ip \<in> set ps \<Longrightarrow>
     \<exists>raw a. parse (drop_zone raw) = Inr a \<and> \<not> non_public (ip_self a) \<and> ip = ip_text (ip_self a)"
  by (induction raws arbitrary: ps) (auto split: sum.splits if_splits, blast)

lemma pinned_exchange_use:
  assumes "og_tls og" "og_hostname og \<in> normal_host L ` set hosts" "og_method og \<in> {''GET'', ''HEAD''}"
    "net_parse net (drop_zone raw) = Inr a" "\<not> non_public (ip_self a)" "og_ip og = ip_text (ip_self a)"
  shows "(pinned_use L net hosts)\<^sup>*\<^sup>* n (snd (pinned_exchange net max_bytes og n))"
proof -
  obtain q n1 where q: "net_exchange net og n = (q, n1)" by fastforce
  have s1: "pinned_use L net hosts n n1" using assms q unfolding pinned_use_def by (metis snd_conv)
  have c: "pinned_use L net hosts m (net_close net m)" for m by (simp add: pinned_use_def)
  have rd: "pinned_use L net hosts m (snd (net_read net k m))" for k m unfolding pinned_use_def by blast
  have "snd (pinned_exchange net max_bytes og n) \<in> {net_close net n1, net_close net (snd (net_read net (max_bytes + 1) n1))}"
    using q by (auto simp: pinned_exchange_def split: sum.splits prod.splits)
  then show ?thesis using s1 c rd by (metis (no_types, opaque_lifting) converse_rtranclp_into_rtranclp empty_iff insert_iff rtranclp.rtrancl_refl)
qed

lemma resolve_once_public:
  assumes "resolve_public_once net h port n = (Inr ip, n1)"
  shows "\<exists>raw a. net_parse net (drop_zone raw) = Inr a \<and> \<not> non_public (ip_self a) \<and> ip = ip_text (ip_self a)"
proof -
  from assms obtain infos ps qs where p: "public_only (net_parse net) infos = Inr ps" "sort (remdups ps) = ip # qs"
    by (auto simp: resolve_public_once_def split: sum.splits prod.splits list.splits)
  then have "ip \<in> set ps" by (metis list.set_intros(1) set_remdups set_sort)
  with p(1) show ?thesis by (rule public_only_Inr)
qed

lemma resolve_once_state: "snd (resolve_public_once net h port n) = snd (net_addrinfo net h port n)"
  by (auto simp: resolve_public_once_def split: sum.splits prod.splits)

theorem pinned_fetch_confined: "(pinned_use L net hosts)\<^sup>*\<^sup>* n (snd (pinned_https_fetch L net hosts meth url max_bytes n))"
proof (cases "\<exists>u p. urlsplit L url = Inr u \<and> url_scheme u = ''https'' \<and> \<not> opt_truthy (url_username u) \<and> \<not> opt_truthy (url_password u)
    \<and> normal_host L (head_text (url_hostname L u)) \<in> set (map (normal_host L) hosts) \<and> net_upper net meth \<in> {''GET'', ''HEAD''}
    \<and> url_port u = Inr p")
  case False
  then have "snd (pinned_https_fetch L net hosts meth url max_bytes n) = n"
    by (auto simp: pinned_https_fetch_def Let_def split: sum.splits)
  then show ?thesis by simp
next
  case True
  then obtain u p where u: "urlsplit L url = Inr u" "url_scheme u = ''https''" "\<not> opt_truthy (url_username u)" "\<not> opt_truthy (url_password u)"
    "normal_host L (head_text (url_hostname L u)) \<in> set (map (normal_host L) hosts)" "net_upper net meth \<in> {''GET'', ''HEAD''}"
    "url_port u = Inr p" by blast
  define h where "h = normal_host L (head_text (url_hostname L u))"
  define port where "port = (case p of Some k \<Rightarrow> if k = 0 then 443 else k | None \<Rightarrow> 443)"
  obtain r n1 where r: "resolve_public_once net h port n = (r, n1)" by fastforce
  have h: "h \<in> normal_host L ` set hosts" using u(5) by (simp add: h_def)
  have s1: "pinned_use L net hosts n n1" using resolve_once_state [of net h port n] r h unfolding pinned_use_def by (metis snd_conv)
  show ?thesis
  proof (cases r)
    case (Inl e)
    then show ?thesis using u r s1 by (simp add: pinned_https_fetch_def Let_def h_def [symmetric] port_def [symmetric] r_into_rtranclp)
  next
    case (Inr ip)
    let ?og = "\<lparr>og_tls = True, og_hostname = h, og_ip = ip, og_port = port, og_method = net_upper net meth,
                 og_path = fetch_path u, og_headers = [(''Host'', h), (''User-Agent'', ''BULL-PinnedEgress/1'')]\<rparr>"
    from resolve_once_public [OF r [unfolded Inr]] obtain raw a where
      a: "net_parse net (drop_zone raw) = Inr a" "\<not> non_public (ip_self a)" "ip = ip_text (ip_self a)" by blast
    have "(pinned_use L net hosts)\<^sup>*\<^sup>* n1 (snd (pinned_exchange net max_bytes ?og n1))"
      using h u(6) a by (intro pinned_exchange_use) simp_all
    then show ?thesis using s1 u r Inr
      by (simp add: pinned_https_fetch_def Let_def h_def [symmetric] port_def [symmetric] converse_rtranclp_into_rtranclp)
  qed
qed

section \<open>A request evaluated\<close>

definition demo_net :: "outgoing list egress_net" where
  "demo_net = \<lparr>net_addrinfo = (\<lambda>h port n. (Inr [''93.184.216.34''], n)),
     net_parse = (\<lambda>raw. Inr \<lparr>ip_self = \<lparr>ip_text = raw, is_private = False, is_loopback = False, is_link_local = False,
        is_multicast = False, is_reserved = False, is_unspecified = False\<rparr>, ip4_mapped = None\<rparr>),
     net_exchange = (\<lambda>og n. (Inr (200, [(''Content-Type'', ''text/plain'')]), n @ [og])), net_read = (\<lambda>k n. (Inr ''ok'', n)),
     net_close = (\<lambda>n. n), net_upper = map upper_char\<rparr>"

definition demo_request :: "string \<Rightarrow> json res" where
  "demo_request line = Inr (JObj (broker_fetch_request ''get'' ''https://Example.org/a?b''))"

definition demo_conns :: "((int \<times> int \<times> int) \<times> string list) list" where
  "demo_conns = [((1, 1000, 1000), [''{}'']), ((2, 33, 33), [''{}''])]"

lemma demo_gateway:
  "map_sum id (\<lambda>b. map og_path (snd (snd (run_ops (egress_step plain_lib demo_net demo_request) demo_conns (b, [])))))
     (new_egress_broker plain_lib (net_upper demo_net) [''example.org''] [''GET''] True 1024 None None True 1000) = Inr [''/a?b'']"
  by code_simp


end
