(* ===== verification/Filesystem_Manifest.thy ===== *)
theory Filesystem_Manifest
  imports Dispatcher "HOL-Library.Word"
begin

text \<open>
  Admission of a workspace, \<^verbatim>\<open>src/bulldog/filesystem_manifest.py\<close>: the bounded walk over directory
  descriptors that builds the manifest before anything is snapshotted or scanned.

  The file system is adversarial: \<open>fs_ops\<close> holds the system calls and the monotonic clock, each of
  which may fail, may answer differently at every call and changes an arbitrary state, so that the
  tree can grow, shrink and be replaced between any two calls. Reading a descriptor to its end
  delivers a list of clock readings and blocks. The walk is a pair of mutually recursive
  functions whose termination rests on the depth budget alone.

  The theorems show that the walk ends and does a bounded amount of work against every such file
  system, that a returned manifest respects every limit, and that its totals are those of its entries.
\<close>

unbundle bit_operations_syntax

record file_stat =
  st_dev :: int
  st_ino :: int
  st_mode :: "32 word"
  st_nlink :: int
  st_size :: int
  st_uid :: int
  st_gid :: int
  st_mtime :: int
  st_ctime :: int

definition S_IFMT :: "32 word \<Rightarrow> 32 word" where
  "S_IFMT m = m AND 61440"

definition S_ISLNK :: "32 word \<Rightarrow> bool" where
  "S_ISLNK m \<longleftrightarrow> S_IFMT m = 40960"

definition S_ISDIR :: "32 word \<Rightarrow> bool" where
  "S_ISDIR m \<longleftrightarrow> S_IFMT m = 16384"

definition S_ISREG :: "32 word \<Rightarrow> bool" where
  "S_ISREG m \<longleftrightarrow> S_IFMT m = 32768"

definition set_id_bits :: "32 word \<Rightarrow> bool" where
  "set_id_bits m \<longleftrightarrow> m AND 3072 \<noteq> 0"

datatype stat_failure = Not_Found | Os_Failure string

record 'f fs_ops =
  fs_clock :: "'f \<Rightarrow> rat \<times> 'f"
  fs_resolve :: "string \<Rightarrow> 'f \<Rightarrow> string res \<times> 'f"
  fs_open_root :: "string \<Rightarrow> 'f \<Rightarrow> int res \<times> 'f"
  fs_listdir :: "int \<Rightarrow> 'f \<Rightarrow> string list res \<times> 'f"
  fs_stat :: "string \<Rightarrow> int \<Rightarrow> 'f \<Rightarrow> (stat_failure + file_stat) \<times> 'f"
  fs_open_dir :: "string \<Rightarrow> int \<Rightarrow> 'f \<Rightarrow> int res \<times> 'f"
  fs_open_file :: "string \<Rightarrow> int \<Rightarrow> 'f \<Rightarrow> int res \<times> 'f"
  fs_fstat :: "int \<Rightarrow> 'f \<Rightarrow> file_stat res \<times> 'f"
  fs_blocks :: "int \<Rightarrow> 'f \<Rightarrow> (rat \<times> string res) list \<times> 'f"
  fs_close :: "int \<Rightarrow> 'f \<Rightarrow> 'f"

record manifest_entry =
  me_path :: string
  me_kind :: string
  me_device :: int
  me_inode :: int
  me_mode :: "32 word"
  me_uid :: int
  me_gid :: int
  me_size :: int
  me_sha256 :: "string option"

record filesystem_manifest =
  fm_root :: string
  fm_device :: int
  fm_entries :: "manifest_entry list"
  fm_total_bytes :: int
  fm_file_count :: int

section \<open>The walk\<close>

text \<open>What the closure \<open>walk\<close> shares: the entries, the three counters and the file system.\<close>

record 'f walk_state =
  wk_fs :: 'f
  wk_entries :: "manifest_entry list"
  wk_files :: int
  wk_bytes :: int
  wk_count :: int

record walk_ctx =
  wc_budget :: workspace_budget
  wc_deadline :: rat
  wc_device :: int
  wc_same_device :: bool
  wc_reject_setid :: bool

abbreviation violation :: "string \<Rightarrow> 'a res" where
  "violation m \<equiv> raise FilesystemManifestViolation m"

definition on_fs :: "('f \<Rightarrow> 'a \<times> 'f) \<Rightarrow> 'f walk_state \<Rightarrow> 'a \<times> 'f walk_state" where
  "on_fs f s = (let (r, w) = f (wk_fs s) in (r, s\<lparr>wk_fs := w\<rparr>))"

definition close_fd :: "'f fs_ops \<Rightarrow> int \<Rightarrow> 'f walk_state \<Rightarrow> 'f walk_state" where
  "close_fd io fd s = s\<lparr>wk_fs := fs_close io fd (wk_fs s)\<rparr>"

definition check_deadline :: "'f fs_ops \<Rightarrow> walk_ctx \<Rightarrow> 'f walk_state \<Rightarrow> unit res \<times> 'f walk_state" where
  "check_deadline io ctx s =
     (let (now, s1) = on_fs (fs_clock io) s in
      (if now > wc_deadline ctx then violation ''filesystem manifest exceeded wall-clock budget'' else Inr (), s1))"

definition check_path_budget :: "workspace_budget \<Rightarrow> string \<Rightarrow> int \<Rightarrow> unit res" where
  "check_path_budget b relative depth =
     (if depth > max_depth b then violation (''directory depth exceeds limit ('' @ int_str (max_depth b) @ ''): '' @ relative)
      else if int (length relative) > max_path_bytes b
        then violation (''path length exceeds limit ('' @ int_str (max_path_bytes b) @ '' bytes): '' @ relative)
      else Inr ())"

text \<open>\<open>_hash_fd\<close>: the deadline is checked before every read.\<close>

fun hash_blocks :: "rat \<Rightarrow> (rat \<times> string res) list \<Rightarrow> string \<Rightarrow> string res" where
  "hash_blocks deadline [] data = Inr data"
| "hash_blocks deadline ((now, r) # evs) data =
     (if now > deadline then violation ''filesystem manifest exceeded wall-clock budget''
      else case r of
        Inl e \<Rightarrow> Inl e
      | Inr block \<Rightarrow> if block = [] then Inr data else hash_blocks deadline evs (data @ block))"

definition hash_fd :: "pylib \<Rightarrow> 'f fs_ops \<Rightarrow> walk_ctx \<Rightarrow> int \<Rightarrow> 'f walk_state \<Rightarrow> string res \<times> 'f walk_state" where
  "hash_fd L io ctx fd s =
     (let (evs, s1) = on_fs (fs_blocks io fd) s in (map_sum id (sha256_hex L) (hash_blocks (wc_deadline ctx) evs []), s1))"

definition list_names :: "'f fs_ops \<Rightarrow> int \<Rightarrow> 'f walk_state \<Rightarrow> string list res \<times> 'f walk_state" where
  "list_names io fd s =
     (case on_fs (fs_listdir io fd) s of
        (Inl e, s1) \<Rightarrow> (violation (''unable to enumerate workspace directory: '' @ snd e), s1)
      | (Inr names, s1) \<Rightarrow> (Inr (sort names), s1))"

text \<open>From the path budget to the kind of the entry: everything decided on the first \<open>stat\<close>.\<close>

definition examine ::
  "'f fs_ops \<Rightarrow> walk_ctx \<Rightarrow> int \<Rightarrow> string \<Rightarrow> string \<Rightarrow> int \<Rightarrow> 'f walk_state \<Rightarrow> file_stat res \<times> 'f walk_state" where
  "examine io ctx fd name relative depth s =
     (case check_path_budget (wc_budget ctx) relative depth of
        Inl e \<Rightarrow> (Inl e, s)
      | Inr _ \<Rightarrow>
          let s1 = s\<lparr>wk_count := wk_count s + 1\<rparr> in
          if wk_count s1 > max_files (wc_budget ctx) + max_files (wc_budget ctx)
          then (violation ''workspace entry count exceeds bounded admission limit'', s1)
          else case on_fs (fs_stat io name fd) s1 of
            (Inl Not_Found, s2) \<Rightarrow> (violation (''tree changed during manifest construction: '' @ relative), s2)
          | (Inl (Os_Failure m), s2) \<Rightarrow> (raise OSError m, s2)
          | (Inr st, s2) \<Rightarrow>
              (if S_ISLNK (st_mode st) then violation (''symlink rejected: '' @ relative)
               else if wc_same_device ctx \<and> st_dev st \<noteq> wc_device ctx
                 then violation (''filesystem boundary/mount point rejected: '' @ relative)
               else if wc_reject_setid ctx \<and> set_id_bits (st_mode st) then violation (''setuid/setgid entry rejected: '' @ relative)
               else Inr st, s2))"

definition entry_of :: "string \<Rightarrow> string \<Rightarrow> file_stat \<Rightarrow> string option \<Rightarrow> manifest_entry" where
  "entry_of relative kind st sha =
     \<lparr>me_path = relative, me_kind = kind, me_device = st_dev st, me_inode = st_ino st, me_mode = st_mode st, me_uid = st_uid st,
      me_gid = st_gid st, me_size = st_size st, me_sha256 = sha\<rparr>"

definition add_entry :: "manifest_entry \<Rightarrow> 'f walk_state \<Rightarrow> 'f walk_state" where
  "add_entry e s = s\<lparr>wk_entries := wk_entries s @ [e]\<rparr>"

text \<open>A directory: opened without following links, compared with what was seen, recorded.\<close>

definition admit_directory ::
  "'f fs_ops \<Rightarrow> int \<Rightarrow> string \<Rightarrow> string \<Rightarrow> file_stat \<Rightarrow> 'f walk_state \<Rightarrow> int res \<times> 'f walk_state" where
  "admit_directory io fd name relative st s =
     (case on_fs (fs_open_dir io name fd) s of
        (Inl e, s1) \<Rightarrow> (violation (''directory open rejected: '' @ relative @ '': '' @ snd e), s1)
      | (Inr child, s1) \<Rightarrow>
          case on_fs (fs_fstat io child) s1 of
            (Inl e, s2) \<Rightarrow> (Inl e, close_fd io child s2)
          | (Inr opened, s2) \<Rightarrow>
              if st_dev opened \<noteq> st_dev st \<or> st_ino opened \<noteq> st_ino st \<or> \<not> S_ISDIR (st_mode opened)
              then (violation (''directory changed during admission: '' @ relative), close_fd io child s2)
              else (Inr child, add_entry (entry_of relative ''directory'' opened None) s2))"

text \<open>A regular file: its limits and the counters, then the open descriptor against the first \<open>stat\<close>.\<close>

definition file_budget :: "walk_ctx \<Rightarrow> string \<Rightarrow> file_stat \<Rightarrow> 'f walk_state \<Rightarrow> unit res \<times> 'f walk_state" where
  "file_budget ctx relative st s =
     (if \<not> S_ISREG (st_mode st) then (violation (''special filesystem object rejected: '' @ relative), s)
      else if st_nlink st > 1 then (violation (''hardlink rejected: '' @ relative), s)
      else if st_size st > max_file_bytes (wc_budget ctx)
        then (violation (''file exceeds size limit ('' @ int_str (max_file_bytes (wc_budget ctx)) @ ''): '' @ relative), s)
      else let s1 = s\<lparr>wk_files := wk_files s + 1, wk_bytes := wk_bytes s + st_size st\<rparr> in
        (if wk_files s1 > max_files (wc_budget ctx)
           then violation (''file count exceeds limit ('' @ int_str (max_files (wc_budget ctx)) @ '')'')
         else if wk_bytes s1 > max_total_bytes (wc_budget ctx)
           then violation (''workspace bytes exceed limit ('' @ int_str (max_total_bytes (wc_budget ctx)) @ '')'')
         else Inr (), s1))"

definition hash_opened ::
  "pylib \<Rightarrow> 'f fs_ops \<Rightarrow> walk_ctx \<Rightarrow> int \<Rightarrow> string \<Rightarrow> file_stat \<Rightarrow> 'f walk_state \<Rightarrow> (file_stat \<times> string) res \<times> 'f walk_state" where
  "hash_opened L io ctx fd relative st s =
     chain (on_fs (fs_fstat io fd) s) (\<lambda>opened s.
     if st_dev opened \<noteq> st_dev st \<or> st_ino opened \<noteq> st_ino st \<or> st_size opened \<noteq> st_size st \<or> st_nlink opened \<noteq> 1
        \<or> \<not> S_ISREG (st_mode opened)
     then (violation (''file changed during admission: '' @ relative), s)
     else chain (hash_fd L io ctx fd s) (\<lambda>sha s.
     chain (on_fs (fs_fstat io fd) s) (\<lambda>after s.
     if st_size after \<noteq> st_size opened \<or> st_mtime after \<noteq> st_mtime opened \<or> st_ctime after \<noteq> st_ctime opened
     then (violation (''file changed while hashing: '' @ relative), s)
     else (Inr (opened, sha), s))))"

definition admit_file ::
  "pylib \<Rightarrow> 'f fs_ops \<Rightarrow> walk_ctx \<Rightarrow> int \<Rightarrow> string \<Rightarrow> string \<Rightarrow> file_stat \<Rightarrow> 'f walk_state \<Rightarrow> unit res \<times> 'f walk_state" where
  "admit_file L io ctx dir name relative st s =
     chain (file_budget ctx relative st s) (\<lambda>_ s.
     case on_fs (fs_open_file io name dir) s of
       (Inl e, s1) \<Rightarrow> (violation (''file open rejected: '' @ relative @ '': '' @ snd e), s1)
     | (Inr fd, s1) \<Rightarrow>
         let (r, s2) = hash_opened L io ctx fd relative st s1; s3 = close_fd io fd s2 in
         (case r of
            Inl e \<Rightarrow> (Inl e, s3)
          | Inr (opened, sha) \<Rightarrow> (Inr (), add_entry (entry_of relative ''file'' opened (Some sha)) s3)))"

lemma chain_simps [simp]: "chain (Inl e, s) k = (Inl e, s)" "chain (Inr x, s) k = k x s"
  by (simp_all add: chain_def)

lemma chain_fun_cong [fundef_cong]:
  "m = m' \<Longrightarrow> (\<And>x s. m' = (Inr x, s) \<Longrightarrow> k x s = k' x s) \<Longrightarrow> chain m k = chain m' k'"
  by (cases m'; cases "fst m'") auto

lemma examine_depth: "examine io ctx fd name relative depth s = (Inr st, s') \<Longrightarrow> depth \<le> max_depth (wc_budget ctx)"
  by (auto simp: examine_def check_path_budget_def split: if_splits sum.splits)

function walk_dir ::
  "pylib \<Rightarrow> 'f fs_ops \<Rightarrow> walk_ctx \<Rightarrow> int \<Rightarrow> string list \<Rightarrow> int \<Rightarrow> 'f walk_state \<Rightarrow> unit res \<times> 'f walk_state"
  and walk_names ::
  "pylib \<Rightarrow> 'f fs_ops \<Rightarrow> walk_ctx \<Rightarrow> int \<Rightarrow> string list \<Rightarrow> int \<Rightarrow> string list \<Rightarrow> 'f walk_state \<Rightarrow> unit res \<times> 'f walk_state" where
  "walk_dir L io ctx fd pre depth s =
     chain (check_deadline io ctx s) (\<lambda>_ s1. chain (list_names io fd s1) (\<lambda>names s2. walk_names L io ctx fd pre depth names s2))"
| "walk_names L io ctx fd pre depth [] s = (Inr (), s)"
| "walk_names L io ctx fd pre depth (name # names) s =
     (if name = ''.git'' then walk_names L io ctx fd pre depth names s
      else let parts = pre @ [name]; relative = py_join ''/'' parts in
        chain (examine io ctx fd name relative depth s) (\<lambda>st s1.
        chain (if S_ISDIR (st_mode st)
               then chain (admit_directory io fd name relative st s1) (\<lambda>child s2.
                      case walk_dir L io ctx child parts (depth + 1) s2 of (r, s3) \<Rightarrow> (r, close_fd io child s3))
               else admit_file L io ctx fd name relative st s1) (\<lambda>_ s4.
        walk_names L io ctx fd pre depth names s4)))"
  by pat_completeness auto

termination
proof (relation "inv_image (less_than <*lex*> less_than <*lex*> less_than)
    (\<lambda>x. case x of Inl (L, io, ctx, fd, pre, depth, s) \<Rightarrow> (nat (max_depth (wc_budget ctx) + 2 - depth), 1, 0)
         | Inr (L, io, ctx, fd, pre, depth, names, s) \<Rightarrow> (nat (max_depth (wc_budget ctx) + 2 - depth), 0, length names))", goal_cases)
  case 1
  then show ?case by (intro wf_inv_image wf_lex_prod wf_less_than)
qed (auto dest: examine_depth)

declare walk_dir.simps [simp del]

definition build_manifest ::
  "pylib \<Rightarrow> 'f fs_ops \<Rightarrow> bool \<Rightarrow> bool \<Rightarrow> workspace_budget \<Rightarrow> rat option \<Rightarrow> string \<Rightarrow> 'f \<Rightarrow> filesystem_manifest res \<times> 'f" where
  "build_manifest L io same_device reject_setid b deadline root_dir w =
     (case validate_budget b of
        Inl e \<Rightarrow> (violation (snd e), w)
      | Inr _ \<Rightarrow>
          let (limit, w0) = (case deadline of Some d \<Rightarrow> (d, w)
                | None \<Rightarrow> let (now, w') = fs_clock io w in (now + manifest_timeout_seconds b, w')) in
          case fs_resolve io root_dir w0 of
            (Inl e, w1) \<Rightarrow> (Inl e, w1)
          | (Inr root_path, w1) \<Rightarrow>
              case fs_open_root io root_path w1 of
                (Inl e, w2) \<Rightarrow> (Inl e, w2)
              | (Inr fd, w2) \<Rightarrow>
                  case fs_fstat io fd w2 of
                    (Inl e, w3) \<Rightarrow> (Inl e, fs_close io fd w3)
                  | (Inr st, w3) \<Rightarrow>
                      let (r, s) = walk_dir L io
                            \<lparr>wc_budget = b, wc_deadline = limit, wc_device = st_dev st, wc_same_device = same_device, wc_reject_setid = reject_setid\<rparr>
                            fd [] 1 \<lparr>wk_fs = w3, wk_entries = [], wk_files = 0, wk_bytes = 0, wk_count = 0\<rparr> in
                      (map_sum id (\<lambda>_. \<lparr>fm_root = root_path, fm_device = st_dev st, fm_entries = wk_entries s,
                         fm_total_bytes = wk_bytes s, fm_file_count = wk_files s\<rparr>) r, fs_close io fd (wk_fs s)))"

section \<open>Cost\<close>

text \<open>The same system calls, counted.\<close>

definition counted :: "('f \<Rightarrow> 'a \<times> 'f) \<Rightarrow> 'f \<times> int \<Rightarrow> 'a \<times> 'f \<times> int" where
  "counted f p = (let (r, w) = f (fst p) in (r, w, snd p + 1))"

definition counted_io :: "'f fs_ops \<Rightarrow> ('f \<times> int) fs_ops" where
  "counted_io io =
     \<lparr>fs_clock = counted (fs_clock io), fs_resolve = (\<lambda>p. counted (fs_resolve io p)), fs_open_root = (\<lambda>p. counted (fs_open_root io p)),
      fs_listdir = (\<lambda>fd. counted (fs_listdir io fd)), fs_stat = (\<lambda>n fd. counted (fs_stat io n fd)),
      fs_open_dir = (\<lambda>n fd. counted (fs_open_dir io n fd)), fs_open_file = (\<lambda>n fd. counted (fs_open_file io n fd)),
      fs_fstat = (\<lambda>fd. counted (fs_fstat io fd)), fs_blocks = (\<lambda>fd. counted (fs_blocks io fd)),
      fs_close = (\<lambda>fd p. (fs_close io fd (fst p), snd p + 1))\<rparr>"

text \<open>\<open>cheap\<close>: no single call costs more than one.\<close>

definition cheap :: "'f fs_ops \<Rightarrow> ('f \<Rightarrow> int) \<Rightarrow> bool" where
  "cheap io cost \<longleftrightarrow>
     (\<forall>w. cost (snd (fs_clock io w)) \<le> cost w + 1)
     \<and> (\<forall>fd w. cost (snd (fs_listdir io fd w)) \<le> cost w + 1) \<and> (\<forall>n fd w. cost (snd (fs_stat io n fd w)) \<le> cost w + 1)
     \<and> (\<forall>n fd w. cost (snd (fs_open_dir io n fd w)) \<le> cost w + 1) \<and> (\<forall>n fd w. cost (snd (fs_open_file io n fd w)) \<le> cost w + 1)
     \<and> (\<forall>fd w. cost (snd (fs_fstat io fd w)) \<le> cost w + 1) \<and> (\<forall>fd w. cost (snd (fs_blocks io fd w)) \<le> cost w + 1)
     \<and> (\<forall>fd w. cost (fs_close io fd w) \<le> cost w + 1)"

lemma counted_cheap: "cheap (counted_io io) snd"
  by (simp add: cheap_def counted_io_def counted_def case_prod_beta Let_def)

lemma on_fs_frame:
  assumes "on_fs f s = (r, s')"
  shows "s' = s\<lparr>wk_fs := snd (f (wk_fs s))\<rparr>" and "r = fst (f (wk_fs s))"
  using assms by (auto simp: on_fs_def Let_def split: prod.splits)

lemma cheapD:
  assumes "cheap io cost"
  shows "\<And>w. cost (snd (fs_clock io w)) \<le> cost w + 1" "\<And>w. cost (snd (fs_listdir io fd w)) \<le> cost w + 1"
    "\<And>w. cost (snd (fs_stat io n fd w)) \<le> cost w + 1" "\<And>w. cost (snd (fs_open_dir io n fd w)) \<le> cost w + 1"
    "\<And>w. cost (snd (fs_open_file io n fd w)) \<le> cost w + 1" "\<And>w. cost (snd (fs_fstat io fd w)) \<le> cost w + 1"
    "\<And>w. cost (snd (fs_blocks io fd w)) \<le> cost w + 1" "\<And>w. cost (fs_close io fd w) \<le> cost w + 1"
  using assms unfolding cheap_def by blast+

definition same_tallies :: "'f walk_state \<Rightarrow> 'f walk_state \<Rightarrow> bool" where
  "same_tallies s t \<longleftrightarrow> wk_entries t = wk_entries s \<and> wk_files t = wk_files s \<and> wk_bytes t = wk_bytes s \<and> wk_count t = wk_count s"

text \<open>One call of the file system changes only the file system, and costs at most one.\<close>

lemma on_fs_step:
  assumes "on_fs f s = (r, s')" and "\<And>w. cost (snd (f w)) \<le> cost w + 1"
  shows "cost (wk_fs s') \<le> cost (wk_fs s) + 1" and "same_tallies s s'"
  using on_fs_frame [OF assms(1)] assms(2) [of "wk_fs s"] by (simp_all add: same_tallies_def)

lemma close_step:
  assumes "cheap io cost"
  shows "cost (wk_fs (close_fd io fd s)) \<le> cost (wk_fs s) + 1" and "same_tallies s (close_fd io fd s)"
  using cheapD(8) [OF assms, of fd "wk_fs s"] by (simp_all add: close_fd_def same_tallies_def)

lemma same_tallies_trans: "same_tallies s t \<Longrightarrow> same_tallies t u \<Longrightarrow> same_tallies s u"
  by (simp add: same_tallies_def)

lemma same_tallies_refl [simp]: "same_tallies s s"
  by (simp add: same_tallies_def)

section \<open>What each step does\<close>

lemma check_deadline_effect:
  assumes "cheap io cost" and "check_deadline io ctx s = (r, s')"
  shows "cost (wk_fs s') \<le> cost (wk_fs s) + 1 \<and> same_tallies s s'"
proof -
  obtain now s1 where c: "on_fs (fs_clock io) s = (now, s1)" by fastforce
  with assms(2) have "s' = s1" by (simp add: check_deadline_def Let_def)
  with on_fs_step [OF c, of cost] cheapD(1) [OF assms(1)] show ?thesis by blast
qed

lemma list_names_effect:
  assumes "cheap io cost" and "list_names io fd s = (r, s')"
  shows "cost (wk_fs s') \<le> cost (wk_fs s) + 1 \<and> same_tallies s s'"
proof -
  obtain q s1 where c: "on_fs (fs_listdir io fd) s = (q, s1)" by fastforce
  with assms(2) have "s' = s1" by (auto simp: list_names_def split: sum.splits)
  with on_fs_step [OF c, of cost] cheapD(2) [OF assms(1)] show ?thesis by blast
qed

lemma examine_effect:
  assumes "cheap io cost" and "examine io ctx fd name relative depth s = (r, s')"
  shows "s' = s \<and> (\<exists>e. r = Inl e) \<or>
    cost (wk_fs s') \<le> cost (wk_fs s) + 1 \<and> same_tallies (s\<lparr>wk_count := wk_count s + 1\<rparr>) s'
    \<and> (\<forall>st. r = Inr st \<longrightarrow> wk_count s' \<le> max_files (wc_budget ctx) + max_files (wc_budget ctx)
         \<and> depth \<le> max_depth (wc_budget ctx) \<and> int (length relative) \<le> max_path_bytes (wc_budget ctx)
         \<and> (wc_same_device ctx \<longrightarrow> st_dev st = wc_device ctx))"
proof (cases "check_path_budget (wc_budget ctx) relative depth")
  case (Inl e)
  with assms(2) have "s' = s" "r = Inl e" by (simp_all add: examine_def)
  then show ?thesis by blast
next
  case (Inr u)
  let ?s = "s\<lparr>wk_count := wk_count s + 1\<rparr>"
  have b: "depth \<le> max_depth (wc_budget ctx)" "int (length relative) \<le> max_path_bytes (wc_budget ctx)"
    using Inr by (auto simp: check_path_budget_def split: if_splits)
  show ?thesis
  proof (cases "wk_count ?s > max_files (wc_budget ctx) + max_files (wc_budget ctx)")
    case True
    with Inr assms(2) have "s' = ?s" "\<exists>e. r = Inl e" by (auto simp: examine_def Let_def)
    then show ?thesis by auto
  next
    case False
    obtain q s2 where q: "on_fs (fs_stat io name fd) ?s = (q, s2)" by fastforce
    with False Inr assms(2) have "s' = s2"
      and "\<forall>st. r = Inr st \<longrightarrow> (wc_same_device ctx \<longrightarrow> st_dev st = wc_device ctx)"
      by (auto simp: examine_def Let_def split: sum.splits stat_failure.splits if_splits)
    moreover from on_fs_step [OF q, of cost] cheapD(3) [OF assms(1)]
    have "cost (wk_fs s2) \<le> cost (wk_fs s) + 1" "same_tallies ?s s2" by simp_all
    moreover from this False have "wk_count s2 \<le> max_files (wc_budget ctx) + max_files (wc_budget ctx)" by (simp add: same_tallies_def)
    ultimately show ?thesis using b by blast
  qed
qed

text \<open>What holds of every entry of the manifest.\<close>

definition entry_ok :: "walk_ctx \<Rightarrow> manifest_entry \<Rightarrow> bool" where
  "entry_ok ctx e \<longleftrightarrow>
     (\<exists>parts. me_path e = py_join ''/'' parts \<and> parts \<noteq> [] \<and> int (length parts) \<le> max_depth (wc_budget ctx))
     \<and> int (length (me_path e)) \<le> max_path_bytes (wc_budget ctx)
     \<and> (\<not> wc_same_device ctx \<or> me_device e = wc_device ctx)
     \<and> (me_kind e = ''directory'' \<and> S_ISDIR (me_mode e) \<and> me_sha256 e = None
        \<or> me_kind e = ''file'' \<and> S_ISREG (me_mode e) \<and> me_sha256 e \<noteq> None \<and> me_size e \<le> max_file_bytes (wc_budget ctx))"

lemma admit_directory_effect:
  assumes ch: "cheap io cost" and run: "admit_directory io fd name relative st s = (r, s')"
  shows "cost (wk_fs s') \<le> cost (wk_fs s) + 3 \<and>
    ((\<exists>e. r = Inl e) \<and> same_tallies s s' \<or>
     (\<exists>child opened. r = Inr child \<and> cost (wk_fs s') \<le> cost (wk_fs s) + 2 \<and> st_dev opened = st_dev st \<and> S_ISDIR (st_mode opened)
        \<and> same_tallies (s\<lparr>wk_entries := wk_entries s @ [entry_of relative ''directory'' opened None]\<rparr>) s'))"
proof -
  obtain q s1 where q: "on_fs (fs_open_dir io name fd) s = (q, s1)" by fastforce
  note Q = on_fs_step [OF q, of cost, OF cheapD(4) [OF ch]]
  show ?thesis
  proof (cases q)
    case (Inl e)
    with q run Q show ?thesis by (auto simp: admit_directory_def)
  next
    case (Inr child)
    obtain o1 s2 where o1: "on_fs (fs_fstat io child) s1 = (o1, s2)" by fastforce
    note O = on_fs_step [OF o1, of cost, OF cheapD(6) [OF ch]] and C = close_step [OF ch, where fd = child and s = s2]
    note tal = same_tallies_trans [OF Q(2) O(2)]
    show ?thesis
    proof (cases "\<exists>opened. o1 = Inr opened \<and> st_dev opened = st_dev st \<and> st_ino opened = st_ino st \<and> S_ISDIR (st_mode opened)")
      case False
      with run q Inr o1 have "s' = close_fd io child s2" "\<exists>e. r = Inl e"
        by (auto simp: admit_directory_def split: sum.splits if_splits)
      with Q O C tal same_tallies_trans [OF tal C(2)] show ?thesis by auto
    next
      case True
      then obtain opened where op: "o1 = Inr opened" "st_dev opened = st_dev st" "st_ino opened = st_ino st" "S_ISDIR (st_mode opened)" by blast
      with run q Inr o1 have "s' = add_entry (entry_of relative ''directory'' opened None) s2" "r = Inr child"
        by (auto simp: admit_directory_def)
      moreover have "same_tallies (s\<lparr>wk_entries := wk_entries s @ [entry_of relative ''directory'' opened None]\<rparr>)
          (add_entry (entry_of relative ''directory'' opened None) s2)"
        using tal by (simp add: same_tallies_def add_entry_def)
      ultimately show ?thesis using Q(1) O(1) op by (auto simp: add_entry_def)
    qed
  qed
qed

lemma hash_opened_effect:
  assumes ch: "cheap io cost" and run: "hash_opened L io ctx fd relative st s = (r, s')"
  shows "cost (wk_fs s') \<le> cost (wk_fs s) + 3 \<and> same_tallies s s'
    \<and> (\<forall>opened sha. r = Inr (opened, sha) \<longrightarrow> st_dev opened = st_dev st \<and> st_size opened = st_size st \<and> S_ISREG (st_mode opened))"
proof -
  obtain o1 s1 where o1: "on_fs (fs_fstat io fd) s = (o1, s1)" by fastforce
  note O = on_fs_step [OF o1, of cost, OF cheapD(6) [OF ch]]
  obtain evs s2 where h: "on_fs (fs_blocks io fd) s1 = (evs, s2)" by fastforce
  note H = on_fs_step [OF h, of cost, OF cheapD(7) [OF ch]]
  obtain o2 s3 where o2: "on_fs (fs_fstat io fd) s2 = (o2, s3)" by fastforce
  note A = on_fs_step [OF o2, of cost, OF cheapD(6) [OF ch]]
  have hf: "hash_fd L io ctx fd s1 = (map_sum id (sha256_hex L) (hash_blocks (wc_deadline ctx) evs []), s2)"
    by (simp add: hash_fd_def h)
  have "s' \<in> {s1, s2, s3} \<and> (\<forall>opened sha. r = Inr (opened, sha) \<longrightarrow> st_dev opened = st_dev st \<and> st_size opened = st_size st \<and> S_ISREG (st_mode opened))"
  proof (cases o1)
    case (Inl e)
    with run o1 show ?thesis by (auto simp: hash_opened_def)
  next
    case (Inr opened)
    show ?thesis
    proof (cases "st_dev opened = st_dev st \<and> st_ino opened = st_ino st \<and> st_size opened = st_size st \<and> st_nlink opened = 1 \<and> S_ISREG (st_mode opened)")
      case False
      with run o1 Inr have "s' = s1" "\<exists>e. r = Inl e" by (auto simp: hash_opened_def)
      then show ?thesis by auto
    next
      case True
      note ok = True
      show ?thesis
      proof (cases "hash_blocks (wc_deadline ctx) evs []")
        case hb: (Inl e)
        with run o1 Inr ok hf show ?thesis by (auto simp: hash_opened_def)
      next
        case hb: (Inr d)
        show ?thesis
        proof (cases o2)
          case (Inl e)
          with run o1 \<open>o1 = Inr opened\<close> ok hf hb o2 show ?thesis by (auto simp: hash_opened_def)
        next
          case o2r: (Inr after)
          with run o1 \<open>o1 = Inr opened\<close> ok hf hb o2 show ?thesis by (auto simp: hash_opened_def split: if_splits)
        qed
      qed
    qed
  qed
  moreover have "cost (wk_fs s') \<le> cost (wk_fs s) + 3 \<and> same_tallies s s'" if mem: "s' \<in> {s1, s2, s3}"
  proof -
    note t2 = same_tallies_trans [OF O(2) H(2)]
    consider "s' = s1" | "s' = s2" | "s' = s3" using mem by blast
    then show ?thesis
    proof cases
      case 1
      with O show ?thesis by simp
    next
      case 2
      with O(1) H(1) t2 show ?thesis by simp
    next
      case 3
      with O(1) H(1) A(1) same_tallies_trans [OF t2 A(2)] show ?thesis by simp
    qed
  qed
  ultimately show ?thesis by blast
qed

lemma file_budget_effect:
  assumes "file_budget ctx relative st s = (r, s')"
  shows "wk_fs s' = wk_fs s \<and> wk_entries s' = wk_entries s \<and> wk_count s' = wk_count s
    \<and> (\<forall>u. r = Inr u \<longrightarrow> wk_files s' = wk_files s + 1 \<and> wk_bytes s' = wk_bytes s + st_size st \<and> st_size st \<le> max_file_bytes (wc_budget ctx)
         \<and> wk_files s' \<le> max_files (wc_budget ctx) \<and> wk_bytes s' \<le> max_total_bytes (wc_budget ctx))"
  using assms by (auto simp: file_budget_def Let_def split: if_splits)

lemma admit_file_effect:
  assumes ch: "cheap io cost" and run: "admit_file L io ctx dir name relative st s = (r, s')"
  shows "cost (wk_fs s') \<le> cost (wk_fs s) + 5 \<and> wk_count s' = wk_count s \<and>
    ((\<exists>e. r = Inl e) \<and> wk_entries s' = wk_entries s \<or>
     (\<exists>opened sha. r = Inr () \<and> st_dev opened = st_dev st \<and> S_ISREG (st_mode opened) \<and> st_size opened \<le> max_file_bytes (wc_budget ctx)
        \<and> wk_entries s' = wk_entries s @ [entry_of relative ''file'' opened (Some sha)]
        \<and> wk_files s' = wk_files s + 1 \<and> wk_bytes s' = wk_bytes s + st_size opened
        \<and> wk_files s' \<le> max_files (wc_budget ctx) \<and> wk_bytes s' \<le> max_total_bytes (wc_budget ctx)))"
proof -
  obtain f s0 where f: "file_budget ctx relative st s = (f, s0)" by fastforce
  note F = file_budget_effect [OF f]
  show ?thesis
  proof (cases f)
    case (Inl e)
    with f F run show ?thesis by (auto simp: admit_file_def)
  next
    case (Inr u)
    obtain q s1 where q: "on_fs (fs_open_file io name dir) s0 = (q, s1)" by fastforce
    note Q = on_fs_step [OF q, of cost, OF cheapD(5) [OF ch]]
    show ?thesis
    proof (cases q)
      case qe: (Inl e)
      with f Inr q run F Q show ?thesis by (auto simp: admit_file_def same_tallies_def)
    next
      case fd: (Inr fd)
      obtain h s2 where h: "hash_opened L io ctx fd relative st s1 = (h, s2)" by fastforce
      note H = hash_opened_effect [OF ch h] and C = close_step [OF ch, where fd = fd and s = s2]
      have t: "same_tallies s0 (close_fd io fd s2)" "cost (wk_fs (close_fd io fd s2)) \<le> cost (wk_fs s) + 5"
        using same_tallies_trans [OF same_tallies_trans [OF Q(2)] C(2)] H Q(1) C(1) F by auto
      show ?thesis
      proof (cases h)
        case he: (Inl e)
        with f Inr q fd h run F t show ?thesis by (auto simp: admit_file_def same_tallies_def)
      next
        case ho: (Inr p)
        obtain opened sha where p: "p = (opened, sha)" by fastforce
        with ho f Inr q fd h run have "r = Inr ()" "s' = add_entry (entry_of relative ''file'' opened (Some sha)) (close_fd io fd s2)"
          by (auto simp: admit_file_def)
        with H ho p t F Inr show ?thesis by (auto simp: same_tallies_def add_entry_def)
      qed
    qed
  qed
qed

section \<open>The invariant of the walk\<close>

definition is_file :: "manifest_entry \<Rightarrow> bool" where
  "is_file e \<longleftrightarrow> me_kind e = ''file''"

text \<open>The counters are those of the entries, and every limit is respected.\<close>

definition ok_state :: "walk_ctx \<Rightarrow> 'f walk_state \<Rightarrow> bool" where
  "ok_state ctx s \<longleftrightarrow>
     wk_files s = int (length (filter is_file (wk_entries s))) \<and> wk_bytes s = sum_list (map me_size (filter is_file (wk_entries s)))
     \<and> wk_files s \<le> max_files (wc_budget ctx) \<and> wk_bytes s \<le> max_total_bytes (wc_budget ctx)
     \<and> int (length (wk_entries s)) \<le> wk_count s \<and> wk_count s \<le> 2 * max_files (wc_budget ctx)
     \<and> list_all (entry_ok ctx) (wk_entries s)"

text \<open>\<open>spent\<close> relates the states before and after a part of the walk that returned \<open>r\<close>, with \<open>k\<close> calls
  beyond the six of every entry it counted.\<close>

definition spent :: "('f \<Rightarrow> int) \<Rightarrow> walk_ctx \<Rightarrow> int \<Rightarrow> 'f walk_state \<Rightarrow> unit res \<Rightarrow> 'f walk_state \<Rightarrow> bool" where
  "spent cost ctx k s r s' \<longleftrightarrow>
     cost (wk_fs s') \<le> cost (wk_fs s) + k + 6 * (wk_count s' - wk_count s) \<and> wk_count s' \<le> 2 * max_files (wc_budget ctx) + 1
     \<and> (r = Inr () \<longrightarrow> ok_state ctx s')"

lemma ok_state_same: "ok_state ctx s \<Longrightarrow> same_tallies s t \<Longrightarrow> ok_state ctx t"
  by (simp add: ok_state_def same_tallies_def)

lemma spent_trans:
  "spent cost ctx j s (Inr ()) t \<Longrightarrow> spent cost ctx k t r u \<Longrightarrow> spent cost ctx (j + k) s r u"
  by (simp add: spent_def algebra_simps)

lemma entry_ok_entry_of:
  assumes "relative = py_join ''/'' parts" "parts \<noteq> []" "int (length parts) \<le> max_depth (wc_budget ctx)"
    "int (length relative) \<le> max_path_bytes (wc_budget ctx)" "wc_same_device ctx \<longrightarrow> st_dev st = wc_device ctx"
    "kind = ''directory'' \<and> S_ISDIR (st_mode st) \<and> sha = None
     \<or> kind = ''file'' \<and> S_ISREG (st_mode st) \<and> sha \<noteq> None \<and> st_size st \<le> max_file_bytes (wc_budget ctx)"
  shows "entry_ok ctx (entry_of relative kind st sha)"
  using assms by (simp add: entry_ok_def entry_of_def) blast

lemma is_file_entry_of [simp]: "is_file (entry_of relative kind st sha) \<longleftrightarrow> kind = ''file''" "me_size (entry_of relative kind st sha) = st_size st"
  by (simp_all add: is_file_def entry_of_def)

text \<open>A file: at most six calls, one entry.\<close>

lemma file_step:
  assumes ch: "cheap io cost" and ok: "ok_state ctx s" and parts: "relative = py_join ''/'' parts" "parts \<noteq> []" "int (length parts) = depth"
    and ex: "examine io ctx fd name relative depth s = (Inr st, s1)" and run: "admit_file L io ctx fd name relative st s1 = (r, s')"
  shows "spent cost ctx 0 s r s'"
proof -
  from examine_effect [OF ch ex]
  have X: "cost (wk_fs s1) \<le> cost (wk_fs s) + 1" "same_tallies (s\<lparr>wk_count := wk_count s + 1\<rparr>) s1" "wk_count s1 \<le> 2 * max_files (wc_budget ctx)"
    "depth \<le> max_depth (wc_budget ctx)" "int (length relative) \<le> max_path_bytes (wc_budget ctx)" "wc_same_device ctx \<longrightarrow> st_dev st = wc_device ctx"
    by simp_all
  note F = admit_file_effect [OF ch run]
  have "ok_state ctx s'" if "r = Inr ()"
  proof -
    from F that obtain opened sha where o: "st_dev opened = st_dev st" "S_ISREG (st_mode opened)" "st_size opened \<le> max_file_bytes (wc_budget ctx)"
      "wk_entries s' = wk_entries s1 @ [entry_of relative ''file'' opened (Some sha)]"
      "wk_files s' = wk_files s1 + 1" "wk_bytes s' = wk_bytes s1 + st_size opened"
      "wk_files s' \<le> max_files (wc_budget ctx)" "wk_bytes s' \<le> max_total_bytes (wc_budget ctx)" "wk_count s' = wk_count s1" by auto
    have "entry_ok ctx (entry_of relative ''file'' opened (Some sha))"
      by (rule entry_ok_entry_of [OF parts(1,2)]) (use X o parts in simp_all)
    with o X ok show ?thesis by (simp add: ok_state_def same_tallies_def)
  qed
  with F X show ?thesis by (simp add: spent_def same_tallies_def)
qed

text \<open>A directory before the descent into it: three calls, one entry; the close that follows is the fourth.\<close>

lemma directory_step:
  assumes ch: "cheap io cost" and ok: "ok_state ctx s" and parts: "relative = py_join ''/'' parts" "parts \<noteq> []" "int (length parts) = depth"
    and ex: "examine io ctx fd name relative depth s = (Inr st, s1)" and run: "admit_directory io fd name relative st s1 = (r, s2)"
  shows "cost (wk_fs s2) \<le> cost (wk_fs s) + 4 \<and> wk_count s2 = wk_count s + 1 \<and> wk_count s2 \<le> 2 * max_files (wc_budget ctx)
    \<and> (\<forall>child. r = Inr child \<longrightarrow> cost (wk_fs s2) \<le> cost (wk_fs s) + 3 \<and> ok_state ctx s2)"
proof -
  from examine_effect [OF ch ex]
  have X: "cost (wk_fs s1) \<le> cost (wk_fs s) + 1" "same_tallies (s\<lparr>wk_count := wk_count s + 1\<rparr>) s1" "wk_count s1 \<le> 2 * max_files (wc_budget ctx)"
    "depth \<le> max_depth (wc_budget ctx)" "int (length relative) \<le> max_path_bytes (wc_budget ctx)" "wc_same_device ctx \<longrightarrow> st_dev st = wc_device ctx"
    by simp_all
  note D = admit_directory_effect [OF ch run]
  have "cost (wk_fs s2) \<le> cost (wk_fs s) + 3 \<and> ok_state ctx s2" if "r = Inr child" for child
  proof -
    from D that obtain opened where o: "cost (wk_fs s2) \<le> cost (wk_fs s1) + 2" "st_dev opened = st_dev st" "S_ISDIR (st_mode opened)"
      "same_tallies (s1\<lparr>wk_entries := wk_entries s1 @ [entry_of relative ''directory'' opened None]\<rparr>) s2" by auto
    have "entry_ok ctx (entry_of relative ''directory'' opened None)"
      by (rule entry_ok_entry_of [OF parts(1,2)]) (use X o parts in simp_all)
    with o X ok show ?thesis by (simp add: ok_state_def same_tallies_def)
  qed
  moreover have "wk_count s2 = wk_count s1" using D by (auto simp: same_tallies_def)
  ultimately show ?thesis using D X by (simp add: same_tallies_def)
qed

text \<open>The whole walk, by induction on its computation.\<close>

lemma walk_dir_step:
  assumes ch: "cheap io cost" and ok: "ok_state ctx s" and run: "walk_dir L io ctx fd pre depth s = (r, s')"
    and names: "\<And>names s2 r s'. ok_state ctx s2 \<Longrightarrow> walk_names L io ctx fd pre depth names s2 = (r, s') \<Longrightarrow>
      (\<exists>s1. check_deadline io ctx s = (Inr (), s1) \<and> list_names io fd s1 = (Inr names, s2)) \<Longrightarrow> spent cost ctx 0 s2 r s'"
  shows "spent cost ctx 2 s r s'"
proof -
  obtain a s1 where a: "check_deadline io ctx s = (a, s1)" by fastforce
  obtain b s2 where b: "list_names io fd s1 = (b, s2)" by fastforce
  note A = check_deadline_effect [OF ch a] and B = list_names_effect [OF ch b]
  have ok1: "ok_state ctx s1" using A ok ok_state_same by blast
  have ok2: "ok_state ctx s2" using B ok1 ok_state_same by blast
  show ?thesis
  proof (cases a)
    case (Inl e)
    with a run have "r = Inl e" "s' = s1" by (simp_all add: walk_dir.simps)
    with A ok show ?thesis by (simp add: spent_def same_tallies_def ok_state_def)
  next
    case ar: (Inr u)
    show ?thesis
    proof (cases b)
      case (Inl e)
      with a b ar run have "r = Inl e" "s' = s2" by (simp_all add: walk_dir.simps)
      with A B ok show ?thesis by (simp add: spent_def same_tallies_def ok_state_def)
    next
      case (Inr ns)
      with a b ar run have "walk_names L io ctx fd pre depth ns s2 = (r, s')" by (simp add: walk_dir.simps)
      from names [OF ok2 this] a b ar Inr have "spent cost ctx 0 s2 r s'" by simp
      with A B show ?thesis by (simp add: spent_def same_tallies_def)
    qed
  qed
qed

lemma descend_step:
  assumes ch: "cheap io cost" and ok: "ok_state ctx s" and parts: "relative = py_join ''/'' parts" "parts \<noteq> []" "int (length parts) = depth"
    and ex: "examine io ctx fd name relative depth s = (Inr st, s1)"
    and run: "chain (admit_directory io fd name relative st s1) (\<lambda>child s2.
      case walk_dir L io ctx child parts (depth + 1) s2 of (r, s3) \<Rightarrow> (r, close_fd io child s3)) = (r, s')"
    and walk: "\<And>child s2 r s3. ok_state ctx s2 \<Longrightarrow> walk_dir L io ctx child parts (depth + 1) s2 = (r, s3) \<Longrightarrow>
      admit_directory io fd name relative st s1 = (Inr child, s2) \<Longrightarrow> spent cost ctx 2 s2 r s3"
  shows "spent cost ctx 0 s r s'"
proof -
  obtain a s2 where a: "admit_directory io fd name relative st s1 = (a, s2)" by fastforce
  note A = directory_step [OF ch ok parts ex a]
  show ?thesis
  proof (cases a)
    case (Inl e)
    with a run have "r = Inl e" "s' = s2" by simp_all
    with A show ?thesis by (simp add: spent_def)
  next
    case (Inr child)
    obtain r' s3 where w: "walk_dir L io ctx child parts (depth + 1) s2 = (r', s3)" by fastforce
    with a Inr run have r: "r = r'" "s' = close_fd io child s3" by simp_all
    from A Inr have "ok_state ctx s2" by simp
    from walk [OF this w] a Inr have W: "spent cost ctx 2 s2 r' s3" by simp
    note C = close_step [OF ch, where fd = child and s = s3]
    have "ok_state ctx s'" if "r = Inr ()" using that W r C(2) ok_state_same by (auto simp: spent_def)
    with A Inr W r C show ?thesis by (simp add: spent_def same_tallies_def)
  qed
qed

lemma walk_effect:
  assumes ch: "cheap io cost"
  shows "ok_state ctx s \<Longrightarrow> depth = int (length pre) + 1 \<Longrightarrow> walk_dir L io ctx fd pre depth s = (r, s') \<Longrightarrow> spent cost ctx 2 s r s'"
    and "ok_state ctx s \<Longrightarrow> depth = int (length pre) + 1 \<Longrightarrow> walk_names L io ctx fd pre depth names s = (r, s') \<Longrightarrow> spent cost ctx 0 s r s'"
  using ch
proof (induction L io ctx fd pre depth s and L io ctx fd pre depth names s arbitrary: r s' and r s' rule: walk_dir_walk_names.induct)
  case (1 L io ctx fd pre depth s)
  show ?case
    by (rule walk_dir_step [OF "1.prems"(4,1,3)]) (use 1 in blast)
next
  case (2 L io ctx fd pre depth s)
  then show ?case by (simp add: spent_def ok_state_def)
next
  case (3 L io ctx fd pre depth name names s)
  show ?case
  proof (cases "name = ''.git''")
    case True
    with 3 show ?thesis by simp
  next
    case False
    define parts where "parts = pre @ [name]"
    define relative where "relative = py_join ''/'' parts"
    have parts: "parts \<noteq> []" "int (length parts) = depth" using 3 by (simp_all add: parts_def)
    obtain q s1 where q: "examine io ctx fd name relative depth s = (q, s1)" by fastforce
    show ?thesis
    proof (cases q)
      case (Inl e)
      with 3 q False have "r = Inl e" "s' = s1" by (simp_all add: parts_def relative_def Let_def)
      with examine_effect [OF "3.prems"(4) q] "3.prems"(1) show ?thesis by (auto simp: spent_def same_tallies_def ok_state_def)
    next
      case (Inr st)
      define body where "body = (if S_ISDIR (st_mode st)
               then chain (admit_directory io fd name relative st s1) (\<lambda>child s2.
                      case walk_dir L io ctx child parts (depth + 1) s2 of (r, s3) \<Rightarrow> (r, close_fd io child s3))
               else admit_file L io ctx fd name relative st s1)"
      have rest: "chain body (\<lambda>_. walk_names L io ctx fd pre depth names) = (r, s')"
        using "3.prems"(3) False q Inr unfolding body_def relative_def parts_def by (simp add: Let_def split del: if_split)
      obtain b s4 where b: "body = (b, s4)" by fastforce
      have sp: "spent cost ctx 0 s b s4"
      proof (cases "S_ISDIR (st_mode st)")
        case True
        with b have run: "chain (admit_directory io fd name relative st s1) (\<lambda>child s2.
            case walk_dir L io ctx child parts (depth + 1) s2 of (r, s3) \<Rightarrow> (r, close_fd io child s3)) = (b, s4)" by (simp add: body_def)
        show ?thesis
        proof (rule descend_step [OF "3.prems"(4,1) relative_def parts _ run])
          show "examine io ctx fd name relative depth s = (Inr st, s1)" using q Inr by simp
        next
          fix child s2 r s3
          assume "ok_state ctx s2" "walk_dir L io ctx child parts (depth + 1) s2 = (r, s3)" "admit_directory io fd name relative st s1 = (Inr child, s2)"
          with "3.IH" False q Inr True "3.prems" show "spent cost ctx 2 s2 r s3"
            by (simp add: parts_def relative_def)
        qed
      next
        case False
        with b have "admit_file L io ctx fd name relative st s1 = (b, s4)" by (simp add: body_def)
        with file_step [OF "3.prems"(4,1) relative_def parts] q Inr show ?thesis by simp
      qed
      show ?thesis
      proof (cases b)
        case be: (Inl e)
        with rest b have "r = Inl e" "s' = s4" by simp_all
        with sp be show ?thesis by simp
      next
        case br: (Inr u)
        with rest b have w: "walk_names L io ctx fd pre depth names s4 = (r, s')" by simp
        have "spent cost ctx 0 s4 r s'"
          by (rule "3.IH"(3) [OF False parts_def relative_def _ _ _ "3.prems"(2) w "3.prems"(4), of st s1 u])
            (use q Inr b br sp in \<open>simp_all add: body_def spent_def\<close>)
        from spent_trans [OF _ this, of 0 s] sp br show ?thesis by simp
      qed
    qed
  qed
qed

section \<open>Counting changes nothing\<close>

definition forget :: "('f \<times> int) walk_state \<Rightarrow> 'f walk_state" where
  "forget s = \<lparr>wk_fs = fst (wk_fs s), wk_entries = wk_entries s, wk_files = wk_files s, wk_bytes = wk_bytes s, wk_count = wk_count s\<rparr>"

abbreviation forgetful :: "'a \<times> ('f \<times> int) walk_state \<Rightarrow> 'a \<times> 'f walk_state" where
  "forgetful \<equiv> map_prod id forget"

named_theorems counting

lemma forget_simps [counting]:
  "on_fs f (forget s) = forgetful (on_fs (counted f) s)" "close_fd io fd (forget s) = forget (close_fd (counted_io io) fd s)"
  "wk_count (forget s) = wk_count s" "wk_files (forget s) = wk_files s" "wk_bytes (forget s) = wk_bytes s"
  "(forget s)\<lparr>wk_count := n\<rparr> = forget (s\<lparr>wk_count := n\<rparr>)"
  "(forget s)\<lparr>wk_files := m, wk_bytes := n\<rparr> = forget (s\<lparr>wk_files := m, wk_bytes := n\<rparr>)" "add_entry e (forget s) = forget (add_entry e s)"
  by (simp_all add: on_fs_def counted_def forget_def close_fd_def counted_io_def add_entry_def case_prod_beta Let_def)

lemma counted_sel [counting]:
  "fs_clock (counted_io io) = counted (fs_clock io)" "fs_resolve (counted_io io) p = counted (fs_resolve io p)"
  "fs_open_root (counted_io io) p = counted (fs_open_root io p)" "fs_listdir (counted_io io) fd = counted (fs_listdir io fd)"
  "fs_stat (counted_io io) n fd = counted (fs_stat io n fd)" "fs_open_dir (counted_io io) n fd = counted (fs_open_dir io n fd)"
  "fs_open_file (counted_io io) n fd = counted (fs_open_file io n fd)" "fs_fstat (counted_io io) fd = counted (fs_fstat io fd)"
  "fs_blocks (counted_io io) fd = counted (fs_blocks io fd)" "fst (fs_close (counted_io io) fd v) = fs_close io fd (fst v)"
  by (simp_all add: counted_io_def)

lemma forgetful_chain:
  assumes "m = forgetful n" and "\<And>x s. n = (Inr x, s) \<Longrightarrow> k x (forget s) = forgetful (l x s)"
  shows "chain m k = forgetful (chain n l)"
  using assms by (cases n; cases "fst n") auto

lemma forgetful_if:
  "(x \<Longrightarrow> a = forgetful b) \<Longrightarrow> (\<not> x \<Longrightarrow> c = forgetful d) \<Longrightarrow> (if x then a else c) = forgetful (if x then b else d)"
  by simp

lemma fstat_forget: "on_fs (fs_fstat io fd) (forget s) = forgetful (on_fs (fs_fstat (counted_io io) fd) s)"
  by (simp add: counting)

lemma check_deadline_forget: "check_deadline io ctx (forget s) = forgetful (check_deadline (counted_io io) ctx s)"
  by (simp add: check_deadline_def counting case_prod_beta Let_def)

lemma list_names_forget: "list_names io fd (forget s) = forgetful (list_names (counted_io io) fd s)"
  by (cases "on_fs (counted (fs_listdir io fd)) s") (auto simp: list_names_def counting split: sum.splits)

lemma examine_forget: "examine io ctx fd n p depth (forget s) = forgetful (examine (counted_io io) ctx fd n p depth s)"
  by (cases "on_fs (counted (fs_stat io n fd)) (s\<lparr>wk_count := wk_count s + 1\<rparr>)")
    (auto simp: examine_def counting Let_def split: sum.splits stat_failure.splits)

lemma admit_directory_forget: "admit_directory io fd n p st (forget s) = forgetful (admit_directory (counted_io io) fd n p st s)"
proof -
  obtain q s1 where q: "on_fs (counted (fs_open_dir io n fd)) s = (q, s1)" by fastforce
  show ?thesis
  proof (cases q)
    case (Inl e)
    with q show ?thesis by (simp add: admit_directory_def counting)
  next
    case (Inr child)
    with q show ?thesis
      by (cases "on_fs (counted (fs_fstat io child)) s1") (simp add: admit_directory_def counting split: sum.split)
  qed
qed

lemma file_budget_forget: "file_budget ctx p st (forget s) = forgetful (file_budget ctx p st s)"
  by (simp add: file_budget_def counting Let_def)

lemma hash_fd_forget: "hash_fd L io ctx fd (forget s) = forgetful (hash_fd L (counted_io io) ctx fd s)"
  by (simp add: hash_fd_def counting case_prod_beta Let_def)

lemma hash_opened_forget: "hash_opened L io ctx fd p st (forget s) = forgetful (hash_opened L (counted_io io) ctx fd p st s)"
  unfolding hash_opened_def
  by (intro forgetful_chain forgetful_if hash_fd_forget fstat_forget) simp_all

lemma admit_file_forget: "admit_file L io ctx dir n p st (forget s) = forgetful (admit_file L (counted_io io) ctx dir n p st s)"
  unfolding admit_file_def
proof (rule forgetful_chain [OF file_budget_forget])
  fix u t
  obtain q s1 where q: "on_fs (counted (fs_open_file io n dir)) t = (q, s1)" by fastforce
  then show "(case on_fs (fs_open_file io n dir) (forget t) of
       (Inl e, s1) \<Rightarrow> (violation (''file open rejected: '' @ p @ '': '' @ snd e), s1)
     | (Inr fd, s1) \<Rightarrow>
         let (r, s2) = hash_opened L io ctx fd p st s1; s3 = close_fd io fd s2 in
         (case r of Inl e \<Rightarrow> (Inl e, s3) | Inr (opened, sha) \<Rightarrow> (Inr (), add_entry (entry_of p ''file'' opened (Some sha)) s3))) =
    forgetful (case on_fs (fs_open_file (counted_io io) n dir) t of
       (Inl e, s1) \<Rightarrow> (violation (''file open rejected: '' @ p @ '': '' @ snd e), s1)
     | (Inr fd, s1) \<Rightarrow>
         let (r, s2) = hash_opened L (counted_io io) ctx fd p st s1; s3 = close_fd (counted_io io) fd s2 in
         (case r of Inl e \<Rightarrow> (Inl e, s3) | Inr (opened, sha) \<Rightarrow> (Inr (), add_entry (entry_of p ''file'' opened (Some sha)) s3)))"
    by (cases q) (simp_all add: counting hash_opened_forget case_prod_beta Let_def split: sum.split)
qed

lemma walk_forget:
  "walk_dir L io ctx fd pre depth (forget s) = forgetful (walk_dir L (counted_io io) ctx fd pre depth s)"
  "walk_names L io ctx fd pre depth names (forget s) = forgetful (walk_names L (counted_io io) ctx fd pre depth names s)"
proof (induction L "counted_io io" ctx fd pre depth s and L "counted_io io" ctx fd pre depth names s rule: walk_dir_walk_names.induct)
  case (1 L ctx fd pre depth s)
  show ?case
    unfolding walk_dir.simps
    by (rule forgetful_chain [OF check_deadline_forget], rule forgetful_chain [OF list_names_forget], rule 1)
next
  case (2 L ctx fd pre depth s)
  show ?case by simp
next
  case (3 L ctx fd pre depth name names s)
  show ?case
  proof (cases "name = ''.git''")
    case True
    with 3 show ?thesis by simp
  next
    case False
    note IH = "3.hyps"(2,3) [OF False refl refl]
    show ?thesis
      unfolding walk_names.simps Let_def if_not_P [OF False]
      by (intro forgetful_chain examine_forget forgetful_if admit_directory_forget admit_file_forget)
        (auto simp: IH counting case_prod_beta)
  qed
qed

section \<open>The manifest\<close>

abbreviation walk_start :: "'f \<Rightarrow> 'f walk_state" where
  "walk_start w \<equiv> \<lparr>wk_fs = w, wk_entries = [], wk_files = 0, wk_bytes = 0, wk_count = 0\<rparr>"

lemma walk_start_ok: "validate_budget (wc_budget ctx) = Inr u \<Longrightarrow> ok_state ctx (walk_start w)"
  by (auto simp: ok_state_def validate_budget_def split: if_splits)

lemma counted_walk [counting]:
  "fst (walk_dir L (counted_io io) ctx fd pre depth (walk_start (w, n))) = fst (walk_dir L io ctx fd pre depth (walk_start w))"
  "wk_entries (snd (walk_dir L (counted_io io) ctx fd pre depth (walk_start (w, n)))) = wk_entries (snd (walk_dir L io ctx fd pre depth (walk_start w)))"
  "wk_files (snd (walk_dir L (counted_io io) ctx fd pre depth (walk_start (w, n)))) = wk_files (snd (walk_dir L io ctx fd pre depth (walk_start w)))"
  "wk_bytes (snd (walk_dir L (counted_io io) ctx fd pre depth (walk_start (w, n)))) = wk_bytes (snd (walk_dir L io ctx fd pre depth (walk_start w)))"
  "fst (wk_fs (snd (walk_dir L (counted_io io) ctx fd pre depth (walk_start (w, n))))) = wk_fs (snd (walk_dir L io ctx fd pre depth (walk_start w)))"
proof -
  have "walk_start w = forget (walk_start (w, n))" by (simp add: forget_def)
  then show "fst (walk_dir L (counted_io io) ctx fd pre depth (walk_start (w, n))) = fst (walk_dir L io ctx fd pre depth (walk_start w))"
    "wk_entries (snd (walk_dir L (counted_io io) ctx fd pre depth (walk_start (w, n)))) = wk_entries (snd (walk_dir L io ctx fd pre depth (walk_start w)))"
    "wk_files (snd (walk_dir L (counted_io io) ctx fd pre depth (walk_start (w, n)))) = wk_files (snd (walk_dir L io ctx fd pre depth (walk_start w)))"
    "wk_bytes (snd (walk_dir L (counted_io io) ctx fd pre depth (walk_start (w, n)))) = wk_bytes (snd (walk_dir L io ctx fd pre depth (walk_start w)))"
    "fst (wk_fs (snd (walk_dir L (counted_io io) ctx fd pre depth (walk_start (w, n))))) = wk_fs (snd (walk_dir L io ctx fd pre depth (walk_start w)))"
    by (simp_all add: walk_forget(1)) (simp_all add: forget_def)
qed

lemma counted_app [simp]: "fst (counted f p) = fst (f (fst p))" "snd (counted f p) = (snd (f (fst p)), snd p + 1)"
  by (simp_all add: counted_def case_prod_beta Let_def)

lemma build_manifest_counts:
  "build_manifest L io same setid b deadline dir (fst p) = map_prod id fst (build_manifest L (counted_io io) same setid b deadline dir p)"
proof (cases "validate_budget b")
  case (Inl e)
  then show ?thesis by (simp add: build_manifest_def)
next
  case ok: (Inr u)
  define q where "q = (case deadline of Some d \<Rightarrow> (d, p)
    | None \<Rightarrow> let (now, p') = fs_clock (counted_io io) p in (now + manifest_timeout_seconds b, p'))"
  have q: "(case deadline of Some d \<Rightarrow> (d, fst p) | None \<Rightarrow> let (now, w') = fs_clock io (fst p) in (now + manifest_timeout_seconds b, w'))
      = map_prod id fst q"
    by (simp add: q_def counting case_prod_beta Let_def split: option.split)
  show ?thesis
    using ok unfolding build_manifest_def q q_def [symmetric]
    by (auto simp: counting case_prod_beta Let_def counted_def split: sum.splits)
qed

lemma build_manifest_cost:
  "snd (snd (build_manifest L (counted_io io) same setid b deadline dir p)) \<le> snd p + 12 * max 0 (max_files b) + 13"
proof (cases "validate_budget b")
  case (Inl e)
  then show ?thesis by (simp add: build_manifest_def)
next
  case ok: (Inr u)
  define q where "q = (case deadline of Some d \<Rightarrow> (d, p)
    | None \<Rightarrow> let (now, p') = fs_clock (counted_io io) p in (now + manifest_timeout_seconds b, p'))"
  have q: "snd (snd q) \<le> snd p + 1" by (simp add: q_def counting case_prod_beta Let_def split: option.split)
  have walk: "snd (wk_fs (snd (walk_dir L (counted_io io) ctx fd [] 1 (walk_start v)))) \<le> snd v + 2 + 6 * (2 * max_files b + 1)"
    if "wc_budget ctx = b" for ctx fd v
  proof -
    obtain r s' where w: "walk_dir L (counted_io io) ctx fd [] 1 (walk_start v) = (r, s')" by fastforce
    from walk_effect(1) [OF counted_cheap walk_start_ok _ this] ok that
    have "spent snd ctx 2 (walk_start v) r s'" by simp
    with w that show ?thesis by (simp add: spent_def)
  qed
  have closed: "snd (fs_close (counted_io io) fd v) = snd v + 1" for fd v by (simp add: counted_io_def)
  show ?thesis
    using ok q unfolding build_manifest_def q_def [symmetric]
    by (auto simp: counting case_prod_beta Let_def closed counted_def split: sum.splits
        intro!: order_trans [OF walk])
qed

lemma build_manifest_walk:
  assumes "build_manifest L io same setid b deadline dir w = (Inr m, w')"
  obtains ctx where "wc_budget ctx = b" "wc_device ctx = fm_device m" "wc_same_device ctx = same" "ok_state ctx
    \<lparr>wk_fs = (), wk_entries = fm_entries m, wk_files = fm_file_count m, wk_bytes = fm_total_bytes m, wk_count = 2 * max_files b\<rparr>"
proof -
  obtain u where ok: "validate_budget b = Inr u" using assms by (cases "validate_budget b") (auto simp: build_manifest_def)
  obtain ctx fd v s where run: "wc_budget ctx = b" "wc_device ctx = fm_device m" "wc_same_device ctx = same"
    "walk_dir L io ctx fd [] 1 (walk_start v) = (Inr (), s)" "fm_entries m = wk_entries s" "fm_file_count m = wk_files s"
    "fm_total_bytes m = wk_bytes s"
  proof -
    define q where "q = (case deadline of Some d \<Rightarrow> (d, w)
      | None \<Rightarrow> let (now, w') = fs_clock io w in (now + manifest_timeout_seconds b, w'))"
    obtain limit w0 where q: "q = (limit, w0)" by fastforce
    note run = assms [unfolded build_manifest_def, folded q_def, unfolded ok q Let_def, simplified]
    obtain a w1 where a: "fs_resolve io dir w0 = (a, w1)" by fastforce
    with run obtain root_path where ar: "a = Inr root_path" by (cases a) auto
    obtain c w2 where c: "fs_open_root io root_path w1 = (c, w2)" by fastforce
    with run a ar obtain fd where cr: "c = Inr fd" by (cases c) auto
    obtain d w3 where d: "fs_fstat io fd w2 = (d, w3)" by fastforce
    with run a ar c cr obtain st where dr: "d = Inr st" by (cases d) auto
    define ctx where "ctx = \<lparr>wc_budget = b, wc_deadline = limit, wc_device = st_dev st, wc_same_device = same, wc_reject_setid = setid\<rparr>"
    obtain r s where w: "walk_dir L io ctx fd [] 1 (walk_start w3) = (r, s)" by fastforce
    with run a ar c cr d dr show thesis by (cases r) (auto simp: ctx_def intro!: that [of ctx fd w3 s])
  qed
  have "cheap io (\<lambda>_. 0)" by (simp add: cheap_def)
  from walk_effect(1) [OF this walk_start_ok _ run(4)] ok run(1) have "ok_state ctx s" by (simp add: spent_def)
  with run have "ok_state ctx
    \<lparr>wk_fs = (), wk_entries = fm_entries m, wk_files = fm_file_count m, wk_bytes = fm_total_bytes m, wk_count = 2 * max_files b\<rparr>"
    by (simp add: ok_state_def)
  with run(1-3) show thesis by (rule that)
qed



section \<open>A workspace\<close>

text \<open>A small tree: a file, a directory with one file, and a \<open>.git\<close> that is not looked at. The state counts the calls of \<open>stat\<close>.\<close>

definition demo_stat :: "int \<Rightarrow> 32 word \<Rightarrow> int \<Rightarrow> file_stat" where
  "demo_stat ino mode n = \<lparr>st_dev = 1, st_ino = ino, st_mode = mode, st_nlink = 1, st_size = n, st_uid = 0, st_gid = 0, st_mtime = 0, st_ctime = 0\<rparr>"

definition demo_tree :: "32 word \<Rightarrow> int fs_ops" where
  "demo_tree late =
     \<lparr>fs_clock = (\<lambda>n. (0, n)), fs_resolve = (\<lambda>p n. (Inr p, n)), fs_open_root = (\<lambda>p n. (Inr 3, n)),
      fs_listdir = (\<lambda>fd n. (Inr (if fd = 3 then [''src'', ''.git'', ''a''] else [''b'']), n)),
      fs_stat = (\<lambda>p fd n. (Inr (if p = ''src'' then demo_stat 10 16877 4096 else if p = ''a'' then demo_stat 11 33188 5 else demo_stat 12 33188 7), n + 1)),
      fs_open_dir = (\<lambda>p fd n. (Inr 4, n)), fs_open_file = (\<lambda>p fd n. (Inr (if p = ''a'' then 11 else 12), n)),
      fs_fstat = (\<lambda>fd n. (Inr (if fd = 3 then demo_stat 2 16877 4096 else if fd = 4 then demo_stat 10 16877 4096
                    else if fd = 11 then demo_stat 11 late 5 else demo_stat 12 33188 7), n)),
      fs_blocks = (\<lambda>fd n. ([(1, Inr ''data''), (2, Inr [])], n)), fs_close = (\<lambda>fd n. n)\<rparr>"

lemma demo_manifest:
  "map_sum id (\<lambda>m. (map me_path (fm_entries m), fm_file_count m, fm_total_bytes m))
     (fst (build_manifest plain_lib (demo_tree 33188) True True default_budget (Some 100) ''/w'' 0))
   = Inr ([''a'', ''src'', ''src/b''], 2, 12)"
  by code_simp

text \<open>A file that gets its set-id bit between \<open>stat\<close> and \<open>open\<close> is admitted, with the bit in its entry.\<close>

lemma set_id_admitted:
  "map_sum id (\<lambda>m. map (\<lambda>e. set_id_bits (me_mode e)) (fm_entries m))
     (fst (build_manifest plain_lib (demo_tree 35236) True True default_budget (Some 100) ''/w'' 0))
   = Inr [True, False, False]"
  by code_simp


end
