(* ===== verification/Approval_Crypto.thy ===== *)
theory Approval_Crypto
  imports Approval Agent_Scanner
begin

text \<open>
  OpenSSH security-key signatures, \<^verbatim>\<open>src/bulldog/approval_crypto.py\<close>, and what an enrolment must
  look like, \<open>validate_config\<close> of \<^verbatim>\<open>src/bulldog/approval.py\<close> and \<open>validate_credential\<close> of
  \<^verbatim>\<open>src/bulldog/hardware_approval/provider.py\<close>. The byte reader is the record \<open>reader\<close>; \<open>bytes\<close> are
  strings of characters below 256.

  \<open>ssh-keygen\<close> and the temporary files it is given are the argument \<open>keygen\<close>; whether an encoded
  point lies on the curve is \<open>ec_point\<close> of the argument \<open>ec_lib\<close>. Nothing is assumed about them.

  The theorems show that the parser accepts exactly the encodings of the structure it checks, with
  nothing left over, and that an approval consumed under an SSH key carries presence and verification.
\<close>

unbundle bit_operations_syntax

section \<open>Bytes\<close>

text \<open>\<open>base64.b64decode(data, validate=True)\<close>, that is \<open>binascii.a2b_base64\<close> in strict mode: only the alphabet, then the padding
  that completes the last group; after complete groups padding characters are ignored.\<close>

definition b64_char :: "char \<Rightarrow> bool" where
  "b64_char c \<longleftrightarrow> (let n = cp c in 65 \<le> n \<and> n \<le> 90 \<or> 97 \<le> n \<and> n \<le> 122 \<or> 48 \<le> n \<and> n \<le> 57 \<or> n = 43 \<or> n = 47)"

definition b64decode :: "string \<Rightarrow> string res" where
  "b64decode s =
     (let data = takeWhile b64_char s; pad = dropWhile b64_char s; k = length data mod 4 in
      if list_all (\<lambda>c. c = CHR ''='') pad \<and> (if k = 0 then data \<noteq> [] \<or> pad = [] else k \<noteq> 1 \<and> length pad = 4 - k)
      then Inr (map char_of (b64_bytes (map (\<lambda>c. b64_value (cp c)) data)))
      else raise ValueError ''Invalid base64-encoded string'')"

definition bytes_space :: "char \<Rightarrow> bool" where
  "bytes_space c \<longleftrightarrow> cp c \<in> {9, 10, 11, 12, 13, 32}"

definition bytes_strip :: "string \<Rightarrow> string" where
  "bytes_strip s = List.rev (dropWhile bytes_space (List.rev (dropWhile bytes_space s)))"

definition line_end :: "char \<Rightarrow> bool" where
  "line_end c \<longleftrightarrow> cp c = 10 \<or> cp c = 13"

definition after_line :: "string \<Rightarrow> string" where
  "after_line s =
     (case dropWhile (\<lambda>c. \<not> line_end c) s of
        [] \<Rightarrow> []
      | c # t \<Rightarrow> if cp c = 13 then (case t of d # u \<Rightarrow> if cp d = 10 then u else t | [] \<Rightarrow> []) else t)"

lemma after_line_less: "s \<noteq> [] \<Longrightarrow> length (after_line s) < length s"
proof -
  assume "s \<noteq> []"
  have "length (dropWhile (\<lambda>c. \<not> line_end c) s) \<le> length s" by (rule length_dropWhile_le)
  with \<open>s \<noteq> []\<close> show ?thesis by (auto simp: after_line_def split: list.splits)
qed

function bytes_splitlines :: "string \<Rightarrow> string list" where
  "bytes_splitlines s = (if s = [] then [] else takeWhile (\<lambda>c. \<not> line_end c) s # bytes_splitlines (after_line s))"
  by pat_completeness auto
termination
  by (relation "measure length") (auto simp: after_line_less)

declare bytes_splitlines.simps [simp del]

text \<open>\<open>str.split()\<close>: the maximal runs without white space.\<close>

fun split_words :: "cps \<Rightarrow> cps \<Rightarrow> cps list" where
  "split_words w [] = (if w = [] then [] else [w])"
| "split_words w (x # xs) =
     (if is_space_point x then (if w = [] then split_words [] xs else w # split_words [] xs) else split_words (w @ [x]) xs)"

definition py_words :: "string \<Rightarrow> string list" where
  "py_words s = map text_of (split_words [] (points s))"

section \<open>The reader\<close>

record reader =
  rd_data :: string
  rd_offset :: int

definition new_reader :: "string \<Rightarrow> reader" where
  "new_reader data = \<lparr>rd_data = data, rd_offset = 0\<rparr>"

definition rd_take :: "int \<Rightarrow> reader \<Rightarrow> (string \<times> reader) res" where
  "rd_take count r =
     (if count < 0 \<or> count > int (length (rd_data r)) - rd_offset r then approval_error ''truncated signature encoding''
      else Inr (take (nat count) (drop (nat (rd_offset r)) (rd_data r)), r\<lparr>rd_offset := rd_offset r + count\<rparr>))"

definition rd_uint :: "reader \<Rightarrow> (int \<times> reader) res" where
  "rd_uint r = (case rd_take 4 r of Inl e \<Rightarrow> Inl e | Inr (v, r') \<Rightarrow> Inr (int (be_val v), r'))"

definition rd_string :: "reader \<Rightarrow> (string \<times> reader) res" where
  "rd_string r = (case rd_uint r of Inl e \<Rightarrow> Inl e | Inr (n, r') \<Rightarrow> rd_take n r')"

definition rd_done :: "reader \<Rightarrow> unit res" where
  "rd_done r = (if rd_offset r \<noteq> int (length (rd_data r)) then approval_error ''trailing signature data'' else Inr ())"

definition rd_bind :: "('a \<times> reader) res \<Rightarrow> ('a \<Rightarrow> reader \<Rightarrow> 'b res) \<Rightarrow> 'b res" where
  "rd_bind m k = (case m of Inl e \<Rightarrow> Inl e | Inr (x, r) \<Rightarrow> k x r)"

text \<open>\<open>if not ok: raise ApprovalError(m)\<close>, and \<open>except ValueError as exc: raise ApprovalError(m)\<close>.\<close>

definition demand :: "bool \<Rightarrow> string \<Rightarrow> 'a res \<Rightarrow> 'a res" where
  "demand ok m k = (if ok then k else approval_error m)"

definition as_encoding_error :: "string \<Rightarrow> 'a res \<Rightarrow> 'a res" where
  "as_encoding_error m r = (case r of Inl (c, msg) \<Rightarrow> if c = ValueError then approval_error m else Inl (c, msg) | Inr x \<Rightarrow> Inr x)"

section \<open>Keys and signatures\<close>

definition NAMESPACE :: string where
  "NAMESPACE = ''bull-consequential-action-v1''"

definition ED25519_SK :: string where
  "ED25519_SK = ''sk-ssh-ed25519@openssh.com''"

definition KEY_TYPES :: "string list" where
  "KEY_TYPES = [ED25519_SK, ''sk-ecdsa-sha2-nistp256@openssh.com'']"

definition APPLICATION :: string where
  "APPLICATION = ''ssh:bull-approval''"

definition key_material :: "string \<Rightarrow> reader \<Rightarrow> (unit \<times> reader) res" where
  "key_material algorithm r =
     (if algorithm = ED25519_SK
      then rd_bind (rd_string r) (\<lambda>k r. demand (length k = 32) ''invalid Ed25519 security key'' (Inr ((), r)))
      else rd_bind (rd_string r) (\<lambda>curve r. demand (curve = ''nistp256'') ''invalid P256 security key'' (
           rd_bind (rd_string r) (\<lambda>k r. demand (length k = 65) ''invalid P256 security key'' (Inr ((), r))))))"

definition key_blob :: "string \<Rightarrow> string \<Rightarrow> string res" where
  "key_blob algorithm blob =
     rd_bind (rd_string (new_reader blob)) (\<lambda>a r.
     demand (a = algorithm) ''public key algorithm mismatch'' (
     rd_bind (key_material algorithm r) (\<lambda>_ r.
     rd_bind (rd_string r) (\<lambda>application r.
     demand (application = APPLICATION) ''security key application must be ssh:bull-approval'' (
     case rd_done r of Inl e \<Rightarrow> Inl e | Inr _ \<Rightarrow> Inr blob)))))"

definition validate_public_key :: "string \<Rightarrow> string res" where
  "validate_public_key public_key = as_encoding_error ''invalid public key encoding''
     (case py_words public_key of
        [alg, body] \<Rightarrow>
          if py_len public_key > 4096 then approval_error ''expected one security-key public key without comment''
          else if \<not> ascii_text alg then raise ValueError ''ordinal not in range(128)''
          else demand (alg \<in> set KEY_TYPES) ''only enrolled OpenSSH security keys are accepted'' (
               if \<not> ascii_text body then raise ValueError ''string argument should contain only ASCII characters''
               else case b64decode body of Inl e \<Rightarrow> Inl e | Inr blob \<Rightarrow> key_blob alg blob)
      | _ \<Rightarrow> approval_error ''expected one security-key public key without comment'')"

definition armour_body :: "string \<Rightarrow> string res" where
  "armour_body signature =
     (let lines = bytes_splitlines (bytes_strip signature) in
      demand (lines \<noteq> [] \<and> hd lines = ''-----BEGIN SSH SIGNATURE-----'' \<and> List.last lines = ''-----END SSH SIGNATURE-----'')
        ''expected an SSH signature, not approval text'' (b64decode (concat (butlast (tl lines)))))"

text \<open>The inner signature: algorithm, raw signature, flags and the authenticator's counter.\<close>

definition inspect_inner :: "string \<Rightarrow> unit res" where
  "inspect_inner data =
     rd_bind (rd_string (new_reader data)) (\<lambda>alg r.
     demand (alg \<in> set KEY_TYPES) ''signature is not a security-key signature'' (
     rd_bind (rd_string r) (\<lambda>_ r.
     rd_bind (rd_take 1 r) (\<lambda>flags r.
     rd_bind (rd_uint r) (\<lambda>_ r.
     case rd_done r of
       Inl e \<Rightarrow> Inl e
     | Inr _ \<Rightarrow> demand (code (hd flags) AND 5 = 5) ''both user presence and user verification are required'' (Inr ()))))))"

definition inspect_blob :: "string \<Rightarrow> string \<Rightarrow> unit res" where
  "inspect_blob data public_blob =
     rd_bind (rd_take 6 (new_reader data)) (\<lambda>magic r.
     demand (magic = ''SSHSIG'') ''unsupported SSH signature'' (
     rd_bind (rd_uint r) (\<lambda>version r.
     demand (version = 1) ''unsupported SSH signature'' (
     rd_bind (rd_string r) (\<lambda>key r.
     demand (key = public_blob) ''signature does not match enrolled credential'' (
     rd_bind (rd_string r) (\<lambda>ns r.
     demand (ns = NAMESPACE) ''invalid approval signature namespace'' (
     rd_bind (rd_string r) (\<lambda>reserved r.
     demand (reserved = []) ''invalid approval signature namespace'' (
     rd_bind (rd_string r) (\<lambda>hash r.
     demand (hash \<in> {''sha256'', ''sha512''}) ''unsupported signature hash'' (
     rd_bind (rd_string r) (\<lambda>inner r.
     case rd_done r of Inl e \<Rightarrow> Inl e | Inr _ \<Rightarrow> inspect_inner inner)))))))))))))"

definition inspect_signature :: "string \<Rightarrow> string \<Rightarrow> unit res" where
  "inspect_signature signature public_blob =
     (if length signature > 16384 then approval_error ''invalid signature size''
      else as_encoding_error ''invalid SSH signature encoding''
        (case armour_body signature of Inl e \<Rightarrow> Inl e | Inr data \<Rightarrow> inspect_blob data public_blob))"

text \<open>How a run of \<open>ssh-keygen\<close> ends: with an exit status, or with \<open>OSError\<close> or \<open>TimeoutExpired\<close>.\<close>

datatype keygen_run = Exit_Status int | Not_Started | Timed_Out

record keygen =
  kg_write :: "string \<Rightarrow> string \<Rightarrow> unit res"
  kg_run :: "string \<Rightarrow> string \<Rightarrow> string \<Rightarrow> keygen_run"

definition signers_file :: "string \<Rightarrow> string" where
  "signers_file public_key = ''approver namespaces='' @ [char_of (34::nat)] @ NAMESPACE @ [char_of (34::nat), CHR '' ''] @ public_key @ [char_of (10::nat)]"

definition verify_hardware_signature :: "keygen \<Rightarrow> string \<Rightarrow> string \<Rightarrow> string \<Rightarrow> unit res" where
  "verify_hardware_signature kg message signature public_key =
     (case validate_public_key public_key of
        Inl e \<Rightarrow> Inl e
      | Inr blob \<Rightarrow> (case inspect_signature signature blob of
          Inl e \<Rightarrow> Inl e
        | Inr _ \<Rightarrow> (case kg_write kg (signers_file public_key) signature of
            Inl e \<Rightarrow> Inl e
          | Inr _ \<Rightarrow> (case kg_run kg (signers_file public_key) signature message of
              Exit_Status rc \<Rightarrow> if rc \<noteq> 0 then approval_error ''approval signature verification failed'' else Inr ()
            | _ \<Rightarrow> approval_error ''signature verifier unavailable''))))"

section \<open>What the reader accepts\<close>

definition enc_string :: "string \<Rightarrow> string" where
  "enc_string s = be_bytes 4 (length s) @ s"

definition rd_ok :: "reader \<Rightarrow> bool" where
  "rd_ok r \<longleftrightarrow> 0 \<le> rd_offset r \<and> rd_offset r \<le> int (length (rd_data r))"

definition rd_rest :: "reader \<Rightarrow> string" where
  "rd_rest r = drop (nat (rd_offset r)) (rd_data r)"

lemma new_reader_rest [simp]: "rd_ok (new_reader d)" "rd_rest (new_reader d) = d"
  by (simp_all add: rd_ok_def rd_rest_def new_reader_def)

text \<open>\<open>yields m v t\<close>: the call returns \<open>v\<close> and leaves a reader whose remaining bytes are \<open>t\<close>.\<close>

definition yields :: "('a \<times> reader) res \<Rightarrow> 'a \<Rightarrow> string \<Rightarrow> bool" where
  "yields m v t \<longleftrightarrow> (\<exists>r. m = Inr (v, r) \<and> rd_ok r \<and> rd_rest r = t)"

lemma rd_take_Inr:
  assumes "rd_ok r" and "rd_take n r = Inr (v, r')"
  shows "0 \<le> n \<and> int (length v) = n \<and> rd_rest r = v @ rd_rest r' \<and> rd_ok r'"
proof -
  have n: "0 \<le> n" "n \<le> int (length (rd_data r)) - rd_offset r" and v: "v = take (nat n) (rd_rest r)" and r': "r' = r\<lparr>rd_offset := rd_offset r + n\<rparr>"
    using assms(2) by (auto simp: rd_take_def rd_rest_def split: if_splits)
  have "rd_rest r' = drop (nat n) (rd_rest r)"
    using n assms(1) by (simp add: r' rd_rest_def rd_ok_def nat_add_distrib add.commute)
  moreover have "int (length v) = n" using n v assms(1) by (simp add: rd_ok_def rd_rest_def)
  moreover have "rd_ok r'" using n assms(1) by (simp add: rd_ok_def r')
  ultimately show ?thesis using n v by simp
qed

lemma rd_take_yields:
  assumes "rd_ok r" and "rd_rest r = v @ t"
  shows "yields (rd_take (int (length v)) r) v t"
proof -
  have len: "int (length v) \<le> int (length (rd_data r)) - rd_offset r"
    using assms(1) arg_cong [OF assms(2), of length] unfolding rd_rest_def rd_ok_def length_drop length_append by linarith
  then obtain r' where t: "rd_take (int (length v)) r = Inr (v, r')"
    using assms(2) by (auto simp: rd_take_def rd_rest_def)
  with rd_take_Inr [OF assms(1) t] assms(2) show ?thesis by (auto simp: yields_def)
qed

lemma rd_uint_Inr:
  assumes "rd_ok r" and "rd_uint r = Inr (n, r')"
  shows "0 \<le> n \<and> n < 4294967296 \<and> rd_rest r = be_bytes 4 (nat n) @ rd_rest r' \<and> rd_ok r'"
proof -
  from assms(2) obtain v where v: "rd_take 4 r = Inr (v, r')" "n = int (be_val v)"
    by (auto simp: rd_uint_def split: sum.splits)
  from rd_take_Inr [OF assms(1) v(1)] have "length v = 4" "rd_rest r = v @ rd_rest r'" "rd_ok r'" by auto
  with v(2) be_bytes_val [of v] be_val_less [of v] show ?thesis by simp
qed

lemma rd_uint_yields:
  assumes "rd_ok r" and "rd_rest r = be_bytes 4 n @ t" and "n < 4294967296"
  shows "yields (rd_uint r) (int n) t"
  using rd_take_yields [OF assms(1,2)] be_val_bytes [of n 4] assms(3) by (auto simp: yields_def rd_uint_def)

lemma rd_string_Inr:
  assumes "rd_ok r" and "rd_string r = Inr (s, r')"
  shows "length s < 4294967296 \<and> rd_rest r = enc_string s @ rd_rest r' \<and> rd_ok r'"
proof -
  from assms(2) obtain n r1 where n: "rd_uint r = Inr (n, r1)" "rd_take n r1 = Inr (s, r')"
    by (auto simp: rd_string_def split: sum.splits)
  from rd_uint_Inr [OF assms(1) n(1)] rd_take_Inr [OF _ n(2)] show ?thesis by (auto simp: enc_string_def)
qed

lemma rd_string_yields:
  assumes "rd_ok r" and "rd_rest r = enc_string s @ t" and "length s < 4294967296"
  shows "yields (rd_string r) s t"
proof -
  from rd_uint_yields [OF assms(1) _ assms(3), of "s @ t"] assms(2)
  obtain r1 where r1: "rd_uint r = Inr (int (length s), r1)" "rd_ok r1" "rd_rest r1 = s @ t" by (auto simp: yields_def enc_string_def)
  from rd_take_yields [OF r1(2,3)] r1(1) show ?thesis by (simp add: rd_string_def)
qed

lemma rd_done_iff: "rd_ok r \<Longrightarrow> rd_done r = Inr () \<longleftrightarrow> rd_rest r = []"
  by (auto simp: rd_done_def rd_rest_def rd_ok_def)

lemma demand_Inr [simp]: "demand ok m k = Inr x \<longleftrightarrow> ok \<and> k = Inr x"
  by (simp add: demand_def)

lemma rd_bind_Inr: "rd_bind m k = Inr x \<longleftrightarrow> (\<exists>v r. m = Inr (v, r) \<and> k v r = Inr x)"
  by (auto simp: rd_bind_def split: sum.splits)

lemma as_encoding_error_Inr [simp]: "as_encoding_error m r = Inr x \<longleftrightarrow> r = Inr x"
  by (auto simp: as_encoding_error_def split: sum.splits)

section \<open>Exactness\<close>

text \<open>The bytes of a security-key signature and of a public key, field by field.\<close>

definition inner_bytes :: "string \<Rightarrow> string \<Rightarrow> char \<Rightarrow> nat \<Rightarrow> string" where
  "inner_bytes alg raw flags counter = enc_string alg @ enc_string raw @ [flags] @ be_bytes 4 counter"

definition sshsig_bytes :: "string \<Rightarrow> string \<Rightarrow> string \<Rightarrow> string" where
  "sshsig_bytes blob hash inner =
     ''SSHSIG'' @ be_bytes 4 1 @ enc_string blob @ enc_string NAMESPACE @ enc_string [] @ enc_string hash @ enc_string inner"

definition key_bytes :: "string \<Rightarrow> string \<Rightarrow> string" where
  "key_bytes alg k =
     enc_string alg @ (if alg = ED25519_SK then [] else enc_string ''nistp256'') @ enc_string k @ enc_string APPLICATION"

lemma then_done:
  "rd_ok r \<Longrightarrow> (case rd_done r of Inl e \<Rightarrow> Inl e | Inr _ \<Rightarrow> k) = Inr x \<longleftrightarrow> rd_rest r = [] \<and> k = Inr x"
  using rd_done_iff [of r] by (cases "rd_done r") auto

lemma short_strings:
  "alg \<in> set KEY_TYPES \<Longrightarrow> length alg < 4294967296" "length NAMESPACE < 4294967296" "length APPLICATION < 4294967296"
  "hash \<in> {''sha256'', ''sha512''} \<Longrightarrow> length hash < 4294967296"
  by (auto simp: KEY_TYPES_def ED25519_SK_def NAMESPACE_def APPLICATION_def)

lemma inspect_inner_exact:
  "inspect_inner data = Inr () \<longleftrightarrow>
     (\<exists>alg raw flags counter. data = inner_bytes alg raw flags counter \<and> alg \<in> set KEY_TYPES \<and> length raw < 4294967296
        \<and> counter < 4294967296 \<and> code flags AND 5 = 5)"
proof
  assume "inspect_inner data = Inr ()"
  then obtain alg r1 raw r2 fl r3 n r4 where
    s: "rd_string (new_reader data) = Inr (alg, r1)" "rd_string r1 = Inr (raw, r2)" "rd_take 1 r2 = Inr (fl, r3)" "rd_uint r3 = Inr (n, r4)"
    and k: "alg \<in> set KEY_TYPES"
    and f: "(case rd_done r4 of Inl e \<Rightarrow> Inl e | Inr _ \<Rightarrow> demand (code (hd fl) AND 5 = 5) ''both user presence and user verification are required'' (Inr ())) = Inr ()"
    unfolding inspect_inner_def rd_bind_Inr demand_Inr by blast
  note a = rd_string_Inr [OF new_reader_rest(1) s(1)]
  then have "rd_ok r1" by blast
  note b = rd_string_Inr [OF this s(2)]
  then have "rd_ok r2" by blast
  note c = rd_take_Inr [OF this s(3)]
  then have "rd_ok r3" by blast
  note d = rd_uint_Inr [OF this s(4)]
  then have "rd_ok r4" by blast
  from f [unfolded then_done [OF this]] have "rd_rest r4 = []" "code (hd fl) AND 5 = 5" by simp_all
  moreover obtain x where "fl = [x]" using c by (cases fl) auto
  ultimately show "\<exists>alg raw flags counter. data = inner_bytes alg raw flags counter \<and> alg \<in> set KEY_TYPES \<and> length raw < 4294967296
      \<and> counter < 4294967296 \<and> code flags AND 5 = 5"
    using a b c d k by (intro exI [of _ alg] exI [of _ raw] exI [of _ x] exI [of _ "nat n"]) (simp add: inner_bytes_def nat_less_iff)
next
  assume "\<exists>alg raw flags counter. data = inner_bytes alg raw flags counter \<and> alg \<in> set KEY_TYPES \<and> length raw < 4294967296
      \<and> counter < 4294967296 \<and> code flags AND 5 = 5"
  then obtain alg raw x n where d: "data = inner_bytes alg raw x n" and k: "alg \<in> set KEY_TYPES" "length raw < 4294967296" "n < 4294967296" "code x AND 5 = 5"
    by blast
  from rd_string_yields [OF new_reader_rest(1) _ short_strings(1) [OF k(1)]] d
  obtain r1 where 1: "rd_string (new_reader data) = Inr (alg, r1)" "rd_ok r1" "rd_rest r1 = enc_string raw @ [x] @ be_bytes 4 n"
    by (auto simp: yields_def inner_bytes_def)
  from rd_string_yields [OF 1(2,3) k(2)] obtain r2 where 2: "rd_string r1 = Inr (raw, r2)" "rd_ok r2" "rd_rest r2 = [x] @ be_bytes 4 n"
    by (auto simp: yields_def)
  from rd_take_yields [OF 2(2,3)] obtain r3 where 3: "rd_take 1 r2 = Inr ([x], r3)" "rd_ok r3" "rd_rest r3 = be_bytes 4 n" by (auto simp: yields_def)
  from rd_uint_yields [OF 3(2) _ k(3), of "[]"] 3(3) obtain r4 where 4: "rd_uint r3 = Inr (int n, r4)" "rd_ok r4" "rd_rest r4 = []" by (auto simp: yields_def)
  show "inspect_inner data = Inr ()"
    using k 1(1) 2(1) 3(1) 4(1) rd_done_iff [OF 4(2)] 4(3) by (simp add: inspect_inner_def rd_bind_def demand_def)
qed

text \<open>Reading a string, once more, as a rule that is applied field by field.\<close>

lemma read_field:
  assumes "rd_ok r" and "rd_string r = Inr (s, r')"
  obtains "length s < 4294967296" "rd_rest r = enc_string s @ rd_rest r'" "rd_ok r'"
  using rd_string_Inr [OF assms] by blast

lemma feed_field:
  assumes "rd_ok r" and "rd_rest r = enc_string s @ t" and "length s < 4294967296"
  obtains r' where "rd_string r = Inr (s, r')" "rd_ok r'" "rd_rest r' = t"
  using rd_string_yields [OF assms] by (auto simp: yields_def)

lemma inspect_blob_sound:
  assumes "inspect_blob data blob = Inr ()"
  shows "\<exists>hash inner. data = sshsig_bytes blob hash inner \<and> hash \<in> {''sha256'', ''sha512''} \<and> length blob < 4294967296
    \<and> length inner < 4294967296 \<and> inspect_inner inner = Inr ()"
proof -
  from assms obtain r1 r2 r3 r4 r5 hash r6 inner r7 where
    s: "rd_take 6 (new_reader data) = Inr (''SSHSIG'', r1)" "rd_uint r1 = Inr (1, r2)" "rd_string r2 = Inr (blob, r3)"
      "rd_string r3 = Inr (NAMESPACE, r4)" "rd_string r4 = Inr ([], r5)" "rd_string r5 = Inr (hash, r6)" "rd_string r6 = Inr (inner, r7)"
    and h: "hash \<in> {''sha256'', ''sha512''}" and d: "(case rd_done r7 of Inl e \<Rightarrow> Inl e | Inr _ \<Rightarrow> inspect_inner inner) = Inr ()"
    unfolding inspect_blob_def rd_bind_Inr demand_Inr by blast
  note a = rd_take_Inr [OF new_reader_rest(1) s(1)]
  then have ok1: "rd_ok r1" by blast
  note b = rd_uint_Inr [OF ok1 s(2)]
  then have ok2: "rd_ok r2" by blast
  obtain c: "length blob < 4294967296" "rd_rest r2 = enc_string blob @ rd_rest r3" and ok3: "rd_ok r3" using ok2 s(3) by (rule read_field)
  obtain d1: "rd_rest r3 = enc_string NAMESPACE @ rd_rest r4" and ok4: "rd_ok r4" using ok3 s(4) by (rule read_field)
  obtain e: "rd_rest r4 = enc_string [] @ rd_rest r5" and ok5: "rd_ok r5" using ok4 s(5) by (rule read_field)
  obtain f: "rd_rest r5 = enc_string hash @ rd_rest r6" and ok6: "rd_ok r6" using ok5 s(6) by (rule read_field)
  obtain g: "length inner < 4294967296" "rd_rest r6 = enc_string inner @ rd_rest r7" and ok7: "rd_ok r7" using ok6 s(7) by (rule read_field)
  from d [unfolded then_done [OF ok7]] have "rd_rest r7 = []" "inspect_inner inner = Inr ()" by simp_all
  with a b c d1 e f g h show ?thesis by (auto simp: sshsig_bytes_def)
qed

lemma inspect_blob_complete:
  assumes "hash \<in> {''sha256'', ''sha512''}" "length blob < 4294967296" "length inner < 4294967296" "inspect_inner inner = Inr ()"
  shows "inspect_blob (sshsig_bytes blob hash inner) blob = Inr ()"
proof -
  let ?d = "sshsig_bytes blob hash inner"
  have "rd_rest (new_reader ?d) = ''SSHSIG'' @ drop 6 ?d" by (simp add: sshsig_bytes_def)
  from rd_take_yields [OF new_reader_rest(1) this]
  obtain r1 where 1: "rd_take 6 (new_reader ?d) = Inr (''SSHSIG'', r1)" "rd_ok r1" "rd_rest r1 = drop 6 ?d" by (auto simp: yields_def)
  then have "rd_rest r1 = be_bytes 4 1 @ drop 10 ?d" by (simp add: sshsig_bytes_def)
  from rd_uint_yields [OF 1(2) this] obtain r2 where 2: "rd_uint r1 = Inr (1, r2)" "rd_ok r2" "rd_rest r2 = drop 10 ?d" by (auto simp: yields_def)
  then have "rd_rest r2 = enc_string blob @ enc_string NAMESPACE @ enc_string [] @ enc_string hash @ enc_string inner" by (simp add: sshsig_bytes_def)
  from feed_field [OF 2(2) this assms(2)] obtain r3 where 3: "rd_string r2 = Inr (blob, r3)" "rd_ok r3"
    "rd_rest r3 = enc_string NAMESPACE @ enc_string [] @ enc_string hash @ enc_string inner" by blast
  from feed_field [OF 3(2,3) short_strings(2)] obtain r4 where 4: "rd_string r3 = Inr (NAMESPACE, r4)" "rd_ok r4"
    "rd_rest r4 = enc_string [] @ enc_string hash @ enc_string inner" by blast
  from feed_field [OF 4(2,3)] obtain r5 where 5: "rd_string r4 = Inr ([], r5)" "rd_ok r5" "rd_rest r5 = enc_string hash @ enc_string inner" by auto
  from feed_field [OF 5(2,3) short_strings(4) [OF assms(1)]] obtain r6 where 6: "rd_string r5 = Inr (hash, r6)" "rd_ok r6" "rd_rest r6 = enc_string inner" by blast
  from feed_field [OF 6(2) _ assms(3), of "[]"] 6(3) obtain r7 where 7: "rd_string r6 = Inr (inner, r7)" "rd_ok r7" "rd_rest r7 = []" by auto
  show ?thesis
    using assms 1(1) 2(1) 3(1) 4(1) 5(1) 6(1) 7(1) rd_done_iff [OF 7(2)] 7(3) by (simp add: inspect_blob_def rd_bind_def demand_def)
qed

lemma key_blob_sound:
  assumes "key_blob alg blob = Inr b"
  shows "b = blob \<and> (\<exists>k. blob = key_bytes alg k \<and> length k = (if alg = ED25519_SK then 32 else 65))"
proof -
  from assms obtain r1 r2 r3 where s: "rd_string (new_reader blob) = Inr (alg, r1)" "rd_string r2 = Inr (APPLICATION, r3)"
    and k: "key_material alg r1 = Inr ((), r2)"
    and d: "(case rd_done r3 of Inl e \<Rightarrow> Inl e | Inr _ \<Rightarrow> Inr blob) = Inr b"
    unfolding key_blob_def rd_bind_Inr demand_Inr by auto
  obtain a: "blob = enc_string alg @ rd_rest r1" and ok1: "rd_ok r1" by (rule read_field [OF new_reader_rest(1) s(1)]) simp
  have "\<exists>k. length k = (if alg = ED25519_SK then 32 else 65) \<and> rd_ok r2
      \<and> rd_rest r1 = (if alg = ED25519_SK then [] else enc_string ''nistp256'') @ enc_string k @ rd_rest r2"
  proof (cases "alg = ED25519_SK")
    case True
    with k obtain w where w: "rd_string r1 = Inr (w, r2)" "length w = 32" by (auto simp: key_material_def rd_bind_Inr)
    with rd_string_Inr [OF ok1 w(1)] True show ?thesis by auto
  next
    case False
    with k obtain w r where w: "rd_string r1 = Inr (''nistp256'', r)" "rd_string r = Inr (w, r2)" "length w = 65" by (auto simp: key_material_def rd_bind_Inr)
    with rd_string_Inr [OF ok1 w(1)] rd_string_Inr [OF _ w(2)] False show ?thesis by auto
  qed
  then obtain w where w: "length w = (if alg = ED25519_SK then 32 else 65)" "rd_ok r2"
    "rd_rest r1 = (if alg = ED25519_SK then [] else enc_string ''nistp256'') @ enc_string w @ rd_rest r2" by blast
  obtain e: "rd_rest r2 = enc_string APPLICATION @ rd_rest r3" and ok3: "rd_ok r3" by (rule read_field [OF w(2) s(2)])
  from d [unfolded then_done [OF ok3]] a w e show ?thesis by (auto simp: key_bytes_def)
qed

text \<open>The parser of an enrolled key accepts what it encodes.\<close>

lemma key_blob_complete:
  assumes "alg \<in> set KEY_TYPES" and "length k = (if alg = ED25519_SK then 32 else 65)"
  shows "key_blob alg (key_bytes alg k) = Inr (key_bytes alg k)"
proof -
  have k: "length k < 4294967296" using assms(2) by (simp split: if_splits)
  let ?mid = "(if alg = ED25519_SK then [] else enc_string ''nistp256'') @ enc_string k @ enc_string APPLICATION"
  have "rd_rest (new_reader (key_bytes alg k)) = enc_string alg @ ?mid" by (simp add: key_bytes_def)
  from feed_field [OF new_reader_rest(1) this short_strings(1) [OF assms(1)]]
  obtain r1 where 1: "rd_string (new_reader (key_bytes alg k)) = Inr (alg, r1)" "rd_ok r1" "rd_rest r1 = ?mid" by blast
  obtain r2 where 2: "key_material alg r1 = Inr ((), r2)" "rd_ok r2" "rd_rest r2 = enc_string APPLICATION"
  proof (cases "alg = ED25519_SK")
    case True
    with 1(3) have "rd_rest r1 = enc_string k @ enc_string APPLICATION" by simp
    from feed_field [OF 1(2) this k] obtain r where "rd_string r1 = Inr (k, r)" "rd_ok r" "rd_rest r = enc_string APPLICATION" .
    with True assms(2) show thesis by (intro that [of r]) (simp_all add: key_material_def rd_bind_def demand_def)
  next
    case False
    with 1(3) have "rd_rest r1 = enc_string ''nistp256'' @ enc_string k @ enc_string APPLICATION" by simp
    from feed_field [OF 1(2) this] obtain q where q: "rd_string r1 = Inr (''nistp256'', q)" "rd_ok q" "rd_rest q = enc_string k @ enc_string APPLICATION" by auto
    from feed_field [OF q(2,3) k] obtain r where "rd_string q = Inr (k, r)" "rd_ok r" "rd_rest r = enc_string APPLICATION" .
    with False q(1) assms(2) show thesis by (intro that [of r]) (simp_all add: key_material_def rd_bind_def demand_def)
  qed
  from feed_field [OF 2(2) _ short_strings(3), of "[]"] 2(3) obtain r3 where 3: "rd_string r2 = Inr (APPLICATION, r3)" "rd_ok r3" "rd_rest r3 = []" by auto
  show ?thesis using 1(1) 2(1) 3(1) rd_done_iff [OF 3(2)] 3(3) by (simp add: key_blob_def rd_bind_def demand_def)
qed

text \<open>The enrolled keys: what \<open>validate_public_key\<close> accepts.\<close>

definition enrolled_key :: "string \<Rightarrow> string \<Rightarrow> bool" where
  "enrolled_key public_key blob \<longleftrightarrow>
     py_len public_key \<le> 4096 \<and> (\<exists>alg body k. py_words public_key = [alg, body] \<and> alg \<in> set KEY_TYPES \<and> ascii_text body
       \<and> b64decode body = Inr blob \<and> blob = key_bytes alg k \<and> length k = (if alg = ED25519_SK then 32 else 65))"

lemma key_types_ascii: "list_all ascii_text KEY_TYPES"
  by code_simp

lemma validate_public_key_exact: "validate_public_key public_key = Inr blob \<longleftrightarrow> enrolled_key public_key blob"
proof
  assume "validate_public_key public_key = Inr blob"
  then obtain alg body raw where w: "py_words public_key = [alg, body]" "py_len public_key \<le> 4096" "alg \<in> set KEY_TYPES" "ascii_text body"
    "b64decode body = Inr raw" "key_blob alg raw = Inr blob"
    by (auto simp: validate_public_key_def split: list.splits if_splits sum.splits)
  with key_blob_sound [OF w(6)] show "enrolled_key public_key blob" by (auto simp: enrolled_key_def)
next
  assume "enrolled_key public_key blob"
  then obtain alg body k where w: "py_words public_key = [alg, body]" "py_len public_key \<le> 4096" "alg \<in> set KEY_TYPES" "ascii_text body"
    "b64decode body = Inr blob" "blob = key_bytes alg k" "length k = (if alg = ED25519_SK then 32 else 65)" by (auto simp: enrolled_key_def)
  moreover have "ascii_text alg" using w(3) key_types_ascii by (simp add: list_all_iff)
  ultimately show "validate_public_key public_key = Inr blob"
    using key_blob_complete [OF w(3,7)] by (simp add: validate_public_key_def)
qed

text \<open>
  C39. What counts as a signature of an enrolled security key. A signature is accepted for a key if and only if it is at most 16384
  bytes, an armour of Base64 text, and what that decodes to is, byte for byte and with nothing left over, the encoding of an SSH
  signature of that key in the namespace of approvals, by a security-key algorithm, whose flags include both user presence and user
  verification.
\<close>

theorem inspect_signature_exact:
  "inspect_signature signature blob = Inr () \<longleftrightarrow>
     length signature \<le> 16384
     \<and> (\<exists>hash alg raw flags counter.
          armour_body signature = Inr (sshsig_bytes blob hash (inner_bytes alg raw flags counter))
          \<and> hash \<in> {''sha256'', ''sha512''} \<and> alg \<in> set KEY_TYPES \<and> counter < 4294967296 \<and> code flags AND 5 = 5
          \<and> length blob < 4294967296 \<and> length raw < 4294967296 \<and> length (inner_bytes alg raw flags counter) < 4294967296)"
proof
  assume "inspect_signature signature blob = Inr ()"
  then obtain data where d: "length signature \<le> 16384" "armour_body signature = Inr data" "inspect_blob data blob = Inr ()"
    by (auto simp: inspect_signature_def split: if_splits sum.splits)
  from inspect_blob_sound [OF d(3)] obtain hash inner where "data = sshsig_bytes blob hash inner" "hash \<in> {''sha256'', ''sha512''}"
    "length blob < 4294967296" "length inner < 4294967296" "inspect_inner inner = Inr ()" by blast
  with d(1,2) show "length signature \<le> 16384
     \<and> (\<exists>hash alg raw flags counter.
          armour_body signature = Inr (sshsig_bytes blob hash (inner_bytes alg raw flags counter))
          \<and> hash \<in> {''sha256'', ''sha512''} \<and> alg \<in> set KEY_TYPES \<and> counter < 4294967296 \<and> code flags AND 5 = 5
          \<and> length blob < 4294967296 \<and> length raw < 4294967296 \<and> length (inner_bytes alg raw flags counter) < 4294967296)"
    unfolding inspect_inner_exact by blast
next
  assume "length signature \<le> 16384
     \<and> (\<exists>hash alg raw flags counter.
          armour_body signature = Inr (sshsig_bytes blob hash (inner_bytes alg raw flags counter))
          \<and> hash \<in> {''sha256'', ''sha512''} \<and> alg \<in> set KEY_TYPES \<and> counter < 4294967296 \<and> code flags AND 5 = 5
          \<and> length blob < 4294967296 \<and> length raw < 4294967296 \<and> length (inner_bytes alg raw flags counter) < 4294967296)"
  then obtain hash inner where "length signature \<le> 16384" "armour_body signature = Inr (sshsig_bytes blob hash inner)"
    "hash \<in> {''sha256'', ''sha512''}" "length blob < 4294967296" "length inner < 4294967296" "inspect_inner inner = Inr ()"
    unfolding inspect_inner_exact by blast
  with inspect_blob_complete [OF this(3-6)] show "inspect_signature signature blob = Inr ()" by (simp add: inspect_signature_def)
qed

section \<open>Approvals under an SSH key\<close>

lemma verify_hardware_signature_Inr:
  "verify_hardware_signature kg message signature public_key = Inr () \<longleftrightarrow>
     (\<exists>blob. validate_public_key public_key = Inr blob \<and> inspect_signature signature blob = Inr ()
        \<and> kg_write kg (signers_file public_key) signature = Inr () \<and> kg_run kg (signers_file public_key) signature message = Exit_Status 0)"
  by (auto simp: verify_hardware_signature_def split: sum.splits keygen_run.splits if_splits)

text \<open>
  C14. An approval consumed under an SSH key was given by a person at the enrolled authenticator. When the gate checks signatures with
  \<open>verify_hardware_signature\<close> and a consumption succeeds under a credential that is an SSH key, then the key is a security key for
  BULL approvals, the proof decodes to a signature of exactly that key with user presence and user verification, and
  \<open>ssh-keygen\<close> accepted it on the message stored for the request, with that key as the only signer.
\<close>

theorem ssh_approval_present_and_verified:
  assumes "ag_ssh g = verify_hardware_signature kg"
    and "consume L g now rid binding (Some pr) (db, w) = (Inr x, db', w')"
    and "dict_get (ac_credentials (ag_config g)) (pr_credential_id pr) = Some (SshKey k)"
  shows "\<exists>row blob hash alg raw flags counter.
    dict_get (db_rows db) x = Some row \<and> ar_state row = ''pending'' \<and> enrolled_key k blob
    \<and> armour_body (pr_signature pr) = Inr (sshsig_bytes blob hash (inner_bytes alg raw flags counter))
    \<and> alg \<in> set KEY_TYPES \<and> code flags AND 5 = 5
    \<and> kg_run kg (signers_file k) (pr_signature pr) (ar_message row) = Exit_Status 0"
proof -
  from consume_Inr [OF assms(2)] obtain ck where ck: "consume_check L g binding pr db = Inr ck" "consume_tx L g now ck db = Inr (False, db')"
    "x = ck_request_id ck" by auto
  from consume_check_Inr [OF ck(1)] assms(3) obtain row where row: "dict_get (db_rows db) (pr_request_id pr) = Some row"
    "ck_request_id ck = pr_request_id pr" "ag_ssh g (ar_message row) (pr_signature pr) k = Inr ()" by auto
  from consume_tx_Inr [OF ck(2)] row(1,2) have "ar_state row = ''pending''" by auto
  moreover from row(3) [unfolded assms(1) verify_hardware_signature_Inr] obtain blob where b: "validate_public_key k = Inr blob"
    "inspect_signature (pr_signature pr) blob = Inr ()" "kg_run kg (signers_file k) (pr_signature pr) (ar_message row) = Exit_Status 0" by blast
  moreover from b(2) obtain data where d: "armour_body (pr_signature pr) = Inr data" "inspect_blob data blob = Inr ()"
    by (auto simp: inspect_signature_def split: if_splits sum.splits)
  moreover from inspect_blob_sound [OF d(2)] obtain hash inner where i: "data = sshsig_bytes blob hash inner" "inspect_inner inner = Inr ()" by blast
  moreover from i(2) [unfolded inspect_inner_exact] obtain alg raw flags counter where
    "inner = inner_bytes alg raw flags counter" "alg \<in> set KEY_TYPES" "code flags AND 5 = 5" by blast
  ultimately show ?thesis using row(1,2) ck(3) unfolding validate_public_key_exact by metis
qed

text \<open>A key, a signature of it with flags 5, and the same with user presence only.\<close>

definition demo_key :: string where
  "demo_key = ''sk-ssh-ed25519@openssh.com AAAAGnNrLXNzaC1lZDI1NTE5QG9wZW5zc2guY29tAAAAIAAAAAAAAAAAAAAAAAA'' @
     ''AAAAAAAAAAAAAAAAAAAAAAAAAAAAAEXNzaDpidWxsLWFwcHJvdmFs''"

definition demo_armour :: "string \<Rightarrow> string" where
  "demo_armour body = ''-----BEGIN SSH SIGNATURE-----'' @ [char_of (10::nat)] @ body @ [char_of (10::nat)] @ ''-----END SSH SIGNATURE-----'' @ [char_of (10::nat)]"

definition demo_verified :: string where
  "demo_verified = demo_armour
     (''U1NIU0lHAAAAAQAAAFcAAAAac2stc3NoLWVkMjU1MTlAb3BlbnNzaC5jb20AAAAgAAAAAAAAAAAAAAAAAAAAAAAAAA'' @
      ''AAAAAAAAAAAAAAAAAAAAARc3NoOmJ1bGwtYXBwcm92YWwAAAAcYnVsbC1jb25zZXF1ZW50aWFsLWFjdGlvbi12MQAA'' @
      ''AAAAAAAGc2hhNTEyAAAAJwAAABpzay1zc2gtZWQyNTUxOUBvcGVuc3NoLmNvbQAAAAAFAAAABw=='')"

definition demo_presence_only :: string where
  "demo_presence_only = demo_armour
     (''U1NIU0lHAAAAAQAAAFcAAAAac2stc3NoLWVkMjU1MTlAb3BlbnNzaC5jb20AAAAgAAAAAAAAAAAAAAAAAAAAAAAAAA'' @
      ''AAAAAAAAAAAAAAAAAAAAARc3NoOmJ1bGwtYXBwcm92YWwAAAAcYnVsbC1jb25zZXF1ZW50aWFsLWFjdGlvbi12MQAA'' @
      ''AAAAAAAGc2hhNTEyAAAAJwAAABpzay1zc2gtZWQyNTUxOUBvcGVuc3NoLmNvbQAAAAABAAAABw=='')"

definition demo_keygen :: keygen where
  "demo_keygen = \<lparr>kg_write = (\<lambda>signers sg. Inr ()), kg_run = (\<lambda>signers sg m. Exit_Status 0)\<rparr>"

lemma demo_verified_accepted: "verify_hardware_signature demo_keygen ''m'' demo_verified demo_key = Inr ()"
  by code_simp

lemma demo_presence_only_refused:
  "verify_hardware_signature demo_keygen ''m'' demo_presence_only demo_key = approval_error ''both user presence and user verification are required''"
  by code_simp

definition ssh_gate :: "unit approval_env" where
  "ssh_gate = demo_gate\<lparr>ag_config := \<lparr>ac_credentials = [(''alice'', SshKey demo_key)], ac_routine_urls = [], ac_ttl = 60\<rparr>,
     ag_ssh := verify_hardware_signature demo_keygen\<rparr>"

theorem ssh_approval_present_and_verified_witness:
  "fst (consume plain_lib ssh_gate 6 ''r2'' demo_binding (Some (demo_proof\<lparr>pr_signature := demo_verified\<rparr>)) (demo_pending, ())) = Inr ''r1''
   \<and> (\<exists>row blob hash alg raw flags counter. dict_get (db_rows demo_pending) ''r1'' = Some row \<and> enrolled_key demo_key blob
        \<and> armour_body demo_verified = Inr (sshsig_bytes blob hash (inner_bytes alg raw flags counter)) \<and> code flags AND 5 = 5)"
proof
  show c: "fst (consume plain_lib ssh_gate 6 ''r2'' demo_binding (Some (demo_proof\<lparr>pr_signature := demo_verified\<rparr>)) (demo_pending, ())) = Inr ''r1''"
    by code_simp
  then obtain db' w' where "consume plain_lib ssh_gate 6 ''r2'' demo_binding (Some (demo_proof\<lparr>pr_signature := demo_verified\<rparr>)) (demo_pending, ())
      = (Inr ''r1'', db', w')" by (metis prod.collapse)
  note run = this
  let ?pr = "demo_proof\<lparr>pr_signature := demo_verified\<rparr>"
  have gate: "ag_ssh ssh_gate = verify_hardware_signature demo_keygen" by (simp add: ssh_gate_def)
  have key: "dict_get (ac_credentials (ag_config ssh_gate)) (pr_credential_id ?pr) = Some (SshKey demo_key)" by (simp add: ssh_gate_def demo_proof_def)
  have sg: "pr_signature ?pr = demo_verified" by simp
  from ssh_approval_present_and_verified [OF gate run key, unfolded sg]
  show "\<exists>row blob hash alg raw flags counter. dict_get (db_rows demo_pending) ''r1'' = Some row \<and> enrolled_key demo_key blob
        \<and> armour_body demo_verified = Inr (sshsig_bytes blob hash (inner_bytes alg raw flags counter)) \<and> code flags AND 5 = 5"
    by blast
qed

end
