(* ===== verification/Policy_Bundle.thy ===== *)
theory Policy_Bundle
  imports Approval_Crypto Audit_Ledger
begin

text \<open>
  What a deployment signs: the policy bundle, \<^verbatim>\<open>src/bulldog/policy_bundle.py\<close>, with the approval
  configuration it carries (\<open>validate_config\<close> of \<^verbatim>\<open>src/bulldog/approval.py\<close>, \<open>validate_credential\<close> of
  \<^verbatim>\<open>src/bulldog/hardware_approval/provider.py\<close>), and the integrity manifest of the package,
  \<^verbatim>\<open>src/bulldog/integrity.py\<close>.

  Payloads are JSON objects as \<open>json.loads\<close> returns them. Files are the argument \<open>files\<close>, which gives the
  contents of a file of the package or None; the platform string is an argument. A key given as
  text is its UTF-8 encoding, so both kinds of key are strings of bytes.

  The theorems show that a signed bundle verifies to exactly the authority it was signed for, that a
  verified bundle is authentic and well-formed, and that a verified manifest pins every critical file.
\<close>

section \<open>The approval configuration\<close>

definition KIND :: string where
  "KIND = ''bull-hardware-p256-v1''"

text \<open>\<open>re.fullmatch\<close> of a bounded repetition of a character class.\<close>

definition hex_text :: "nat \<Rightarrow> string \<Rightarrow> bool" where
  "hex_text n s \<longleftrightarrow> length s = n \<and> list_all (\<lambda>c. c \<in> set ''0123456789abcdef'') s"

definition label_text :: "string \<Rightarrow> string \<Rightarrow> bool" where
  "label_text extra s \<longleftrightarrow> 1 \<le> length s \<and> length s \<le> 128 \<and> list_all (\<lambda>c. is_alpha c \<or> is_digit c \<or> c \<in> set extra) s"

definition json_text :: "(string \<Rightarrow> bool) \<Rightarrow> json \<Rightarrow> bool" where
  "json_text P j \<longleftrightarrow> (case j of JStr s \<Rightarrow> P s | _ \<Rightarrow> False)"

definition json_fields :: "json \<Rightarrow> string list \<Rightarrow> bool" where
  "json_fields j names \<longleftrightarrow> (case j of JObj d \<Rightarrow> fst ` set d = set names | _ \<Rightarrow> False)"

definition jfield :: "json \<Rightarrow> string \<Rightarrow> json" where
  "jfield j k = (case j of JObj d \<Rightarrow> jget d k | _ \<Rightarrow> JNull)"

definition text_value :: "json \<Rightarrow> string" where
  "text_value j = (case j of JStr s \<Rightarrow> s | _ \<Rightarrow> [])"

definition validate_credential :: "ec_lib \<Rightarrow> json \<Rightarrow> json res" where
  "validate_credential E v =
     (if \<not> json_fields v [''type'', ''protocol'', ''device_id'', ''public_key'', ''enabled'', ''provisioning'']
        then approval_error ''invalid hardware enrollment fields''
      else if jfield v ''type'' \<noteq> JStr KIND \<or> jfield v ''protocol'' \<noteq> JStr ''BULL-AUTH-1'' \<or> jfield v ''enabled'' \<notin> {JBool True, JBool False}
        then approval_error ''unsupported hardware enrollment''
      else if \<not> json_text (hex_text 64) (jfield v ''device_id'') then approval_error ''invalid hardware device_id''
      else if \<not> json_text (hex_text 130) (jfield v ''public_key'') then approval_error ''invalid hardware public_key''
      else let p = jfield v ''provisioning'' in
        if \<not> json_fields p [''part'', ''serial'', ''config_sha256'', ''firmware_sha256'', ''key_origin'']
          then approval_error ''hardware provisioning evidence required''
        else if jfield p ''key_origin'' \<noteq> JStr ''secure-element-generated''
          then approval_error ''hardware key must be generated inside the secure element''
        else if \<not> json_text (label_text ''_.:-'') (jfield p ''part'') then approval_error ''invalid secure-element part''
        else if \<not> json_text (label_text ''_.:-'') (jfield p ''serial'') then approval_error ''invalid secure-element serial''
        else if \<not> json_text (hex_text 64) (jfield p ''config_sha256'') \<or> \<not> json_text (hex_text 64) (jfield p ''firmware_sha256'')
          then approval_error ''invalid provisioning fingerprint''
        else case fromhex (text_value (jfield v ''public_key'')) of
            Inl e \<Rightarrow> approval_error ''P-256 verifier unavailable or enrolled public key invalid''
          | Inr point \<Rightarrow> if ec_point E point then Inr v else approval_error ''P-256 verifier unavailable or enrolled public key invalid'')"

text \<open>One enrolled credential: an identity with a security-key line or a hardware enrolment.\<close>

definition check_credential :: "ec_lib \<Rightarrow> int \<Rightarrow> string \<times> json \<Rightarrow> unit res" where
  "check_credential E ttl c =
     (if \<not> label_text ''_.@-'' (fst c) then approval_error ''invalid credential identity''
      else case snd c of
        JObj d \<Rightarrow> (case validate_credential E (JObj d) of
          Inl e \<Rightarrow> Inl e
        | Inr _ \<Rightarrow> if ttl \<noteq> 30 then approval_error ''custom hardware requires a 30-second lifetime'' else Inr ())
      | JStr k \<Rightarrow> (case validate_public_key k of Inl e \<Rightarrow> Inl e | Inr _ \<Rightarrow> Inr ())
      | _ \<Rightarrow> approval_error ''invalid enrolled key'')"

definition check_routine_url :: "pylib \<Rightarrow> json \<Rightarrow> unit res" where
  "check_routine_url L j =
     (if \<not> json_text (\<lambda>u. py_len u \<le> 4096) j then approval_error ''invalid routine URL''
      else let url = text_value j in
        if list_ex (\<lambda>c. code c \<le> 32 \<or> code c = 127) url then approval_error ''invalid routine URL characters''
        else case urlsplit L url of
          Inl e \<Rightarrow> Inl e
        | Inr u \<Rightarrow>
            if url_scheme u \<noteq> ''https'' \<or> \<not> opt_truthy (url_hostname L u) \<or> opt_truthy (url_username u) \<or> opt_truthy (url_password u)
               \<or> url_query u \<noteq> [] \<or> url_fragment u \<noteq> []
            then approval_error ''routine egress requires exact HTTPS URLs without query or fragment'' else Inr ())"

fun check_all :: "('a \<Rightarrow> unit res) \<Rightarrow> 'a list \<Rightarrow> unit res" where
  "check_all f [] = Inr ()"
| "check_all f (x # xs) = (case f x of Inl e \<Rightarrow> Inl e | Inr _ \<Rightarrow> check_all f xs)"

text \<open>\<open>validate_config\<close> returns its argument: a JSON value survives \<open>json.loads(json.dumps(...))\<close>.\<close>

definition validate_config :: "pylib \<Rightarrow> ec_lib \<Rightarrow> json \<Rightarrow> json res" where
  "validate_config L E config =
     (if \<not> json_fields config [''state_directory'', ''credentials'', ''routine_egress_urls'', ''ttl_seconds'']
        then approval_error ''invalid human_approval configuration fields''
      else case jfield config ''ttl_seconds'' of
        JInt ttl \<Rightarrow>
          if ttl < 30 \<or> ttl > 600 then approval_error ''approval lifetime must be 30..600 seconds''
          else if \<not> json_text (\<lambda>d. prefix ''/'' d) (jfield config ''state_directory'') then approval_error ''approval state directory must be absolute''
          else (case jfield config ''credentials'' of
            JObj cs \<Rightarrow>
              if length cs < 1 \<or> length cs > 32 then approval_error ''one to 32 enrolled credentials required''
              else (case check_all (check_credential E ttl) cs of
                Inl e \<Rightarrow> Inl e
              | Inr _ \<Rightarrow> (case jfield config ''routine_egress_urls'' of
                  JArr urls \<Rightarrow>
                    if length urls > 256 then approval_error ''routine egress list must be bounded''
                    else (case check_all (check_routine_url L) urls of Inl e \<Rightarrow> Inl e | Inr _ \<Rightarrow> Inr config)
                | _ \<Rightarrow> approval_error ''routine egress list must be bounded''))
          | _ \<Rightarrow> approval_error ''one to 32 enrolled credentials required'')
      | _ \<Rightarrow> approval_error ''approval lifetime must be 30..600 seconds'')"

section \<open>The bundle\<close>

record policy_bundle =
  pb_project_root :: string
  pb_ceiling :: "capability set"
  pb_key_id :: string
  pb_raw :: jobj

abbreviation bundle_error :: "string \<Rightarrow> 'a res" where
  "bundle_error m \<equiv> raise PolicyBundleError m"

definition unsigned :: "jobj \<Rightarrow> jobj" where
  "unsigned payload = filter (\<lambda>kv. fst kv \<noteq> ''signature'') payload"

definition bundle_bytes :: "pylib \<Rightarrow> jobj \<Rightarrow> string" where
  "bundle_bytes L payload = dumps_compact L (JObj (unsigned payload))"

definition signature_object :: "string \<Rightarrow> string \<Rightarrow> json" where
  "signature_object key_id v = JObj [(''type'', JStr ''hmac-sha256''), (''key_id'', JStr key_id), (''value'', JStr v)]"

fun capabilities_of :: "string list \<Rightarrow> capability list res" where
  "capabilities_of [] = Inr []"
| "capabilities_of (v # vs) =
     (case capability_of v of
        Inl e \<Rightarrow> Inl e
      | Inr c \<Rightarrow> (case capabilities_of vs of Inl e \<Rightarrow> Inl e | Inr cs \<Rightarrow> Inr (c # cs)))"

definition bundle_payload :: "string \<Rightarrow> string list \<Rightarrow> string \<Rightarrow> json option \<Rightarrow> string \<Rightarrow> jobj" where
  "bundle_payload project_root caps key_id human v =
     [(''format'', JStr ''bull-policy-v1''), (''project_root'', JStr project_root), (''allowed_capabilities'', JArr (map JStr caps)),
      (''signature'', signature_object key_id v)] @ (case human of None \<Rightarrow> [] | Some h \<Rightarrow> [(''human_approval'', h)])"

definition sign_policy_bundle ::
  "pylib \<Rightarrow> ec_lib \<Rightarrow> string \<Rightarrow> string list \<Rightarrow> string \<Rightarrow> string \<Rightarrow> json option \<Rightarrow> jobj res" where
  "sign_policy_bundle L E project_root allowed key key_id human_approval =
     (if key = [] then bundle_error ''policy signing key cannot be empty''
      else case capabilities_of allowed of
        Inl e \<Rightarrow> Inl e
      | Inr cs \<Rightarrow>
          let caps = sort (map capability_value cs) in
          case (case human_approval of None \<Rightarrow> Inr None | Some h \<Rightarrow> map_sum id Some (validate_config L E h)) of
            Inl e \<Rightarrow> Inl e
          | Inr human \<Rightarrow>
              Inr (bundle_payload project_root caps key_id human
                (hmac_hex L key (bundle_bytes L (bundle_payload project_root caps key_id human [])))))"

text \<open>Iterating a JSON value, and \<open>Capability(value)\<close> on its elements; every exception becomes the one error.\<close>

definition json_iter :: "json \<Rightarrow> json list res" where
  "json_iter j =
     (case j of
        JArr vs \<Rightarrow> Inr vs
      | JStr s \<Rightarrow> Inr (map (\<lambda>x. JStr (text_of [x])) (points s))
      | JObj d \<Rightarrow> Inr (map (JStr \<circ> fst) d)
      | _ \<Rightarrow> raise TypeError ''object is not iterable'')"

definition bundle_ceiling :: "json option \<Rightarrow> capability set res" where
  "bundle_ceiling j =
     (case (case j of None \<Rightarrow> Inr [] | Some v \<Rightarrow> json_iter v) of
        Inl e \<Rightarrow> bundle_error ''policy bundle contains invalid capability''
      | Inr vs \<Rightarrow>
          (case (if list_all (json_text (\<lambda>_. True)) vs then capabilities_of (map text_value vs) else raise ValueError ''not a valid Capability'') of
             Inl e \<Rightarrow> bundle_error ''policy bundle contains invalid capability''
           | Inr cs \<Rightarrow> Inr (set cs)))"

definition verify_policy_bundle :: "pylib \<Rightarrow> ec_lib \<Rightarrow> jobj \<Rightarrow> string \<Rightarrow> policy_bundle res" where
  "verify_policy_bundle L E payload key =
     (if key = [] then bundle_error ''policy verification key cannot be empty''
      else if jget payload ''format'' \<noteq> JStr ''bull-policy-v1'' then bundle_error ''unsupported policy bundle format''
      else case jget payload ''signature'' of
        JObj sig \<Rightarrow>
          if jget sig ''type'' \<noteq> JStr ''hmac-sha256'' then bundle_error ''unsupported policy signature type''
          else (case compare_digest (hmac_hex L key (bundle_bytes L payload)) (case dict_get sig ''value'' of None \<Rightarrow> [] | Some v \<Rightarrow> str_of_json L v) of
            Inl e \<Rightarrow> Inl e
          | Inr same \<Rightarrow>
              if \<not> same then bundle_error ''policy bundle signature mismatch''
              else let project_root = py_strip (case dict_get payload ''project_root'' of None \<Rightarrow> [] | Some v \<Rightarrow> str_of_json L v) in
                if \<not> prefix ''/'' project_root then bundle_error ''policy project root must be absolute''
                else (case bundle_ceiling (dict_get payload ''allowed_capabilities'') of
                  Inl e \<Rightarrow> Inl e
                | Inr caps \<Rightarrow>
                    if caps = {} then bundle_error ''policy capability ceiling cannot be empty''
                    else (case (case dict_get payload ''human_approval'' of None \<Rightarrow> Inr () | Some h \<Rightarrow> map_sum id (\<lambda>_. ()) (validate_config L E h)) of
                      Inl e \<Rightarrow> Inl e
                    | Inr _ \<Rightarrow>
                        Inr \<lparr>pb_project_root = project_root, pb_ceiling = caps,
                             pb_key_id = (case dict_get sig ''key_id'' of None \<Rightarrow> [] | Some v \<Rightarrow> str_of_json L v), pb_raw = payload\<rparr>)))
      | _ \<Rightarrow> bundle_error ''policy bundle is unsigned'')"

text \<open>\<open>load_policy_bundle\<close>: reading and parsing the file is the argument; a payload that is not an object has no \<open>get\<close>.\<close>

definition load_policy_bundle :: "pylib \<Rightarrow> ec_lib \<Rightarrow> json res \<Rightarrow> string \<Rightarrow> policy_bundle res" where
  "load_policy_bundle L E file key =
     (case file of
        Inl e \<Rightarrow> bundle_error (''unable to read policy bundle: '' @ snd e)
      | Inr (JObj payload) \<Rightarrow> verify_policy_bundle L E payload key
      | Inr _ \<Rightarrow> if key = [] then bundle_error ''policy verification key cannot be empty''
                  else raise AttributeError ''object has no attribute get'')"

section \<open>The integrity manifest\<close>

definition CRITICAL_FILES :: "string list" where
  "CRITICAL_FILES = [
    ''anchor_service.py'', ''approval.py'', ''approval_crypto.py'', ''approval_cli.py'', ''hardware_approval/__init__.py'',
    ''hardware_approval/protocol.py'', ''hardware_approval/provider.py'', ''hardware_approval/verifier.py'', ''models.py'',
    ''pinned_egress.py'', ''socket_hardening.py'', ''audit.py'', ''audit_transport.py'', ''canonicalizer.py'',
    ''cgroup_scope.py'', ''dispatcher.py'', ''egress_proxy.py'', ''engine.py'', ''filesystem_manifest.py'', ''host_certify.py'',
    ''guest_preflight.py'', ''guest_engine.py'', ''microvm_protocol.py'', ''integrity.py'', ''landlock_policy.py'',
    ''malware_scanner.py'', ''microvm.py'', ''microvm_image.py'', ''namespace_sandbox.py'', ''policy.py'', ''policy_bundle.py'',
    ''production_gate.py'', ''profiles.py'', ''resource_limits.py'', ''runtime.py'', ''seccomp_policy.py'', ''secret_broker.py'',
    ''secure_fs.py'', ''security_domain.py'', ''session_guard.py'', ''snapshot.py'', ''snapshot_worker.py'', ''trace_model.py'',
    ''trace_runtime.py'', ''workspace_limits.py'', ''_namespace_launcher.sh'']"

abbreviation integrity_error :: "string \<Rightarrow> 'a res" where
  "integrity_error m \<equiv> raise IntegrityViolation m"

fun critical_hashes :: "pylib \<Rightarrow> (string \<Rightarrow> string option) \<Rightarrow> string list \<Rightarrow> jobj res" where
  "critical_hashes L files [] = Inr []"
| "critical_hashes L files (name # names) =
     (case files name of
        None \<Rightarrow> integrity_error (''critical file missing: '' @ name)
      | Some contents \<Rightarrow>
          (case critical_hashes L files names of Inl e \<Rightarrow> Inl e | Inr rest \<Rightarrow> Inr ((name, JStr (sha256_hex L contents)) # rest)))"

definition build_integrity_manifest :: "pylib \<Rightarrow> (string \<Rightarrow> string option) \<Rightarrow> string \<Rightarrow> jobj res" where
  "build_integrity_manifest L files platform =
     map_sum id (\<lambda>hs. [(''format'', JStr ''bull-integrity-v2''), (''platform'', JStr platform), (''algorithm'', JStr ''sha256''), (''files'', JObj hs)])
       (critical_hashes L files CRITICAL_FILES)"

definition sign_integrity_manifest :: "pylib \<Rightarrow> jobj \<Rightarrow> string \<Rightarrow> string \<Rightarrow> jobj res" where
  "sign_integrity_manifest L manifest key key_id =
     (if key = [] then integrity_error ''integrity signing key cannot be empty''
      else Inr (dict_set ''signature'' (signature_object key_id (hmac_hex L key (bundle_bytes L manifest))) manifest))"

definition verify_manifest_signature :: "pylib \<Rightarrow> jobj \<Rightarrow> string \<Rightarrow> unit res" where
  "verify_manifest_signature L manifest key =
     (if key = [] then integrity_error ''integrity verification key cannot be empty''
      else case jget manifest ''signature'' of
        JObj sig \<Rightarrow>
          if jget sig ''type'' \<noteq> JStr ''hmac-sha256'' then integrity_error ''unsupported integrity signature type''
          else (case compare_digest (case dict_get sig ''value'' of None \<Rightarrow> [] | Some v \<Rightarrow> str_of_json L v) (hmac_hex L key (bundle_bytes L manifest)) of
            Inl e \<Rightarrow> Inl e
          | Inr same \<Rightarrow> if same then Inr () else integrity_error ''integrity manifest signature mismatch'')
      | _ \<Rightarrow> integrity_error ''integrity manifest is unsigned'')"

text \<open>Equality of two dictionaries of digests, without regard to order.\<close>

definition same_files :: "jobj \<Rightarrow> json \<Rightarrow> bool" where
  "same_files actual j \<longleftrightarrow>
     (case j of JObj d \<Rightarrow> length d = length actual \<and> list_all (\<lambda>(k, v). dict_get d k = Some v) actual | _ \<Rightarrow> False)"

definition verify_integrity_manifest ::
  "pylib \<Rightarrow> (string \<Rightarrow> string option) \<Rightarrow> string \<Rightarrow> jobj \<Rightarrow> string option \<Rightarrow> bool \<Rightarrow> unit res" where
  "verify_integrity_manifest L files platform manifest signature_key require_signature =
     (if jget manifest ''format'' \<notin> {JStr ''bull-integrity-v1'', JStr ''bull-integrity-v2''}
        then integrity_error ''unsupported integrity manifest format''
      else case (if require_signature
                 then (case signature_key of None \<Rightarrow> integrity_error ''signed integrity manifest requires a key''
                       | Some key \<Rightarrow> verify_manifest_signature L manifest key)
                 else (case signature_key of None \<Rightarrow> Inr ()
                       | Some key \<Rightarrow> if dict_get manifest ''signature'' \<noteq> None then verify_manifest_signature L manifest key else Inr ())) of
        Inl e \<Rightarrow> Inl e
      | Inr _ \<Rightarrow>
          (case build_integrity_manifest L files platform of
             Inl e \<Rightarrow> Inl e
           | Inr actual \<Rightarrow>
               (case jget actual ''files'' of
                  JObj hs \<Rightarrow>
                    if same_files hs (case dict_get manifest ''files'' of None \<Rightarrow> JObj [] | Some v \<Rightarrow> v) then Inr ()
                    else integrity_error ''trusted computing base hash mismatch''
                | _ \<Rightarrow> integrity_error ''trusted computing base hash mismatch'')))"

section \<open>What a bundle guarantees\<close>

lemma check_all_Inr: "check_all f xs = Inr () \<longleftrightarrow> list_all (\<lambda>x. f x = Inr ()) xs"
  by (induction xs) (auto split: sum.splits)

lemma capabilities_of_Inr: "capabilities_of vs = Inr cs \<longleftrightarrow> vs = map capability_value cs"
proof (induction vs arbitrary: cs)
  case Nil
  then show ?case by auto
next
  case (Cons v vs)
  show ?case
  proof
    assume "capabilities_of (v # vs) = Inr cs"
    then obtain c cs' where "capability_of v = Inr c" "capabilities_of vs = Inr cs'" "cs = c # cs'" by (auto split: sum.splits)
    with Cons.IH [of cs'] show "v # vs = map capability_value cs" by (simp add: capability_of_Inr)
  next
    assume "v # vs = map capability_value cs"
    then obtain c cs' where "cs = c # cs'" "v = capability_value c" "vs = map capability_value cs'" by (cases cs) auto
    with Cons.IH [of cs'] show "capabilities_of (v # vs) = Inr cs" by simp
  qed
qed

text \<open>Every credential of an accepted configuration is a key the approval gate may rely on.\<close>

lemma validate_config_Inr:
  assumes "validate_config L E config = Inr v"
  shows "v = config \<and> (\<exists>ttl cs. jfield config ''ttl_seconds'' = JInt ttl \<and> 30 \<le> ttl \<and> ttl \<le> 600
    \<and> jfield config ''credentials'' = JObj cs \<and> cs \<noteq> [] \<and> length cs \<le> 32
    \<and> list_all (\<lambda>(identity, k). label_text ''_.@-'' identity
        \<and> ((\<exists>s blob. k = JStr s \<and> enrolled_key s blob) \<or> ttl = 30 \<and> validate_credential E k = Inr k)) cs)"
proof -
  from assms obtain ttl cs where c: "jfield config ''ttl_seconds'' = JInt ttl" "30 \<le> ttl" "ttl \<le> 600" "jfield config ''credentials'' = JObj cs"
    "cs \<noteq> []" "length cs \<le> 32" "check_all (check_credential E ttl) cs = Inr ()" "v = config"
    by (auto simp: validate_config_def split: if_splits json.splits sum.splits)
  have "label_text ''_.@-'' identity \<and> ((\<exists>s blob. k = JStr s \<and> enrolled_key s blob) \<or> ttl = 30 \<and> validate_credential E k = Inr k)"
    if "check_credential E ttl (identity, k) = Inr ()" for identity k
  proof -
    have same: "validate_credential E k = Inr w \<Longrightarrow> w = k" for w by (auto simp: validate_credential_def Let_def split: if_splits sum.splits)
    show ?thesis
      using that same by (cases k) (auto simp: check_credential_def validate_public_key_exact [symmetric] split: if_splits sum.splits)
  qed
  with c show ?thesis by (auto simp: check_all_Inr list_all_iff)
qed

text \<open>Changing the value of the signature does not change what is signed.\<close>

lemma bundle_bytes_signature: "bundle_bytes L (bundle_payload r caps key_id human v) = bundle_bytes L (bundle_payload r caps key_id human v')"
  by (simp add: bundle_bytes_def unsigned_def bundle_payload_def)

lemma unsigned_set [simp]: "unsigned (dict_set ''signature'' v d) = unsigned d"
  unfolding unsigned_def by (induction d) auto

lemma hmac_ascii: "hex_digests L \<Longrightarrow> ascii_text (hmac_hex L k x)"
  by (simp add: hex_digests_def hex64_ascii)

lemma bundle_payload_get [simp]:
  "dict_get (bundle_payload r caps key_id human v) ''format'' = Some (JStr ''bull-policy-v1'')"
  "dict_get (bundle_payload r caps key_id human v) ''project_root'' = Some (JStr r)"
  "dict_get (bundle_payload r caps key_id human v) ''allowed_capabilities'' = Some (JArr (map JStr caps))"
  "dict_get (bundle_payload r caps key_id human v) ''signature'' = Some (signature_object key_id v)"
  "dict_get (bundle_payload r caps key_id human v) ''human_approval'' = human"
  by (simp_all add: bundle_payload_def split: option.split)

lemma sorted_values: "\<exists>ds. sort (map capability_value cs) = map capability_value ds \<and> set ds = set cs"
proof -
  have "\<forall>v\<in>set (sort (map capability_value cs)). \<exists>c. v = capability_value c" by auto
  then obtain ds where d: "sort (map capability_value cs) = map capability_value ds" unfolding ex_map_conv [symmetric] by blast
  have "capability_value ` set ds = capability_value ` set cs" using arg_cong [OF d, of set] by simp
  then have "set ds = set cs" by (simp add: inj_image_eq_iff inj_def)
  with d show ?thesis by blast
qed

lemma bundle_ceiling_values: "bundle_ceiling (Some (JArr (map JStr (sort (map capability_value cs))))) = Inr (set cs)"
proof -
  obtain ds where ds: "sort (map capability_value cs) = map capability_value ds" "set ds = set cs" using sorted_values by blast
  have "list_all (json_text (\<lambda>_. True)) (map JStr xs)" "map text_value (map JStr xs) = xs" for xs
    by (simp_all add: list_all_iff json_text_def text_value_def comp_def)
  moreover have "capabilities_of (map capability_value ds) = Inr ds" by (simp add: capabilities_of_Inr)
  ultimately show ?thesis unfolding bundle_ceiling_def json_iter_def ds(1) by (simp add: ds(2) del: map_map)
qed

text \<open>
  C40. A signed bundle verifies to exactly the authority it was signed for. What \<open>sign_policy_bundle\<close> returns is accepted under the same
  key, with the stripped project root, precisely the listed capabilities and the key identifier, unless the root is not absolute or
  no capability was listed, which verification refuses.
\<close>

theorem policy_bundle_round_trip:
  assumes "hex_digests L" and "sign_policy_bundle L E project_root allowed key key_id human = Inr payload"
  shows "verify_policy_bundle L E payload key =
    (if \<not> prefix ''/'' (py_strip project_root) then bundle_error ''policy project root must be absolute''
     else if allowed = [] then bundle_error ''policy capability ceiling cannot be empty''
     else Inr \<lparr>pb_project_root = py_strip project_root, pb_ceiling = {c. capability_value c \<in> set allowed}, pb_key_id = key_id, pb_raw = payload\<rparr>)"
proof -
  from assms(2) obtain cs where key: "key \<noteq> []" and cs: "capabilities_of allowed = Inr cs"
    and hm: "\<And>h. human = Some h \<Longrightarrow> validate_config L E h = Inr h"
    and pl: "payload = bundle_payload project_root (sort (map capability_value cs)) key_id human
       (hmac_hex L key (bundle_bytes L (bundle_payload project_root (sort (map capability_value cs)) key_id human [])))"
    by (auto simp: sign_policy_bundle_def Let_def map_sum_def split: if_splits sum.splits option.splits dest: validate_config_Inr)
  have al: "allowed = map capability_value cs" using cs by (simp add: capabilities_of_Inr)
  then have set: "{c. capability_value c \<in> set allowed} = set cs" by auto
  have sg: "signature_object k v = JObj [(''type'', JStr ''hmac-sha256''), (''key_id'', JStr k), (''value'', JStr v)]" for k v
    by (simp add: signature_object_def)
  have "bundle_bytes L payload = bundle_bytes L (bundle_payload project_root (sort (map capability_value cs)) key_id human [])"
    unfolding pl by (rule bundle_bytes_signature)
  then obtain v where pv: "payload = bundle_payload project_root (sort (map capability_value cs)) key_id human v" "v = hmac_hex L key (bundle_bytes L payload)"
    using pl by simp
  have cmp: "compare_digest (hmac_hex L key (bundle_bytes L payload)) v = Inr True"
    unfolding pv(2) by (rule compare_digest_same [OF hmac_ascii [OF assms(1)]])
  have hmv: "(case human of None \<Rightarrow> Inr () | Some h \<Rightarrow> map_sum id (\<lambda>_. ()) (validate_config L E h)) = (Inr () :: unit res)"
    using hm by (cases human) simp_all
  note get = bundle_payload_get [of project_root "sort (map capability_value cs)" key_id human v, folded pv(1)]
  have "verify_policy_bundle L E payload key =
    (if \<not> prefix ''/'' (py_strip project_root) then bundle_error ''policy project root must be absolute''
     else if set cs = {} then bundle_error ''policy capability ceiling cannot be empty''
     else Inr \<lparr>pb_project_root = py_strip project_root, pb_ceiling = set cs, pb_key_id = key_id, pb_raw = payload\<rparr>)"
    unfolding verify_policy_bundle_def jget_def get sg
    using key cmp hmv by (simp add: bundle_ceiling_values Let_def)
  with set al show ?thesis by simp
qed

text \<open>
  A verified bundle is authentic and well-formed. Its signature value is the keyed digest of the rest of the payload, its project root is
  absolute, its ceiling is not empty and holds only capabilities that the signed payload lists; and if it configures human approval, then with
  a lifetime of 30 to 600 seconds and one to 32 credentials, each a security key for BULL approvals or, with a lifetime of 30 seconds, a
  validated hardware enrolment.
\<close>

theorem policy_bundle_authentic:
  assumes "verify_policy_bundle L E payload key = Inr b"
  shows "pb_raw b = payload \<and> prefix ''/'' (pb_project_root b) \<and> pb_ceiling b \<noteq> {}
    \<and> (\<exists>sig. jget payload ''signature'' = JObj sig
         \<and> (case dict_get sig ''value'' of None \<Rightarrow> [] | Some v \<Rightarrow> str_of_json L v) = hmac_hex L key (bundle_bytes L payload))
    \<and> (\<exists>vs. map_option json_iter (dict_get payload ''allowed_capabilities'') = Some (Inr vs)
         \<and> capability_value ` pb_ceiling b = text_value ` set vs)
    \<and> (case dict_get payload ''human_approval'' of None \<Rightarrow> True
       | Some h \<Rightarrow> \<exists>ttl cs. jfield h ''ttl_seconds'' = JInt ttl \<and> 30 \<le> ttl \<and> ttl \<le> 600
           \<and> jfield h ''credentials'' = JObj cs \<and> cs \<noteq> [] \<and> length cs \<le> 32
           \<and> list_all (\<lambda>(identity, k). label_text ''_.@-'' identity
               \<and> ((\<exists>s blob. k = JStr s \<and> enrolled_key s blob) \<or> ttl = 30 \<and> validate_credential E k = Inr k)) cs)"
proof -
  from assms obtain sig caps where sig: "jget payload ''signature'' = JObj sig"
    and cmp: "compare_digest (hmac_hex L key (bundle_bytes L payload)) (case dict_get sig ''value'' of None \<Rightarrow> [] | Some v \<Rightarrow> str_of_json L v) = Inr True"
    and caps: "bundle_ceiling (dict_get payload ''allowed_capabilities'') = Inr caps" "caps \<noteq> {}"
    and human: "(case dict_get payload ''human_approval'' of None \<Rightarrow> Inr () | Some h \<Rightarrow> map_sum id (\<lambda>_. ()) (validate_config L E h)) = Inr ()"
    and b: "pb_raw b = payload" "prefix ''/'' (pb_project_root b)" "pb_ceiling b = caps"
    unfolding verify_policy_bundle_def Let_def
    by (auto split: if_split_asm json.split_asm sum.split_asm) blast
  have mac: "(case dict_get sig ''value'' of None \<Rightarrow> [] | Some v \<Rightarrow> str_of_json L v) = hmac_hex L key (bundle_bytes L payload)"
    using cmp by (auto simp: compare_digest_def split: if_splits)
  obtain vs where vs: "map_option json_iter (dict_get payload ''allowed_capabilities'') = Some (Inr vs)"
    "capability_value ` caps = text_value ` set vs"
  proof (cases "dict_get payload ''allowed_capabilities''")
    case None
    with caps show thesis by (simp add: bundle_ceiling_def)
  next
    case (Some j)
    with caps(1) obtain vs cs where v: "json_iter j = Inr vs" "capabilities_of (map text_value vs) = Inr cs" "caps = set cs"
      by (auto simp: bundle_ceiling_def split: sum.splits if_splits)
    from v(2) have "capability_value ` set cs = text_value ` set vs" by (metis capabilities_of_Inr list.set_map)
    with v(1,3) Some show thesis by (intro that [of vs]) simp_all
  qed
  have "case dict_get payload ''human_approval'' of None \<Rightarrow> True
       | Some h \<Rightarrow> \<exists>ttl cs. jfield h ''ttl_seconds'' = JInt ttl \<and> 30 \<le> ttl \<and> ttl \<le> 600
           \<and> jfield h ''credentials'' = JObj cs \<and> cs \<noteq> [] \<and> length cs \<le> 32
           \<and> list_all (\<lambda>(identity, k). label_text ''_.@-'' identity
               \<and> ((\<exists>s blob. k = JStr s \<and> enrolled_key s blob) \<or> ttl = 30 \<and> validate_credential E k = Inr k)) cs"
  proof (cases "dict_get payload ''human_approval''")
    case (Some h)
    with human obtain v where "validate_config L E h = Inr v" by (cases "validate_config L E h") auto
    from validate_config_Inr [OF this] Some show ?thesis by simp
  qed simp
  with sig mac caps vs b show ?thesis by blast
qed

section \<open>What the manifest guarantees\<close>

lemma critical_hashes_Inr:
  "critical_hashes L files ns = Inr hs \<longleftrightarrow>
     list_all (\<lambda>n. files n \<noteq> None) ns \<and> hs = map (\<lambda>n. (n, JStr (sha256_hex L (the (files n))))) ns"
proof (induction ns arbitrary: hs)
  case Nil
  then show ?case by auto
next
  case (Cons n ns)
  show ?case
  proof (cases "critical_hashes L files ns")
    case (Inl e)
    with Cons.IH [of "map (\<lambda>n. (n, JStr (sha256_hex L (the (files n))))) ns"] show ?thesis by (auto split: option.splits)
  next
    case (Inr rest)
    with Cons.IH [of rest] show ?thesis by (auto split: option.splits)
  qed
qed

lemma critical_distinct: "distinct CRITICAL_FILES"
  by code_simp

lemma dict_get_map: "distinct ns \<Longrightarrow> n \<in> set ns \<Longrightarrow> dict_get (map (\<lambda>n. (n, f n)) ns) n = Some (f n)"
  by (induction ns) auto

text \<open>
  C15. A verified manifest pins the trusted files. Take the signed manifest of a package; it verifies on another state of the package, under the
  same key and with the signature required, if and only if every critical file is there with the contents it had when the manifest
  was built, provided the digest tells these contents apart.
\<close>

theorem integrity_manifest_pins_files:
  assumes "hex_digests L"
    and "build_integrity_manifest L files platform = Inr manifest" and "sign_integrity_manifest L manifest key key_id = Inr signed"
    and "inj_on (sha256_hex L) {c. \<exists>n \<in> set CRITICAL_FILES. files n = Some c \<or> files' n = Some c}"
  shows "verify_integrity_manifest L files' platform' signed (Some key) True = Inr () \<longleftrightarrow> list_all (\<lambda>n. files' n = files n) CRITICAL_FILES"
proof -
  define hash where "hash fs n = JStr (sha256_hex L (the (fs n)))" for fs :: "string \<Rightarrow> string option" and n
  have there: "list_all (\<lambda>n. files n \<noteq> None) CRITICAL_FILES"
    and m: "manifest = [(''format'', JStr ''bull-integrity-v2''), (''platform'', JStr platform), (''algorithm'', JStr ''sha256''),
      (''files'', JObj (map (\<lambda>n. (n, hash files n)) CRITICAL_FILES))]"
    using assms(2) by (auto simp: build_integrity_manifest_def map_sum_def hash_def critical_hashes_Inr split: sum.splits)
  have key: "key \<noteq> []" and sg: "signed = dict_set ''signature'' (signature_object key_id (hmac_hex L key (bundle_bytes L manifest))) manifest"
    using assms(3) by (auto simp: sign_integrity_manifest_def split: if_splits)
  have "bundle_bytes L signed = bundle_bytes L manifest" by (simp add: sg bundle_bytes_def)
  then have sig: "verify_manifest_signature L signed key = Inr ()"
    using key compare_digest_same [OF hmac_ascii [OF assms(1)], of key "bundle_bytes L manifest"]
    by (simp add: verify_manifest_signature_def sg jget_def signature_object_def)
  have fmt: "jget signed ''format'' = JStr ''bull-integrity-v2''"
    and fs: "dict_get signed ''files'' = Some (JObj (map (\<lambda>n. (n, hash files n)) CRITICAL_FILES))" by (simp_all add: sg m jget_def)
  have same: "same_files (map (\<lambda>n. (n, hash files' n)) CRITICAL_FILES) (JObj (map (\<lambda>n. (n, hash files n)) CRITICAL_FILES)) \<longleftrightarrow>
      list_all (\<lambda>n. hash files' n = hash files n) CRITICAL_FILES"
    using dict_get_map [OF critical_distinct, of _ "hash files"] by (auto simp: same_files_def list_all_iff)
  have "verify_integrity_manifest L files' platform' signed (Some key) True = Inr () \<longleftrightarrow>
      list_all (\<lambda>n. files' n \<noteq> None) CRITICAL_FILES \<and> list_all (\<lambda>n. hash files' n = hash files n) CRITICAL_FILES"
  proof (cases "critical_hashes L files' CRITICAL_FILES")
    case (Inl e)
    then have "\<not> list_all (\<lambda>n. files' n \<noteq> None) CRITICAL_FILES" using critical_hashes_Inr [of L files' CRITICAL_FILES] by fastforce
    with Inl show ?thesis by (simp add: verify_integrity_manifest_def fmt sig build_integrity_manifest_def)
  next
    case (Inr hs)
    then have "list_all (\<lambda>n. files' n \<noteq> None) CRITICAL_FILES" "hs = map (\<lambda>n. (n, hash files' n)) CRITICAL_FILES"
      by (simp_all add: critical_hashes_Inr hash_def)
    with Inr same show ?thesis by (simp add: verify_integrity_manifest_def fmt sig build_integrity_manifest_def jget_def fs fmt [unfolded jget_def])
  qed
  also have "\<dots> \<longleftrightarrow> list_all (\<lambda>n. files' n = files n) CRITICAL_FILES"
    using there assms(4) by (fastforce simp: list_all_iff hash_def inj_on_def)
  finally show ?thesis .
qed

section \<open>A deployment\<close>

definition demo_ec :: ec_lib where
  "demo_ec = \<lparr>ec_point = (\<lambda>k. False), ec_verify = (\<lambda>k sg m. False)\<rparr>"

definition demo_bundle :: "jobj res" where
  "demo_bundle = sign_policy_bundle plain_lib demo_ec ''/workspace '' (map capability_value [FS_WRITE_PROJECT, FS_READ_PROJECT]) ''k'' ''deployment-policy'' None"

lemma demo_bundle_signed: "isl demo_bundle = False"
  by code_simp

lemma demo_bundle_Inr: "\<exists>payload. demo_bundle = Inr payload"
proof (cases demo_bundle)
  case (Inl e)
  show ?thesis using demo_bundle_signed unfolding Inl by simp
qed blast

lemma demo_bundle_verified:
  "map_sum id (\<lambda>b. (pb_project_root b, pb_ceiling b = {FS_READ_PROJECT, FS_WRITE_PROJECT}))
     (verify_policy_bundle plain_lib demo_ec (projr demo_bundle) ''k'') = Inr (''/workspace'', True)"
  by code_simp

theorem policy_bundle_round_trip_witness:
  "\<exists>payload. demo_bundle = Inr payload \<and> verify_policy_bundle plain_lib demo_ec payload ''k'' =
     Inr \<lparr>pb_project_root = py_strip ''/workspace '', pb_ceiling = {c. capability_value c \<in> set (map capability_value [FS_WRITE_PROJECT, FS_READ_PROJECT])},
          pb_key_id = ''deployment-policy'', pb_raw = payload\<rparr>"
proof -
  obtain payload where p: "demo_bundle = Inr payload" using demo_bundle_Inr by blast
  have root: "\<not> \<not> prefix ''/'' (py_strip ''/workspace '')" by code_simp
  have ne: "map capability_value [FS_WRITE_PROJECT, FS_READ_PROJECT] \<noteq> []" by simp
  from policy_bundle_round_trip [OF hex_digests_plain p [unfolded demo_bundle_def]] p show ?thesis
    unfolding if_not_P [OF ne] if_not_P [OF root] by blast
qed

theorem policy_bundle_authentic_witness:
  "\<exists>payload b. demo_bundle = Inr payload \<and> verify_policy_bundle plain_lib demo_ec payload ''k'' = Inr b
     \<and> pb_raw b = payload \<and> prefix ''/'' (pb_project_root b) \<and> pb_ceiling b \<noteq> {}"
proof -
  obtain payload where p: "demo_bundle = Inr payload" using demo_bundle_Inr by blast
  obtain b where b: "verify_policy_bundle plain_lib demo_ec payload ''k'' = Inr b"
    using demo_bundle_verified unfolding p sum.sel by (cases "verify_policy_bundle plain_lib demo_ec payload ''k''") auto
  from policy_bundle_authentic [OF b] p b show ?thesis by blast
qed

text \<open>A library whose digest tells two contents apart, and a package in which one file was changed.\<close>

definition two_digest_lib :: pylib where
  "two_digest_lib = plain_lib\<lparr>sha256_hex := (\<lambda>s. if s = ''x'' then replicate 64 (CHR ''0'') else replicate 64 (CHR ''1''))\<rparr>"

definition package :: "string \<Rightarrow> string option" where
  "package n = Some ''x''"

definition changed_package :: "string \<Rightarrow> string option" where
  "changed_package n = Some (if n = ''policy.py'' then ''y'' else ''x'')"

definition package_manifest :: jobj where
  "package_manifest = projr (build_integrity_manifest two_digest_lib package ''linux'')"

definition package_signed :: jobj where
  "package_signed = projr (sign_integrity_manifest two_digest_lib package_manifest ''k'' ''deployment'')"

theorem integrity_manifest_pins_files_witness:
  "verify_integrity_manifest two_digest_lib package ''linux'' package_signed (Some ''k'') True = Inr ()
   \<and> verify_integrity_manifest two_digest_lib changed_package ''linux'' package_signed (Some ''k'') True \<noteq> Inr ()"
proof -
  have L: "hex_digests two_digest_lib" by (simp add: hex_digests_def two_digest_lib_def plain_lib_def hex64_plain)
  have "isl (build_integrity_manifest two_digest_lib package ''linux'') = False" by code_simp
  then have m: "build_integrity_manifest two_digest_lib package ''linux'' = Inr package_manifest"
    unfolding package_manifest_def by (simp add: sum.expand)
  have s: "sign_integrity_manifest two_digest_lib package_manifest ''k'' ''deployment'' = Inr package_signed"
    by (simp add: package_signed_def sign_integrity_manifest_def)
  have inj: "inj_on (sha256_hex two_digest_lib) S" if "S \<subseteq> {''x'', ''y''}" for S
    using that by (auto simp: inj_on_def two_digest_lib_def)
  have "list_all (\<lambda>n. package n = package n) CRITICAL_FILES" by (simp add: list_all_iff)
  moreover have "\<not> list_all (\<lambda>n. changed_package n = package n) CRITICAL_FILES" by code_simp
  moreover have "{c. \<exists>n \<in> set CRITICAL_FILES. package n = Some c \<or> package n = Some c} \<subseteq> {''x'', ''y''}" by (auto simp: package_def)
  moreover have "{c. \<exists>n \<in> set CRITICAL_FILES. package n = Some c \<or> changed_package n = Some c} \<subseteq> {''x'', ''y''}"
    by (auto simp: package_def changed_package_def)
  ultimately show ?thesis
    using integrity_manifest_pins_files [OF L m s inj, of package "''linux''"] integrity_manifest_pins_files [OF L m s inj, of changed_package "''linux''"]
    by blast
qed

end
