(* ===== verification/Spec2Isabelle.thy ===== *)
theory Spec2Isabelle
  imports Trace_Model Canonicalizer Engine Security_Domain Secret_Broker Runtime Hardware_Protocol Approval Dispatcher
    Seccomp_Policy Microvm_Protocol Multi_Agent Egress_Proxy Filesystem_Manifest Policy_Bundle Adversary_Capture
begin

text \<open>
  BULL is a security boundary for autonomous agents, written in Python under \<^verbatim>\<open>src/src/bulldog\<close>. An agent proposes
  actions; BULL rewrites a proposal into a canonical action whose authority comes from the host, decides on it with a
  deterministic policy, keeps a hash-chained audit record of the decision, asks a human where the consequence demands
  it, and hands what remains to a sandbox or a broker. This library models the decision and enforcement logic and
  proves what makes it a boundary. Paths below are relative to \<^verbatim>\<open>src/src/bulldog\<close>.

  \<^bold>\<open>How the parts interact.\<close> The dispatcher (\<^verbatim>\<open>dispatcher.py\<close>) is the entry. It derives the caller's authority from its security
  domain (\<^verbatim>\<open>security_domain.py\<close>), canonicalises the proposal (\<^verbatim>\<open>canonicalizer.py\<close>), has the engine (\<^verbatim>\<open>engine.py\<close>) combine
  the policy (\<^verbatim>\<open>policy.py\<close>), the session guard (\<^verbatim>\<open>session_guard.py\<close>) and the advisory model, and appends the result to the audit
  ledger (\<^verbatim>\<open>audit.py\<close>), which a collector anchors (\<^verbatim>\<open>audit_transport.py\<close>, \<^verbatim>\<open>anchor_service.py\<close>). Execution goes through the
  runtime (\<^verbatim>\<open>runtime.py\<close>): manifest, snapshot, malware scan and sandbox, with every transition checked online against the trace
  model (\<^verbatim>\<open>trace_model.py\<close>, \<^verbatim>\<open>trace_runtime.py\<close>). Consequential effects consume a human approval (\<^verbatim>\<open>approval.py\<close>, signed by an
  SSH security key, \<^verbatim>\<open>approval_crypto.py\<close>, or a hardware device, \<^verbatim>\<open>hardware_approval\<close>); secrets and network requests go through
  brokers (\<^verbatim>\<open>secret_broker.py\<close>, \<^verbatim>\<open>egress_proxy.py\<close>). Beside this pipeline stand the multi-agent layer (\<^verbatim>\<open>multiagent\<close>), the control
  channel of a MicroVM (\<^verbatim>\<open>microvm_protocol.py\<close>), the system call filter (\<^verbatim>\<open>seccomp_policy.py\<close>), the signed deployment inputs
  (\<^verbatim>\<open>policy_bundle.py\<close>, \<^verbatim>\<open>integrity.py\<close>) and the capture of hostile agents (\<^verbatim>\<open>adversary\<close>).

  \<^bold>\<open>Conventions.\<close> An exception is a value: \<open>'a res\<close> is an exception class with its message, or a result; an operation that can
  raise half-way returns the state it reached as well. A Python \<open>str\<close> is its UTF-8 encoding, a dictionary an association list in
  insertion order, an object a record, and a method a function from the record to a result and a new record. Floating
  point numbers are rationals. Code that is not in the repository is an argument: the hash functions and Unicode tables (\<open>pylib\<close>), clocks,
  random identifiers, file systems, networks, databases' storage, ClamAV, \<open>ssh-keygen\<close>, libseccomp and the curve arithmetic. Where a theorem needs
  something of them it is a named hypothesis (digests are hexadecimal, a digest tells two given inputs apart, libseccomp behaves as documented), and the
  theorem's witness instantiates the argument with a concrete function. Everything else is assumed of nothing: networks, file systems, models and agents
  answer as they like.

  \<^bold>\<open>Theories, in dependency order.\<close>

  \<^item> \<open>Bull_Prelude\<close>: results, dictionaries, decimal text, runs of machines and objects, and the shared contracts as locales.
  \<^item> \<open>Py_Text\<close>, \<open>Py_Url\<close>, \<open>Py_Json\<close>, \<open>Py_Regex\<close>: what the code uses of Python's strings, paths, \<open>urlsplit\<close>, \<open>json\<close> and \<open>re\<close>; the
    regular expression matcher is proved equivalent to the declarative meaning of a pattern.
  \<^item> \<open>Models\<close>: \<^verbatim>\<open>models.py\<close>, decisions, capabilities, provenance, actions, evaluations.
  \<^item> \<open>Trace_Model\<close>: the transition system, its replay and the online verifier. Accepted traces execute only after evaluation and a clean scan, at most
    once; the code's step function refines the TLA+ next-state relation; the online verifier agrees with offline replay.
  \<^item> \<open>Canonicalizer\<close>: canonical resources are free of escapes, traversal and ambiguity; authority fields come from the trusted context.
  \<^item> \<open>Policy\<close>, \<open>Session_Guard\<close>, \<open>Engine\<close>: exactly when an action is blocked; the guard and the advisory model only ever strengthen the
    policy's decision; histories are bounded and isolated per context.
  \<^item> \<open>Anchor_Service\<close>, \<open>Audit_Transport\<close>, \<open>Audit_Ledger\<close>: appending extends a valid chain, the head commits to the whole history, reconciliation
    restores an interrupted append, the collector keeps one chain per session.
  \<^item> \<open>Security_Domain\<close>: delegated authority never exceeds the root's, and a frozen lineage stays frozen.
  \<^item> \<open>Secret_Broker\<close>: a release needs an allow-listed peer and a live grant of that name and sandbox; a broker object releases at most once.
  \<^item> \<open>Runtime\<close>: the sandbox receives only admitted calls on the scanned snapshot; the result and the trace agree; exceptions come from the
    host services only.
  \<^item> \<open>Hardware_Protocol\<close>, \<open>Approval\<close>, \<open>Approval_Crypto\<close>: packet formats round-trip; an approval is consumed at most once, only for its binding, by an
    enrolled credential; an SSH signature is accepted exactly when its bytes have the required structure, presence and verification included.
  \<^item> \<open>Dispatcher\<close>: an execution was authorised for exactly this argument vector and caller; a secret read consumes an approval.
  \<^item> \<open>Seccomp_Policy\<close>: the installed filter allows exactly the listed calls and socket kinds.
  \<^item> \<open>Microvm_Protocol\<close>: frames arrive in order or the channel fails for good; one execution order per session.
  \<^item> \<open>Agent_Contracts\<close>, \<open>Agent_Scanner\<close>, \<open>Honeytoken\<close>, \<open>Agent_Bus\<close>, \<open>Agents\<close>, \<open>Multi_Agent\<close>: registered actions run only when a rule allows them and
    with a token minted for them, spent once; canary tokens do not pass the bus in any tracked encoding; reports are sound.
  \<^item> \<open>Egress_Proxy\<close>: the network is used only for granted lookups and exchanges on publicly resolved, pinned addresses.
  \<^item> \<open>Filesystem_Manifest\<close>: the walk ends against every file system within a number of calls fixed by the budget, and a returned manifest
    respects every limit.
  \<^item> \<open>Policy_Bundle\<close>: signed bundles verify to the authority they were signed for; the integrity manifest pins the critical files.
  \<^item> \<open>Adversary_Capture\<close>: an attacker once contained stays contained, with its findings and a cell of the right strictness.

  \<^bold>\<open>Contracts.\<close> \<open>guarded_machine\<close> and \<open>bounded_machine\<close> (steps that keep an invariant, and decrease a rank) are interpreted on the trace model;
  \<open>stateful_object\<close> (operations that keep an invariant and only move forward in an order) on the online verifier, the session guard, the
  collector and the canary monitor; \<open>guarded_object\<close>, its version for operations with a side condition such as a fresh identifier, of which
  \<open>stateful_object\<close> is an instance by a \<open>sublocale\<close>, on the approval gate, the scoped broker, the capture system and the domain registry, twice; \<open>bus_relation\<close> and
  its extension \<open>system_relation\<close> (what a delivery on the bus, and a whole run, preserve) on the approval tokens and on the wiring of the agents.

  \<^bold>\<open>Bounds and termination.\<close> There is no fuel: every loop is structural or has a measure. The descent of the manifest walk is
  bounded by the depth budget, its work by the entry budget; the bus by its hop limit; string loops by the length of the text.
  Integers are unbounded as in Python, except for packet fields, system call arguments and mode bits, which are words or have their width written out.

  \<^bold>\<open>Not modelled.\<close> Namespaces, Landlock, cgroups and the container and socket hardening (\<^verbatim>\<open>namespace_sandbox.py\<close>, \<^verbatim>\<open>landlock_policy.py\<close>,
  \<^verbatim>\<open>cgroup_scope.py\<close> and their neighbours), the Firecracker process and image building (\<^verbatim>\<open>microvm.py\<close>, \<^verbatim>\<open>microvm_image.py\<close>, \<^verbatim>\<open>guest_engine.py\<close>,
  \<^verbatim>\<open>guest_preflight.py\<close>), the ClamAV subprocess (\<^verbatim>\<open>malware_scanner.py\<close>) and the snapshot worker (\<^verbatim>\<open>snapshot.py\<close>, \<^verbatim>\<open>secure_fs.py\<close>) are sequences of system calls whose
  effect is the kernel's; they enter as arguments through their results. The start-up and release checks (\<^verbatim>\<open>production_gate.py\<close>, \<^verbatim>\<open>assurance.py\<close>,
  \<^verbatim>\<open>release_evidence.py\<close>) inspect the installation, the sentinel (\<^verbatim>\<open>agent_sentinel.py\<close>) is advisory, and the command lines and tools print and provision. Of modelled modules, server threads, socket files, file locks and the SQL engine are
  left out; a connection is the data it delivers, a transaction its effect on the rows.
\<close>

end
